(* ===== verification/Prelude.thy ===== *)
theory Prelude
  imports Complex_Main "HOL-Library.Multiset"
begin

text \<open>
  Shared vocabulary of the development: the names of the model's types, the error
  values that stand for the exceptions of the program, the collection of rules the
  component theories extend, and generic facts on lists that several components use
  (counting entries of a list after an index update, filtering a sorted prefix, the
  distinctness of a concatenation of position-tagged lists, pair comprehensions).
\<close>

section \<open>Types of the model\<close>

type_synonym fid = nat \<comment> \<open>a feature identifier: the row's index in the input frame\<close>
type_synonym cid = int \<comment> \<open>a cluster id as stored in the \<open>cluster_id\<close> column; \<open>-1\<close> is noise\<close>
type_synonym seconds = int \<comment> \<open>absolute timestamps and durations, in seconds\<close>

text \<open>A column of a data frame: its name and the one-letter numpy \<open>dtype.kind\<close> of its
  values (\<open>M\<close> datetime, \<open>m\<close> timedelta, \<open>O\<close> object, \<open>i\<close> integer, ...).\<close>

type_synonym column = "string \<times> char"

text \<open>
  The interface between the Neighbor Graph Builder and the Cluster Labeler: the neighbour
  relation as a list of undirected edges between feature identifiers, well formed when
  every edge names one of the \<open>n\<close> features.
\<close>

type_synonym edge = "fid \<times> fid"

definition edges_valid :: "nat \<Rightarrow> edge list \<Rightarrow> bool" where
  "edges_valid n es \<longleftrightarrow> (\<forall>e \<in> set es. fst e < n \<and> snd e < n)"

text \<open>
  The exceptions the program can raise. \<open>KeyError\<close> is Python's dictionary miss;
  \<open>AssertionError\<close> is folium's check of the tooltip fields when the map is rendered;
  the other three are the error classes of the clustering engine (spec, section 7):
  a rejected run parameter, an unusable input frame, and a neighbour relation that
  names an unknown feature.
\<close>

datatype error = KeyError | AssertionError | ParameterError | InputError | MalformedRelation

text \<open>The rank of a number in a set: how many members of the set are smaller. Dense
  numbering in order of a key is numbering by rank.\<close>

definition rank :: "nat set \<Rightarrow> nat \<Rightarrow> nat" where
  "rank S x = card {y \<in> S. y < x}"

section \<open>Rule collections\<close>

named_theorems eval_simps \<open>definitions of the checks on the form and on the run parameters,
  which decide on concrete inputs by \<open>simp\<close>\<close>

section \<open>Lists\<close>

lemma count_list_update_hit:
  "i < length xs \<Longrightarrow> xs ! i = a \<Longrightarrow> b \<noteq> a \<Longrightarrow>
   Suc (count_list (xs[i := b]) a) = count_list xs a"
proof (induction xs arbitrary: i)
  case Nil
  then show ?case by simp
next
  case (Cons x xs)
  then show ?case by (cases i) auto
qed

lemma count_list_update_miss:
  "xs ! i \<noteq> a \<Longrightarrow> b \<noteq> a \<Longrightarrow> count_list (xs[i := b]) a = count_list xs a"
proof (induction xs arbitrary: i)
  case Nil
  then show ?case by simp
next
  case (Cons x xs)
  then show ?case by (cases i) auto
qed

text \<open>
  Filtering the prefix of a list sorted by a key, cut where the key first exceeds a
  bound, loses nothing when the filter only accepts elements within the bound: the
  sweep of the spatial index rests on this.
\<close>

lemma filter_takeWhile_sorted:
  assumes "sorted (map f xs)" and "\<And>x. P x \<Longrightarrow> f x \<le> c"
  shows "filter P (takeWhile (\<lambda>x. f x \<le> c) xs) = filter P xs"
  using assms(1)
proof (induction xs)
  case Nil
  then show ?case by simp
next
  case (Cons x xs)
  show ?case
  proof (cases "f x \<le> c")
    case True
    with Cons show ?thesis by simp
  next
    case False
    with Cons.prems have "\<forall>y \<in> set xs. c < f y" by auto
    with False assms(2) have "filter P (x # xs) = []"
      by (auto simp: filter_empty_conv not_le dest: leD)
    with False show ?thesis by simp
  qed
qed

section \<open>Sets\<close>

text \<open>Counting the keys of a batch that a map does not hold yet, one key at a time.\<close>

lemma card_insert_diff:
  "finite I \<Longrightarrow> card (insert k I - D) = (if k \<in> D then 0 else 1) + card (I - insert k D)"
proof (cases "k \<in> D")
  case True
  then show ?thesis by (simp add: insert_absorb)
next
  case False
  assume "finite I"
  with False have "insert k I - D = insert k (I - insert k D)" by auto
  with \<open>finite I\<close> False show ?thesis by simp
qed

section \<open>Ranks\<close>

lemma rank_less:
  assumes "finite S" and "x \<in> S" and "x < y"
  shows "rank S x < rank S y"
proof -
  have "{z \<in> S. z < x} \<subset> {z \<in> S. z < y}" using assms(2,3) by auto
  then show ?thesis unfolding rank_def by (rule psubset_card_mono [rotated]) (simp add: assms(1))
qed

lemma rank_less_iff:
  "finite S \<Longrightarrow> x \<in> S \<Longrightarrow> y \<in> S \<Longrightarrow> rank S x < rank S y \<longleftrightarrow> x < y"
  by (metis rank_less less_asym linorder_neqE_nat)

text \<open>Ranking a finite set numbers its members densely from 0.\<close>

lemma rank_image:
  assumes "finite S"
  shows "rank S ` S = {0..<card S}"
proof (rule card_subset_eq)
  show "finite {0..<card S}" by simp
  show "rank S ` S \<subseteq> {0..<card S}"
  proof
    fix k assume "k \<in> rank S ` S"
    then obtain x where "x \<in> S" "k = rank S x" by blast
    then have "{y \<in> S. y < x} \<subset> S" by auto
    with assms \<open>k = rank S x\<close> show "k \<in> {0..<card S}"
      by (simp add: rank_def psubset_card_mono)
  qed
  have "inj_on (rank S) S"
    by (rule inj_onI) (metis assms rank_less_iff less_irrefl linorder_neqE_nat)
  then show "card (rank S ` S) = card {0..<card S}" by (simp add: card_image)
qed

text \<open>A concatenation of distinct lists tagged by their position is distinct.\<close>

lemma distinct_concat_upt:
  assumes "\<And>i. i < k \<Longrightarrow> distinct (f i)" and "\<And>i e. i < k \<Longrightarrow> e \<in> set (f i) \<Longrightarrow> g e = i"
  shows "distinct (concat (map f [0..<k]))"
  using assms
proof (induction k)
  case 0
  then show ?case by simp
next
  case (Suc k)
  have "e \<notin> set (f k)" if "e \<in> set (concat (map f [0..<k]))" for e
  proof
    assume "e \<in> set (f k)"
    then have "g e = k" using Suc.prems(2) by simp
    moreover from that obtain i where "i < k" "e \<in> set (f i)" by auto
    then have "g e = i" using Suc.prems(2) by simp
    ultimately show False using \<open>i < k\<close> by simp
  qed
  then have "set (concat (map f [0..<k])) \<inter> set (f k) = {}" by blast
  with Suc show ?case by simp
qed

lemma pairs_filter: "[(i, j). j \<leftarrow> xs, P j] = map (Pair i) (filter P xs)"
  by (induction xs) auto

end
