(* ===== verification/App_Params.thy ===== *)
theory App_Params
  imports Prelude
begin

text \<open>
  The parameter form of \<open>src/app.py\<close> (steps 3 and 4 of the script, lines 45--80 and
  94--100): which columns are offered as the time column, how the cluster period is
  computed from a value and a unit, the ranges the widgets allow, and the arguments the
  script hands to \<open>cluster_polygons\<close>.
\<close>

section \<open>Time column\<close>

text \<open>\<open>datetime_cols = [c for c in gdf.columns if gdf[c].dtype.kind in ("M", "O")]\<close>\<close>

definition datetime_cols :: "column list \<Rightarrow> string list" where
  "datetime_cols cols = [fst c. c \<leftarrow> cols, snd c \<in> {CHR ''M'', CHR ''O''}]"

text \<open>
  \<open>st.selectbox(options=datetime_cols, index=0 if datetime_cols else None)\<close>: with
  options it shows the first one unless the user picks another (\<open>pick\<close>, an index into
  the options); with no options it returns \<open>None\<close>.
\<close>

definition select_time_key :: "string list \<Rightarrow> nat option \<Rightarrow> string option" where
  "select_time_key opts pick =
     (if opts = [] then None
      else case pick of
             None \<Rightarrow> Some (opts ! 0)
           | Some i \<Rightarrow> Some (opts ! (if i < length opts then i else 0)))"

text \<open>\<open>time_key=time_key if time_key else None\<close>: the empty name is falsy.\<close>

definition engine_time_key :: "string option \<Rightarrow> string option" where
  "engine_time_key tk = (case tk of None \<Rightarrow> None | Some k \<Rightarrow> if k = [] then None else Some k)"

section \<open>Cluster period\<close>

definition unit_options :: "string list" where
  "unit_options = [''seconds'', ''minutes'', ''hours'', ''days'']"

definition unit_multipliers :: "string \<rightharpoonup> int" where
  "unit_multipliers =
     map_of [(''seconds'', 1), (''minutes'', 60), (''hours'', 3600), (''days'', 86400)]"

text \<open>\<open>cluster_period = cluster_value * unit_multipliers[cluster_unit]\<close>; a unit that is
  not a key of the dictionary raises \<open>KeyError\<close>.\<close>

definition cluster_period :: "int \<Rightarrow> string \<Rightarrow> error + seconds" where
  "cluster_period v u =
     (case unit_multipliers u of None \<Rightarrow> Inl KeyError | Some m \<Rightarrow> Inr (v * m))"

section \<open>Widget ranges\<close>

text \<open>
  What Streamlit's widgets can return: \<open>number_input(min_value=1, step=1)\<close> an integer
  at least 1, \<open>slider(min_value=0, max_value=100, step=5)\<close> a multiple of 5 in
  \<open>[0, 100]\<close>, \<open>selectbox\<close> one of its options.
\<close>

definition number_input_ok :: "int \<Rightarrow> bool" where
  "number_input_ok v \<longleftrightarrow> 1 \<le> v"

definition overlap_slider_ok :: "int \<Rightarrow> bool" where
  "overlap_slider_ok p \<longleftrightarrow> 0 \<le> p \<and> p \<le> 100 \<and> p mod 5 = 0"

record form =
  time_pick :: "nat option"
  cluster_value :: int
  cluster_unit :: string
  min_cluster_size :: int
  overlap_pct :: int

definition form_ok :: "form \<Rightarrow> bool" where
  "form_ok f \<longleftrightarrow> number_input_ok (cluster_value f) \<and> cluster_unit f \<in> set unit_options
     \<and> number_input_ok (min_cluster_size f) \<and> overlap_slider_ok (overlap_pct f)"

text \<open>The values the widgets show before the user changes them: \<open>value=1\<close> (line 56),
  \<open>index=2\<close> of the unit options (line 58), \<open>value=2\<close> (line 68), \<open>value=0\<close> (line 77),
  and the selectbox's first option.\<close>

definition default_form :: form where
  "default_form =
     \<lparr>time_pick = None, cluster_value = 1, cluster_unit = unit_options ! 2, min_cluster_size = 2,
      overlap_pct = 0\<rparr>"

section \<open>The arguments of \<open>cluster_polygons\<close>\<close>

record run_args =
  arg_time_key :: "string option"
  arg_time_threshold :: seconds
  arg_min_cluster_size :: int
  arg_overlap_threshold :: int

text \<open>Lines 46--80 and 94--100, evaluated in the script's order: the time column, the
  period (which may raise), then the call's keyword arguments.\<close>

definition form_args :: "column list \<Rightarrow> form \<Rightarrow> error + run_args" where
  "form_args cols f =
     (let tk = select_time_key (datetime_cols cols) (time_pick f) in
      case cluster_period (cluster_value f) (cluster_unit f) of
        Inl e \<Rightarrow> Inl e
      | Inr p \<Rightarrow> Inr \<lparr>arg_time_key = engine_time_key tk, arg_time_threshold = p,
                      arg_min_cluster_size = min_cluster_size f,
                      arg_overlap_threshold = overlap_pct f\<rparr>)"

section \<open>Properties of the form\<close>

declare form_ok_def [eval_simps] number_input_ok_def [eval_simps] overlap_slider_ok_def [eval_simps]
  unit_options_def [eval_simps]

lemma unit_multipliers_dom: "dom unit_multipliers = set unit_options"
  by (auto simp: unit_multipliers_def unit_options_def split: if_splits)

lemma unit_multipliers_pos: "unit_multipliers u = Some m \<Longrightarrow> 1 \<le> m"
  by (auto simp: unit_multipliers_def split: if_splits)

lemma cluster_period_Inr:
  "u \<in> set unit_options \<Longrightarrow> \<exists>m. 1 \<le> m \<and> cluster_period v u = Inr (v * m)"
proof -
  assume "u \<in> set unit_options"
  then obtain m where "unit_multipliers u = Some m"
    using unit_multipliers_dom by blast
  then show ?thesis
    using unit_multipliers_pos by (auto simp: cluster_period_def)
qed

lemma form_args_Inr:
  "form_args cols f = Inr a \<Longrightarrow>
   arg_overlap_threshold a = overlap_pct f \<and> arg_min_cluster_size a = min_cluster_size f
   \<and> arg_time_key a = engine_time_key (select_time_key (datetime_cols cols) (time_pick f))
   \<and> cluster_period (cluster_value f) (cluster_unit f) = Inr (arg_time_threshold a)"
  by (auto simp: form_args_def Let_def split: sum.splits)

lemma cluster_period_KeyError:
  "u \<notin> set unit_options \<Longrightarrow> cluster_period v u = Inl KeyError"
  using unit_multipliers_dom by (auto simp: cluster_period_def split: option.splits)

text \<open>C15. Every form the widgets can produce yields the arguments of the call without
  an exception: the unit is always a key of \<open>unit_multipliers\<close>, the period is
  positive, the minimum size is at least 1 and passed unchanged, and so is the overlap
  percentage.\<close>

theorem form_args_ok:
  assumes "form_ok f"
  shows "\<exists>a. form_args cols f = Inr a \<and> 0 < arg_time_threshold a
             \<and> arg_min_cluster_size a = min_cluster_size f \<and> 1 \<le> arg_min_cluster_size a
             \<and> arg_overlap_threshold a = overlap_pct f"
proof -
  from assms have u: "cluster_unit f \<in> set unit_options" and v: "1 \<le> cluster_value f"
    and m: "1 \<le> min_cluster_size f"
    by (auto simp: form_ok_def number_input_ok_def)
  from cluster_period_Inr [OF u] obtain k where k: "1 \<le> k"
    and p: "cluster_period (cluster_value f) (cluster_unit f) = Inr (cluster_value f * k)"
    by blast
  from v k have "0 < cluster_value f * k" by simp
  with p m show ?thesis by (simp add: form_args_def Let_def)
qed

lemma select_time_key_in:
  "select_time_key opts p = Some k \<Longrightarrow> k \<in> set opts"
  by (auto simp: select_time_key_def split: if_splits option.splits)

text \<open>C16. The time key handed to the engine is a non-empty name of a column of the
  frame whose kind is datetime (\<open>M\<close>) or object (\<open>O\<close>): an object column of
  strings, or of geometries, is offered as a time column as well.\<close>

theorem time_key_column:
  "engine_time_key (select_time_key (datetime_cols cols) p) = Some k \<Longrightarrow>
   k \<noteq> [] \<and> ((k, CHR ''M'') \<in> set cols \<or> (k, CHR ''O'') \<in> set cols)"
  by (auto simp: engine_time_key_def datetime_cols_def split: option.splits if_splits
           dest!: select_time_key_in)

lemma form_args_params:
  assumes "form_ok f" and "form_args cols f = Inr a"
  shows "0 < arg_time_threshold a \<and> 1 \<le> arg_min_cluster_size a
         \<and> arg_overlap_threshold a = overlap_pct f"
proof -
  from assms(1) have u: "cluster_unit f \<in> set unit_options" and v: "1 \<le> cluster_value f"
    and m: "1 \<le> min_cluster_size f"
    by (auto simp: form_ok_def number_input_ok_def)
  from cluster_period_Inr [OF u] obtain k where k: "1 \<le> k"
    and p: "cluster_period (cluster_value f) (cluster_unit f) = Inr (cluster_value f * k)"
    by blast
  from v k have "0 < cluster_value f * k" by simp
  with p form_args_Inr [OF assms(2)] m show ?thesis by simp
qed

text \<open>The time key the script passes is the name of a column of the frame.\<close>

lemma time_key_in_columns:
  "engine_time_key (select_time_key (datetime_cols cols) p) = Some k \<Longrightarrow> k \<in> fst ` set cols"
  by (auto simp: engine_time_key_def datetime_cols_def split: option.splits if_splits
           dest!: select_time_key_in)

lemma datetime_cols_first:
  "datetime_cols (c # cols) =
     (if snd c \<in> {CHR ''M'', CHR ''O''} then fst c # datetime_cols cols else datetime_cols cols)"
  by (simp add: datetime_cols_def)

theorem form_args_ok_witness:
  "form_ok \<lparr>time_pick = None, cluster_value = 2, cluster_unit = ''hours'', min_cluster_size = 2,
            overlap_pct = 0\<rparr>
   \<and> (\<exists>a. form_args [(''t'', CHR ''M'')]
            \<lparr>time_pick = None, cluster_value = 2, cluster_unit = ''hours'', min_cluster_size = 2,
             overlap_pct = 0\<rparr> = Inr a \<and> 0 < arg_time_threshold a)"
proof -
  have ok: "form_ok \<lparr>time_pick = None, cluster_value = 2, cluster_unit = ''hours'',
      min_cluster_size = 2, overlap_pct = 0\<rparr>"
    by (simp add: eval_simps)
  from form_args_ok [OF ok, of "[(''t'', CHR ''M'')]"] ok show ?thesis by blast
qed

theorem time_key_column_witness:
  "engine_time_key (select_time_key (datetime_cols [(''name'', CHR ''O''), (''t'', CHR ''M'')]) None)
     = Some ''name''
   \<and> ((''name'', CHR ''M'') \<in> set [(''name'', CHR ''O''), (''t'', CHR ''M'')]
      \<or> (''name'', CHR ''O'') \<in> set [(''name'', CHR ''O''), (''t'', CHR ''M'')])"
proof -
  have k: "engine_time_key (select_time_key (datetime_cols [(''name'', CHR ''O''), (''t'', CHR ''M'')]) None)
     = Some ''name''"
    by (simp add: datetime_cols_def select_time_key_def engine_time_key_def)
  from time_key_column [OF k] k show ?thesis by blast
qed

end
