(* ===== verification/Geometry.thy ===== *)
theory Geometry
  imports Prelude
begin

text \<open>
  The Geometry Overlap Evaluator (spec, section 4.1). The engine is the library function
  \<open>cluster_polygons\<close> that \<open>src/app.py\<close> imports; its code is not in the repository,
  so this theory models the spec's contract. A polygon is represented by its raster: the
  list of unit cells \<open>[x, x+1] \<times> [y, y+1]\<close> it covers. Areas, intersections and unions
  of rasters are exact (counts of cells), so intersection-over-union and
  intersection-over-the-smaller-area are computed exactly, as rationals, and a polygon
  covering no cell is the degenerate, zero-area case. Bounding boxes are closed integer
  boxes.
\<close>

type_synonym cell = "int \<times> int"
type_synonym polygon = "cell list"

definition area :: "polygon \<Rightarrow> nat" where
  "area p = card (set p)"

definition inter_area :: "polygon \<Rightarrow> polygon \<Rightarrow> nat" where
  "inter_area p q = card (set p \<inter> set q)"

definition union_area :: "polygon \<Rightarrow> polygon \<Rightarrow> nat" where
  "union_area p q = card (set p \<union> set q)"

text \<open>The two normalisations the spec allows (its open question, section 9).\<close>

datatype overlap_mode = IoU | IoMin

definition degenerate :: "polygon \<Rightarrow> bool" where
  "degenerate p \<longleftrightarrow> area p = 0"

text \<open>A comparison with a degenerate polygon evaluates to 0 and does not fail.\<close>

fun overlap :: "overlap_mode \<Rightarrow> polygon \<Rightarrow> polygon \<Rightarrow> rat" where
  "overlap IoU p q =
     (if degenerate p \<or> degenerate q then 0
      else of_nat (inter_area p q) / of_nat (union_area p q))"
| "overlap IoMin p q =
     (if degenerate p \<or> degenerate q then 0
      else of_nat (inter_area p q) / of_nat (min (area p) (area q)))"

section \<open>Bounding boxes\<close>

record box =
  xmin :: int
  xmax :: int
  ymin :: int
  ymax :: int

fun bbox :: "polygon \<Rightarrow> box option" where
  "bbox [] = None"
| "bbox (c # cs) = Some
     \<lparr>xmin = fold min (map fst cs) (fst c), xmax = fold max (map fst cs) (fst c) + 1,
      ymin = fold min (map snd cs) (snd c), ymax = fold max (map snd cs) (snd c) + 1\<rparr>"

definition box_intersects :: "box \<Rightarrow> box \<Rightarrow> bool" where
  "box_intersects a b \<longleftrightarrow>
     xmin a \<le> xmax b \<and> xmin b \<le> xmax a \<and> ymin a \<le> ymax b \<and> ymin b \<le> ymax a"

definition bbox_intersects :: "polygon \<Rightarrow> polygon \<Rightarrow> bool" where
  "bbox_intersects p q \<longleftrightarrow>
     (case (bbox p, bbox q) of (Some a, Some b) \<Rightarrow> box_intersects a b | _ \<Rightarrow> False)"

section \<open>Areas\<close>

lemma inter_area_le_union: "inter_area p q \<le> union_area p q"
  unfolding inter_area_def union_area_def by (rule card_mono) auto

lemma inter_area_le_area: "inter_area p q \<le> area p" "inter_area p q \<le> area q"
  unfolding inter_area_def area_def by (auto intro: card_mono)

lemma area_le_union: "area p \<le> union_area p q"
  unfolding area_def union_area_def by (rule card_mono) auto

lemma area_pos_iff [simp]: "0 < area p \<longleftrightarrow> p \<noteq> []"
  by (simp add: area_def card_gt_0_iff)

lemma not_degenerate_iff [simp]: "\<not> degenerate p \<longleftrightarrow> p \<noteq> []"
  by (simp add: degenerate_def area_def)

lemma inter_area_pos_iff: "0 < inter_area p q \<longleftrightarrow> set p \<inter> set q \<noteq> {}"
  by (simp add: inter_area_def card_gt_0_iff)

lemma inter_area_sym: "inter_area p q = inter_area q p"
  by (simp add: inter_area_def Int_commute)

lemma union_area_sym: "union_area p q = union_area q p"
  by (simp add: union_area_def Un_commute)

lemmas area_facts = inter_area_le_union inter_area_le_area area_le_union

section \<open>Bounding-box facts\<close>

lemma fold_min_le: "x \<in> set (a # xs) \<Longrightarrow> fold min xs a \<le> (x::int)"
  by (metis Min.set_eq_fold Min_le List.finite_set)

lemma fold_max_ge: "x \<in> set (a # xs) \<Longrightarrow> (x::int) \<le> fold max xs a"
  by (metis Max.set_eq_fold Max_ge List.finite_set)

lemma bbox_contains:
  assumes "bbox p = Some b" and "c \<in> set p"
  shows "xmin b \<le> fst c \<and> fst c < xmax b \<and> ymin b \<le> snd c \<and> snd c < ymax b"
proof (cases p)
  case Nil
  with assms show ?thesis by simp
next
  case (Cons d ds)
  from assms(2) Cons have x: "fst c \<in> set (fst d # map fst ds)"
    and y: "snd c \<in> set (snd d # map snd ds)"
    by auto
  from fold_min_le [OF x] fold_max_ge [OF x] fold_min_le [OF y] fold_max_ge [OF y]
    assms(1) Cons
  show ?thesis by auto
qed

lemma bbox_Some_iff: "(\<exists>b. bbox p = Some b) \<longleftrightarrow> p \<noteq> []"
  by (cases p) auto

section \<open>Properties of the evaluator\<close>

text \<open>The score is symmetric in its two polygons, for both normalisations.\<close>

theorem overlap_sym: "overlap m p q = overlap m q p"
proof -
  have "(degenerate p \<or> degenerate q) = (degenerate q \<or> degenerate p)" by blast
  then show ?thesis
    by (cases m) (simp_all only: overlap.simps inter_area_sym [of p] union_area_sym [of p]
        min.commute [of "area p"])
qed

text \<open>The score is a ratio in \<open>[0, 1]\<close>.\<close>

theorem overlap_range: "0 \<le> overlap m p q \<and> overlap m p q \<le> 1"
proof (cases "degenerate p \<or> degenerate q")
  case True
  then show ?thesis by (cases m) auto
next
  case False
  then have "0 < area p" "0 < area q" by auto
  then have u: "0 < union_area p q" and a: "0 < min (area p) (area q)"
    using less_le_trans [OF _ area_le_union [of p q]] by simp_all
  have "of_nat (inter_area p q) \<le> (of_nat (union_area p q) :: rat)"
    "of_nat (inter_area p q) \<le> (of_nat (min (area p) (area q)) :: rat)"
    using area_facts [of p q] by simp_all
  with u a False show ?thesis
    by (cases m) (simp_all add: divide_le_eq_1)
qed

lemma overlap_pos_common: "0 < overlap m p q \<Longrightarrow> set p \<inter> set q \<noteq> {}"
  by (cases m) (auto simp: inter_area_pos_iff [symmetric] zero_less_divide_iff split: if_splits)

lemma common_bbox_intersects:
  assumes "c \<in> set p" and "c \<in> set q"
  shows "bbox_intersects p q"
proof -
  from assms obtain a b where a: "bbox p = Some a" and b: "bbox q = Some b"
    using bbox_Some_iff by fastforce
  from bbox_contains [OF a assms(1)] bbox_contains [OF b assms(2)]
  have "box_intersects a b" by (auto simp: box_intersects_def)
  with a b show ?thesis by (simp add: bbox_intersects_def)
qed

text \<open>Polygons whose bounding boxes are disjoint score 0: the short cut of the spec
  (section 4.1) and of the spatial index (section 4.3) loses no overlapping pair.\<close>

theorem overlap_pos_bbox: "0 < overlap m p q \<Longrightarrow> bbox_intersects p q"
  using overlap_pos_common common_bbox_intersects by blast

text \<open>Intersection over union never exceeds intersection over the smaller area, so
  every pair that qualifies under IoU qualifies under the other normalisation.\<close>

theorem iou_le_iomin: "overlap IoU p q \<le> overlap IoMin p q"
proof (cases "degenerate p \<or> degenerate q")
  case True
  then show ?thesis by simp
next
  case False
  then have "0 < min (area p) (area q)" by auto
  moreover have "min (area p) (area q) \<le> union_area p q"
    using area_le_union [of p q] by simp
  ultimately show ?thesis
    using False by (simp add: frac_le)
qed

end
