(* ===== verification/Spatial_Index.thy ===== *)
theory Spatial_Index
  imports Geometry
begin

text \<open>
  The Spatial Index (spec, section 4.3), modelled from the spec as a sort-and-sweep
  index, one of the structures the spec admits: the bounding boxes of the features, with
  their identifiers, sorted by their left edge. A query keeps the prefix of entries whose
  left edge is not right of the query box, then the entries whose box meets the query
  box. The refinement theorem shows the query returns exactly the features whose
  bounding box meets the query box: no false negatives (the spec's requirement) and, for
  this index, no false positives either.
\<close>

type_synonym index = "(fid \<times> box) list"

definition index_entries :: "polygon list \<Rightarrow> index" where
  "index_entries ps =
     concat (map (\<lambda>i. case bbox (ps ! i) of None \<Rightarrow> [] | Some b \<Rightarrow> [(i, b)]) [0..<length ps])"

definition build_index :: "polygon list \<Rightarrow> index" where
  "build_index ps = sort_key (\<lambda>e. xmin (snd e)) (index_entries ps)"

definition query :: "index \<Rightarrow> box \<Rightarrow> fid list" where
  "query idx q =
     map fst (filter (\<lambda>e. box_intersects (snd e) q) (takeWhile (\<lambda>e. xmin (snd e) \<le> xmax q) idx))"

text \<open>The abstract contract: the candidates of a box are the features whose bounding box
  meets it.\<close>

definition candidates :: "polygon list \<Rightarrow> box \<Rightarrow> fid set" where
  "candidates ps q = {i. i < length ps \<and> (\<exists>b. bbox (ps ! i) = Some b \<and> box_intersects b q)}"

section \<open>Properties\<close>

lemma set_index_entries:
  "set (index_entries ps) = {(i, b). i < length ps \<and> bbox (ps ! i) = Some b}"
  by (auto simp: index_entries_def split: option.splits)

lemma distinct_index_entries: "distinct (map fst (index_entries ps))"
proof -
  have "\<And>n. distinct (map fst (concat (map (\<lambda>i. case bbox (ps ! i) of None \<Rightarrow> []
              | Some b \<Rightarrow> [(i, b)]) [0..<n])))"
  proof -
    fix n show "distinct (map fst (concat (map (\<lambda>i. case bbox (ps ! i) of None \<Rightarrow> []
              | Some b \<Rightarrow> [(i, b)]) [0..<n])))"
      by (induction n) (auto split: option.splits)
  qed
  then show ?thesis by (simp add: index_entries_def)
qed

lemma sorted_build_index: "sorted (map (\<lambda>e. xmin (snd e)) (build_index ps))"
  by (simp add: build_index_def)

lemma mset_build_index: "mset (build_index ps) = mset (index_entries ps)"
  by (simp add: build_index_def)

text \<open>Refinement: the sweep returns exactly the candidates of the query box.\<close>

theorem query_build_index:
  "set (query (build_index ps) q) = candidates ps q"
proof -
  have "filter (\<lambda>e. box_intersects (snd e) q)
          (takeWhile (\<lambda>e. xmin (snd e) \<le> xmax q) (build_index ps))
        = filter (\<lambda>e. box_intersects (snd e) q) (build_index ps)"
    by (rule filter_takeWhile_sorted [OF sorted_build_index]) (simp add: box_intersects_def)
  moreover have "set (build_index ps) = set (index_entries ps)"
    by (simp add: build_index_def)
  ultimately show ?thesis
    by (force simp: query_def candidates_def set_index_entries image_iff)
qed

text \<open>No identifier is returned twice.\<close>

theorem query_distinct: "distinct (query (build_index ps) q)"
proof -
  have "mset (map fst (build_index ps)) = mset (map fst (index_entries ps))"
    by (simp add: mset_build_index)
  then have "distinct (map fst (build_index ps))"
    using distinct_index_entries mset_eq_imp_distinct_iff by blast
  then have "distinct (map fst (takeWhile (\<lambda>e. xmin (snd e) \<le> xmax q) (build_index ps)))"
    by (metis distinct_append map_append takeWhile_dropWhile_id)
  then show ?thesis
    by (simp add: query_def distinct_map_filter)
qed

end
