(* ===== verification/Temporal.thy ===== *)
theory Temporal
  imports Prelude
begin

text \<open>
  The Temporal Proximity Evaluator (spec, section 4.2), modelled from the spec since the
  engine's code is not in the repository. A timestamp is a count of ticks of a wall clock,
  with the clock's resolution (ticks per second) and the offset of its time zone from
  UTC in seconds. Differing precisions and zones are tolerated by normalising every
  timestamp to its absolute instant, in seconds since the UTC epoch, before subtracting.
  A feature without a timestamp is compatible with every other feature.
\<close>

record tstamp =
  ticks :: int
  per_second :: nat
  utc_offset :: seconds

definition instant :: "tstamp \<Rightarrow> rat" where
  "instant t = of_int (ticks t) / of_nat (per_second t) - of_int (utc_offset t)"

definition close :: "tstamp \<Rightarrow> tstamp \<Rightarrow> seconds \<Rightarrow> bool" where
  "close t1 t2 threshold \<longleftrightarrow> \<bar>instant t1 - instant t2\<bar> \<le> of_int threshold"

fun temporal_ok :: "tstamp option \<Rightarrow> tstamp option \<Rightarrow> seconds \<Rightarrow> bool" where
  "temporal_ok (Some t1) (Some t2) th = close t1 t2 th"
| "temporal_ok _ _ th = True"

text \<open>A UTC timestamp in whole seconds, the form the example frames use.\<close>

definition utc_seconds :: "seconds \<Rightarrow> tstamp" where
  "utc_seconds s = \<lparr>ticks = s, per_second = 1, utc_offset = 0\<rparr>"

section \<open>Properties\<close>

text \<open>Both predicates are symmetric.\<close>

lemma close_sym: "close t1 t2 th = close t2 t1 th"
  by (simp add: close_def abs_minus_commute)

lemma temporal_ok_sym: "temporal_ok a b th = temporal_ok b a th"
  by (cases a; cases b) (simp_all add: close_sym)

text \<open>A threshold of 0 admits only timestamps of the same instant, whatever their zones and
  precisions: it does not switch the filter off.\<close>

lemma close_zero: "close t1 t2 0 \<longleftrightarrow> instant t1 = instant t2"
  by (auto simp: close_def)

lemma close_mono: "close t1 t2 th \<Longrightarrow> th \<le> th' \<Longrightarrow> close t1 t2 th'"
  by (simp add: close_def)

lemma temporal_ok_None [simp]: "temporal_ok None b th" "temporal_ok a None th"
  by (cases a; cases b; simp)+

text \<open>The evaluator reads timestamps only through their instants.\<close>

lemma temporal_ok_instant_cong:
  "map_option instant a = map_option instant a' \<Longrightarrow> map_option instant b = map_option instant b' \<Longrightarrow>
   temporal_ok a b th = temporal_ok a' b' th"
  by (cases a; cases a'; cases b; cases b') (simp_all add: close_def)

lemma instant_utc_seconds [simp]: "instant (utc_seconds s) = of_int s"
  by (simp add: instant_def utc_seconds_def)

end
