(* ===== verification/Neighbor_Graph.thy ===== *)
theory Neighbor_Graph
  imports Spatial_Index Temporal
begin

text \<open>
  The Neighbor Graph Builder (spec, sections 3 and 4.4), modelled from the spec. A
  feature is a polygon with an optional timestamp; the run parameters fix the overlap
  normalisation and the two thresholds. For each feature the builder queries the spatial
  index with the feature's bounding box, keeps the candidates with a larger identifier
  (each undirected pair once), and records the pair when the overlap score reaches the
  threshold and the timestamps are close. The theorems say which set of edges that
  yields: the neighbour relation of section 3 restricted to pairs with meeting
  bounding boxes, which is the whole neighbour relation when the overlap threshold is
  positive. Each pair is recorded once, so there are at most \<open>n (n - 1) / 2\<close> edges.
\<close>

record feature =
  geom :: polygon
  ftime :: "tstamp option"

record params =
  time_threshold :: seconds
  min_size :: int
  overlap_threshold :: rat
  mode :: overlap_mode

definition neighbor :: "params \<Rightarrow> feature list \<Rightarrow> fid \<Rightarrow> fid \<Rightarrow> bool" where
  "neighbor p fs i j \<longleftrightarrow>
     overlap_threshold p \<le> overlap (mode p) (geom (fs ! i)) (geom (fs ! j))
     \<and> temporal_ok (ftime (fs ! i)) (ftime (fs ! j)) (time_threshold p)"

definition edges_from :: "params \<Rightarrow> feature list \<Rightarrow> index \<Rightarrow> fid \<Rightarrow> edge list" where
  "edges_from p fs idx i =
     (case bbox (geom (fs ! i)) of
        None \<Rightarrow> []
      | Some b \<Rightarrow> [(i, j). j \<leftarrow> query idx b, i < j \<and> neighbor p fs i j])"

definition build_edges :: "params \<Rightarrow> feature list \<Rightarrow> edge list" where
  "build_edges p fs =
     (let idx = build_index (map geom fs)
      in concat (map (edges_from p fs idx) [0..<length fs]))"

text \<open>The relation the edges stand for, as the spec's section 3 defines it.\<close>

definition neighbor_rel :: "params \<Rightarrow> feature list \<Rightarrow> edge set" where
  "neighbor_rel p fs = {(i, j). i < j \<and> j < length fs \<and> neighbor p fs i j}"

section \<open>Properties\<close>

lemma neighbor_sym: "neighbor p fs i j = neighbor p fs j i"
  by (simp add: neighbor_def overlap_sym temporal_ok_sym)

lemma bbox_intersects_sym: "bbox_intersects p q = bbox_intersects q p"
  by (auto simp: bbox_intersects_def box_intersects_def split: option.splits)

lemma set_edges_from:
  assumes "i < length fs"
  shows "set (edges_from p fs (build_index (map geom fs)) i) =
         {(i', j). i' = i \<and> i < j \<and> j < length fs
                   \<and> bbox_intersects (geom (fs ! i)) (geom (fs ! j)) \<and> neighbor p fs i j}"
proof (cases "bbox (geom (fs ! i))")
  case None
  then show ?thesis by (simp add: edges_from_def bbox_intersects_def)
next
  case (Some b)
  have q: "set (query (build_index (map geom fs)) b) = candidates (map geom fs) b"
    by (rule query_build_index)
  show ?thesis
    using Some q bbox_intersects_sym
    by (auto simp: edges_from_def candidates_def bbox_intersects_def box_intersects_def
             split: option.splits)
qed

text \<open>Refinement: the builder yields each neighbour pair \<open>(i, j)\<close> with \<open>i < j\<close> whose
  bounding boxes meet, and nothing else.\<close>

theorem set_build_edges:
  "set (build_edges p fs) =
     {(i, j). i < j \<and> j < length fs \<and> bbox_intersects (geom (fs ! i)) (geom (fs ! j))
              \<and> neighbor p fs i j}"
  by (auto simp: build_edges_def set_edges_from)

lemma neighbor_pos_bbox:
  "0 < overlap_threshold p \<Longrightarrow> neighbor p fs i j \<Longrightarrow> bbox_intersects (geom (fs ! i)) (geom (fs ! j))"
  unfolding neighbor_def by (blast intro: overlap_pos_bbox less_le_trans)

text \<open>With a positive overlap threshold the index loses no pair: the edges are exactly
  the neighbour relation of the spec.\<close>

theorem build_edges_neighbor_rel:
  "0 < overlap_threshold p \<Longrightarrow> set (build_edges p fs) = neighbor_rel p fs"
  by (auto simp: set_build_edges neighbor_rel_def dest: neighbor_pos_bbox)

lemma build_edges_valid: "edges_valid (length fs) (build_edges p fs)"
  by (auto simp: edges_valid_def set_build_edges)

text \<open>The builder reads features only through their polygons and the instants of their
  timestamps.\<close>

lemma build_edges_cong:
  assumes g: "map geom fs' = map geom fs"
    and t: "map (\<lambda>f. map_option instant (ftime f)) fs' = map (\<lambda>f. map_option instant (ftime f)) fs"
  shows "build_edges p fs' = build_edges p fs"
proof -
  from g have n: "length fs' = length fs" by (metis length_map)
  have gi: "geom (fs' ! i) = geom (fs ! i)" if "i < length fs" for i
    using arg_cong [OF g, of "\<lambda>xs. xs ! i"] that n by simp
  have ti: "map_option instant (ftime (fs' ! i)) = map_option instant (ftime (fs ! i))"
    if "i < length fs" for i
    using arg_cong [OF t, of "\<lambda>xs. xs ! i"] that n by simp
  have nb: "neighbor p fs' i j = neighbor p fs i j" if "i < length fs" "j < length fs" for i j
    using gi [OF that(1)] gi [OF that(2)] ti [OF that(1)] ti [OF that(2)]
    by (simp add: neighbor_def cong: temporal_ok_instant_cong)
  let ?idx = "build_index (map geom fs)"
  have q: "j < length fs" if "j \<in> set (query ?idx b)" for j b
    using that by (simp add: query_build_index candidates_def)
  have "edges_from p fs' ?idx i = edges_from p fs ?idx i" if "i < length fs" for i
    using gi [OF that] nb [OF that] q
    by (auto simp: edges_from_def split: option.splits intro!: arg_cong [where f = concat] map_cong)
  then show ?thesis
    by (auto simp: build_edges_def Let_def g n intro!: arg_cong [where f = concat] map_cong)
qed

section \<open>The work of the builder\<close>

lemma edges_from_build_index:
  "edges_from p fs (build_index (map geom fs)) i =
     (case bbox (geom (fs ! i)) of
        None \<Rightarrow> []
      | Some b \<Rightarrow> map (Pair i) (filter (\<lambda>j. i < j \<and> neighbor p fs i j) (query (build_index (map geom fs)) b)))"
  by (simp add: edges_from_def pairs_filter split: option.splits)

lemma distinct_edges_from: "distinct (edges_from p fs (build_index (map geom fs)) i)"
  by (simp add: edges_from_build_index distinct_map query_distinct inj_on_def split: option.splits)

lemma length_edges_from:
  assumes "i < length fs"
  shows "length (edges_from p fs (build_index (map geom fs)) i) \<le> length fs - Suc i"
proof -
  let ?es = "edges_from p fs (build_index (map geom fs)) i"
  have "set ?es \<subseteq> Pair i ` {Suc i..<length fs}"
    using set_edges_from [OF assms] by auto
  then have "card (set ?es) \<le> card (Pair i ` {Suc i..<length fs})"
    by (rule card_mono [rotated]) simp
  also have "\<dots> = length fs - Suc i" by (simp add: card_image inj_on_def)
  finally show ?thesis by (simp add: distinct_card distinct_edges_from)
qed

text \<open>Each undirected pair is recorded once (section 4.4), so the builder emits at most
  \<open>n (n - 1) / 2\<close> edges, the bound section 5 has for dense inputs.\<close>

lemma build_edges_bound:
  "distinct (build_edges p fs) \<and> length (build_edges p fs) \<le> length fs * (length fs - 1) div 2"
proof
  let ?f = "edges_from p fs (build_index (map geom fs))"
  show "distinct (build_edges p fs)"
    unfolding build_edges_def Let_def
    by (rule distinct_concat_upt [where g = fst]) (auto simp: distinct_edges_from set_edges_from)
  have "length (build_edges p fs) = (\<Sum>i = 0..<length fs. length (?f i))"
    by (simp add: build_edges_def length_concat sum_list_sum_nth)
  also have "\<dots> \<le> (\<Sum>i = 0..<length fs. length fs - Suc i)"
    by (rule sum_mono) (simp add: length_edges_from)
  also have "\<dots> = (\<Sum>i = 0..<length fs. i)"
    by (subst sum.atLeastLessThan_rev) simp
  also have "\<dots> = length fs * (length fs - 1) div 2"
    by (simp add: Sum_Ico_nat)
  finally show "length (build_edges p fs) \<le> length fs * (length fs - 1) div 2" .
qed

end
