(* ===== verification/Labeler.thy ===== *)
theory Labeler
  imports Prelude
begin

text \<open>
  The Cluster Labeler (spec, section 4.5), modelled from the spec. Every feature starts
  \<open>Unvisited\<close>. Features are taken in input order; an \<open>Unvisited\<close> one seeds a
  breadth-first traversal of the neighbour graph that marks the members of its connected
  component \<open>Visited\<close> and collects them; the whole component is then \<open>Labeled\<close>
  with the next cluster id if it has at least \<open>min_cluster_size\<close> members and with
  \<open>-1\<close> otherwise. A relation with an edge naming an unknown feature is rejected.
\<close>

datatype label = Unvisited | Visited | Labeled cid

section \<open>Adjacency\<close>

definition add_edge :: "edge \<Rightarrow> fid list list \<Rightarrow> fid list list" where
  "add_edge e adj = (case e of (i, j) \<Rightarrow> adj[i := j # adj ! i, j := i # adj ! j])"

definition adjacency :: "nat \<Rightarrow> edge list \<Rightarrow> fid list list" where
  "adjacency n es = fold add_edge es (replicate n [])"

section \<open>Breadth-first traversal\<close>

text \<open>Visiting a neighbour: an \<open>Unvisited\<close> one is marked and queued.\<close>

definition visit :: "fid \<Rightarrow> fid list \<times> label list \<Rightarrow> fid list \<times> label list" where
  "visit y st = (case st of (q, ls) \<Rightarrow>
     if y < length ls \<and> ls ! y = Unvisited then (q @ [y], ls[y := Visited]) else (q, ls))"

text \<open>The traversal: pop the head of the queue, visit its neighbours, append it to the
  component. The number of \<open>Unvisited\<close> labels (counted twice) plus the length of the
  queue decreases with every pop, so the traversal terminates.\<close>

function bfs :: "fid list list \<Rightarrow> fid list \<Rightarrow> label list \<Rightarrow> fid list \<Rightarrow> label list \<times> fid list" where
  "bfs adj [] ls members = (ls, members)"
| "bfs adj (x # q) ls members =
     (case fold visit (adj ! x) (q, ls) of (q', ls') \<Rightarrow> bfs adj q' ls' (members @ [x]))"
  by pat_completeness auto
termination
proof (relation "measure (\<lambda>(adj, q, ls, members). 2 * count_list ls Unvisited + length q)",
       goal_cases)
  case 1
  show ?case by simp
next
  case (2 adj x q ls members q' ls')
  have meas: "fold visit ys (q0, l0) = (q1, l1) \<Longrightarrow>
     2 * count_list l1 Unvisited + length q1 \<le> 2 * count_list l0 Unvisited + length q0"
    for ys q0 l0 q1 l1
  proof (induction ys arbitrary: q0 l0)
    case Nil
    then show ?case by simp
  next
    case (Cons y ys)
    show ?case
    proof (cases "y < length l0 \<and> l0 ! y = Unvisited")
      case True
      then have "Suc (count_list (l0[y := Visited]) Unvisited) = count_list l0 Unvisited"
        by (intro count_list_update_hit) auto
      moreover from Cons.prems True have "fold visit ys (q0 @ [y], l0[y := Visited]) = (q1, l1)"
        by (simp add: visit_def [of y])
      ultimately show ?thesis using Cons.IH by fastforce
    next
      case False
      with Cons.prems have "fold visit ys (q0, l0) = (q1, l1)" by (simp add: visit_def [of y])
      with Cons.IH show ?thesis by blast
    qed
  qed
  from 2 have "fold visit (adj ! x) (q, ls) = (q', ls')" by simp
  from meas [OF this] show ?case by simp
qed

section \<open>Labelling\<close>

definition assign :: "label \<Rightarrow> fid list \<Rightarrow> label list \<Rightarrow> label list" where
  "assign l members ls = fold (\<lambda>j ls. ls[j := l]) members ls"

text \<open>One iteration of the loop over the features, with the labels and the next unused
  cluster id as its state.\<close>

definition label_step :: "fid list list \<Rightarrow> int \<Rightarrow> fid \<Rightarrow> label list \<times> cid \<Rightarrow> label list \<times> cid" where
  "label_step adj m i st = (case st of (ls, nxt) \<Rightarrow>
     if ls ! i = Unvisited then
       (case bfs adj [i] (ls[i := Visited]) [] of (ls1, members) \<Rightarrow>
          if m \<le> int (length members) then (assign (Labeled nxt) members ls1, nxt + 1)
          else (assign (Labeled (-1)) members ls1, nxt))
     else (ls, nxt))"

definition label_clusters :: "nat \<Rightarrow> int \<Rightarrow> edge list \<Rightarrow> error + label list" where
  "label_clusters n m es =
     (if \<not> edges_valid n es then Inl MalformedRelation
      else Inr (fst (fold (label_step (adjacency n es) m) [0..<n] (replicate n Unvisited, 0))))"

section \<open>The abstract specification\<close>

text \<open>Two features are linked when an edge joins them in either direction, connected
  when a chain of links joins them; the component of a feature is the set of features it
  is connected to.\<close>

definition linked :: "edge list \<Rightarrow> fid \<Rightarrow> fid \<Rightarrow> bool" where
  "linked es x y \<longleftrightarrow> (x, y) \<in> set es \<or> (y, x) \<in> set es"

abbreviation connected :: "edge list \<Rightarrow> fid \<Rightarrow> fid \<Rightarrow> bool" where
  "connected es \<equiv> (linked es)\<^sup>*\<^sup>*"

definition component :: "nat \<Rightarrow> edge list \<Rightarrow> fid \<Rightarrow> fid set" where
  "component n es i = {j. j < n \<and> connected es i j}"

section \<open>The traversal invariant\<close>

text \<open>The traversal invariant, for a run seeded at \<open>s\<close> from the labels \<open>ls0\<close>: the
  collected members and the queue are distinct features connected to \<open>s\<close>, exactly
  they are \<open>Visited\<close>, every other label is as in \<open>ls0\<close>, and every neighbour of a
  collected member is collected or queued.\<close>

definition bfs_inv ::
  "nat \<Rightarrow> edge list \<Rightarrow> fid \<Rightarrow> label list \<Rightarrow> fid list \<Rightarrow> label list \<Rightarrow> fid list \<Rightarrow> bool" where
  "bfs_inv n es s ls0 q ls mem \<longleftrightarrow>
     length ls = n \<and> distinct (mem @ q)
     \<and> (\<forall>j \<in> set mem \<union> set q. j < n \<and> connected es s j) \<and> s \<in> set mem \<union> set q
     \<and> (\<forall>j < n. ls ! j = (if j \<in> set mem \<union> set q then Visited else ls0 ! j))
     \<and> (\<forall>x \<in> set mem. \<forall>y. linked es x y \<longrightarrow> y \<in> set mem \<union> set q)"

text \<open>The context of a traversal: a well-formed relation, and starting labels with no
  \<open>Visited\<close> entry in which everything connected to the seed is \<open>Unvisited\<close>.\<close>

definition bfs_ctx :: "nat \<Rightarrow> edge list \<Rightarrow> fid \<Rightarrow> label list \<Rightarrow> bool" where
  "bfs_ctx n es s ls0 \<longleftrightarrow>
     edges_valid n es \<and> length ls0 = n \<and> (\<forall>j < n. ls0 ! j \<noteq> Visited)
     \<and> (\<forall>j < n. connected es s j \<longrightarrow> ls0 ! j = Unvisited)"

section \<open>Facts about adjacency, visits and assignment\<close>

lemma visit_Pair [simp]:
  "visit y (q, ls) =
     (if y < length ls \<and> ls ! y = Unvisited then (q @ [y], ls[y := Visited]) else (q, ls))"
  by (simp add: visit_def)

lemma length_add_edge [simp]: "length (add_edge e adj) = length adj"
  by (simp add: add_edge_def split: prod.splits)

lemma length_adjacency [simp]: "length (adjacency n es) = n"
proof -
  have "length (fold add_edge es adj) = length adj" for adj
    by (induction es arbitrary: adj) simp_all
  then show ?thesis by (simp add: adjacency_def)
qed

lemma set_add_edge_nth:
  assumes "i < length adj" "j < length adj"
  shows "set (add_edge (i, j) adj ! x) =
           set (adj ! x) \<union> {y. (x, y) = (i, j) \<or> (y, x) = (i, j)}"
  using assms by (auto simp: add_edge_def nth_list_update)

lemma set_fold_add_edge:
  "edges_valid (length adj) es \<Longrightarrow> x < length adj \<Longrightarrow>
   set (fold add_edge es adj ! x) = set (adj ! x) \<union> {y. (x, y) \<in> set es \<or> (y, x) \<in> set es}"
proof (induction es arbitrary: adj)
  case Nil
  then show ?case by simp
next
  case (Cons e es)
  obtain i j where e: "e = (i, j)" by (cases e)
  with Cons.prems have ij: "i < length adj" "j < length adj"
    by (auto simp: edges_valid_def)
  from Cons.prems have "edges_valid (length (add_edge e adj)) es"
    by (simp add: edges_valid_def)
  with Cons.IH [of "add_edge e adj"] Cons.prems e ij show ?case
    by (auto simp: set_add_edge_nth)
qed

lemma set_adjacency:
  "edges_valid n es \<Longrightarrow> x < n \<Longrightarrow> set (adjacency n es ! x) = {y. linked es x y}"
  using set_fold_add_edge [of "replicate n []" es x]
  by (simp add: adjacency_def linked_def)

lemma linked_sym: "linked es x y = linked es y x"
  by (auto simp: linked_def)

lemma connected_sym: "connected es x y \<Longrightarrow> connected es y x"
proof (induction rule: rtranclp_induct)
  case base
  then show ?case by simp
next
  case (step y z)
  then show ?case
    by (metis converse_rtranclp_into_rtranclp linked_sym)
qed

lemma connected_bound:
  "connected es i j \<Longrightarrow> edges_valid n es \<Longrightarrow> j = i \<or> j < n"
  by (induction rule: rtranclp_induct) (auto simp: edges_valid_def linked_def)

lemma finite_component [simp]: "finite (component n es i)"
  by (simp add: component_def)

text \<open>What a round of visits does: it appends to the queue the neighbours that were
  \<open>Unvisited\<close>, each once, in order, and marks exactly those.\<close>

lemma fold_visit:
  assumes "fold visit ys (q, ls) = (q', ls')"
  shows "length ls' = length ls \<and>
         (\<exists>new. q' = q @ new \<and> distinct new
            \<and> set new = {y \<in> set ys. y < length ls \<and> ls ! y = Unvisited}
            \<and> (\<forall>j < length ls. ls' ! j = (if j \<in> set new then Visited else ls ! j)))"
  using assms
proof (induction ys arbitrary: q ls)
  case Nil
  then show ?case by auto
next
  case (Cons y ys)
  show ?case
  proof (cases "y < length ls \<and> ls ! y = Unvisited")
    case True
    with Cons.prems have "fold visit ys (q @ [y], ls[y := Visited]) = (q', ls')" by simp
    from Cons.IH [OF this] obtain new where
      l: "length ls' = length ls" and q': "q' = q @ [y] @ new" and d: "distinct new"
      and s: "set new = {z \<in> set ys. z < length ls \<and> ls[y := Visited] ! z = Unvisited}"
      and n: "\<forall>j < length ls. ls' ! j = (if j \<in> set new then Visited
                                           else ls[y := Visited] ! j)"
      by auto
    from s have "y \<notin> set new" by auto
    with True s have "set (y # new) = {z \<in> set (y # ys). z < length ls \<and> ls ! z = Unvisited}"
      by (auto simp: nth_list_update)
    moreover from n have "\<forall>j < length ls. ls' ! j = (if j \<in> set (y # new) then Visited else ls ! j)"
      by (auto simp: nth_list_update)
    moreover from d \<open>y \<notin> set new\<close> have "distinct (y # new)" by simp
    ultimately show ?thesis using l q' by (metis append_Cons append_Nil append_assoc)
  next
    case False
    with Cons.prems have "fold visit ys (q, ls) = (q', ls')" by auto
    from Cons.IH [OF this] False show ?thesis by auto
  qed
qed

lemma nth_assign:
  "j < length ls \<Longrightarrow> assign l xs ls ! j = (if j \<in> set xs then l else ls ! j)"
proof (induction xs arbitrary: ls)
  case Nil
  then show ?case by (simp add: assign_def)
next
  case (Cons x xs)
  then show ?case by (simp add: assign_def nth_list_update)
qed

lemma length_assign [simp]: "length (assign l xs ls) = length ls"
  by (induction xs arbitrary: ls) (simp_all add: assign_def)

section \<open>Correctness of the traversal\<close>

lemma bfs_inv_start:
  "bfs_ctx n es s ls0 \<Longrightarrow> s < n \<Longrightarrow> bfs_inv n es s ls0 [s] (ls0[s := Visited]) []"
  by (auto simp: bfs_inv_def bfs_ctx_def nth_list_update)

lemma bfs_inv_step:
  assumes ctx: "bfs_ctx n es s ls0"
    and inv: "bfs_inv n es s ls0 (x # q) ls mem"
    and fv: "fold visit (adjacency n es ! x) (q, ls) = (q', ls')"
  shows "bfs_inv n es s ls0 q' ls' (mem @ [x])"
proof -
  from ctx have valid: "edges_valid n es" by (simp add: bfs_ctx_def)
  from inv have len: "length ls = n" and x: "x < n" "connected es s x"
    by (auto simp: bfs_inv_def)
  from fold_visit [OF fv] obtain new where l: "length ls' = length ls" and q': "q' = q @ new"
    and dn: "distinct new"
    and sn: "set new = {y \<in> set (adjacency n es ! x). y < length ls \<and> ls ! y = Unvisited}"
    and nth: "\<forall>j < length ls. ls' ! j = (if j \<in> set new then Visited else ls ! j)"
    by blast
  have sn': "set new = {y. linked es x y \<and> y < n \<and> ls ! y = Unvisited}"
    using sn set_adjacency [OF valid x(1)] len by auto
  from inv have vis: "\<forall>j \<in> set mem \<union> set (x # q). j < n \<and> ls ! j = Visited"
    by (auto simp: bfs_inv_def)
  then have fresh: "\<forall>y \<in> set new. y \<notin> set mem \<union> set (x # q)"
    using sn' by fastforce
  have d: "distinct ((mem @ [x]) @ q')"
    using inv dn fresh q' by (auto simp: bfs_inv_def)
  have r: "\<forall>j \<in> set (mem @ [x]) \<union> set q'. j < n \<and> connected es s j"
    using inv sn' x q' by (auto simp: bfs_inv_def intro: rtranclp.rtrancl_into_rtrancl)
  have sm: "s \<in> set (mem @ [x]) \<union> set q'"
    using inv q' by (auto simp: bfs_inv_def)
  have ln: "\<forall>j < n. ls' ! j = (if j \<in> set (mem @ [x]) \<union> set q' then Visited else ls0 ! j)"
    using inv nth len q' by (auto simp: bfs_inv_def)
  have cl: "\<forall>z \<in> set (mem @ [x]). \<forall>y. linked es z y \<longrightarrow> y \<in> set (mem @ [x]) \<union> set q'"
  proof (intro ballI allI impI)
    fix z y assume z: "z \<in> set (mem @ [x])" and zy: "linked es z y"
    show "y \<in> set (mem @ [x]) \<union> set q'"
    proof (cases "z = x")
      case False
      with z zy inv q' show ?thesis by (auto simp: bfs_inv_def)
    next
      case True
      from zy True valid have yn: "y < n" by (auto simp: linked_def edges_valid_def)
      from x(2) zy True have sy: "connected es s y"
        by (auto intro: rtranclp.rtrancl_into_rtrancl)
      show ?thesis
      proof (cases "ls ! y = Unvisited")
        case True
        with yn zy \<open>z = x\<close> sn' q' show ?thesis by auto
      next
        case False
        with ctx sy yn have "ls ! y \<noteq> ls0 ! y" by (simp add: bfs_ctx_def)
        with inv yn have "y \<in> set mem \<union> set (x # q)" by (auto simp: bfs_inv_def split: if_splits)
        with q' show ?thesis by auto
      qed
    qed
  qed
  from l len d r sm ln cl show ?thesis by (simp add: bfs_inv_def)
qed

lemma bfs_inv_result:
  "bfs_ctx n es s ls0 \<Longrightarrow> bfs_inv n es s ls0 q ls mem \<Longrightarrow>
   bfs (adjacency n es) q ls mem = (ls1, mem1) \<Longrightarrow> bfs_inv n es s ls0 [] ls1 mem1"
proof (induction "adjacency n es" q ls mem rule: bfs.induct)
  case (1 ls mem)
  then show ?case by simp
next
  case (2 x q ls mem)
  obtain q' ls' where fv: "fold visit (adjacency n es ! x) (q, ls) = (q', ls')"
    by (cases "fold visit (adjacency n es ! x) (q, ls)")
  from bfs_inv_step [OF "2.prems"(1,2) fv] have "bfs_inv n es s ls0 q' ls' (mem @ [x])" .
  moreover from "2.prems"(3) fv have "bfs (adjacency n es) q' ls' (mem @ [x]) = (ls1, mem1)"
    by simp
  ultimately show ?case using "2.hyps" [OF fv [symmetric] "2.prems"(1)] by blast
qed

text \<open>When the queue is empty the members are exactly the features connected to the
  seed: the traversal finds the whole connected component and nothing else.\<close>

lemma bfs_inv_final:
  assumes "bfs_inv n es s ls0 [] ls mem"
  shows "set mem = {j. connected es s j}"
proof
  show "set mem \<subseteq> {j. connected es s j}"
    using assms by (auto simp: bfs_inv_def)
next
  show "{j. connected es s j} \<subseteq> set mem"
  proof
    fix j assume "j \<in> {j. connected es s j}"
    then have "connected es s j" by simp
    then show "j \<in> set mem"
    proof (induction rule: rtranclp_induct)
      case base
      with assms show ?case by (simp add: bfs_inv_def)
    next
      case (step y z)
      with assms show ?case by (auto simp: bfs_inv_def)
    qed
  qed
qed

text \<open>A traversal seeded at \<open>s\<close> collects the component of \<open>s\<close>, each member once, and
  marks exactly the component \<open>Visited\<close>.\<close>

lemma bfs_seed:
  assumes ctx: "bfs_ctx n es s ls0" and s: "s < n"
    and r: "bfs (adjacency n es) [s] (ls0[s := Visited]) [] = (ls1, mem)"
  shows "set mem = component n es s \<and> distinct mem \<and> length ls1 = n
         \<and> (\<forall>j < n. ls1 ! j = (if j \<in> component n es s then Visited else ls0 ! j))"
proof -
  have inv: "bfs_inv n es s ls0 [] ls1 mem"
    by (rule bfs_inv_result [OF ctx bfs_inv_start [OF ctx s] r])
  then have bound: "\<forall>j \<in> set mem. j < n" by (simp add: bfs_inv_def)
  from bfs_inv_final [OF inv] bound have "set mem = component n es s"
    by (auto simp: component_def)
  with inv show ?thesis by (simp add: bfs_inv_def)
qed

end
