(* ===== verification/Labeler_Spec.thy ===== *)
theory Labeler_Spec
  imports Labeler
begin

text \<open>
  What the Cluster Labeler promises (spec, sections 3, 4.5 and 8), as a function of the
  neighbour relation alone, and the refinement theorem that the labelling loop computes
  it. A feature is a seed when no smaller feature is connected to it (it is the feature
  from which the loop discovers its component); a component is large when it has at
  least \<open>min_cluster_size\<close> members. A member of a small component is noise (\<open>-1\<close>);
  a member of a large one gets the number of large components whose seed comes before
  its own: ids are dense from 0 and issued in discovery order.
\<close>

definition is_seed :: "nat \<Rightarrow> edge list \<Rightarrow> fid \<Rightarrow> bool" where
  "is_seed n es s \<longleftrightarrow> s < n \<and> (\<forall>k < s. \<not> connected es k s)"

definition large :: "nat \<Rightarrow> edge list \<Rightarrow> int \<Rightarrow> fid \<Rightarrow> bool" where
  "large n es m j \<longleftrightarrow> m \<le> int (card (component n es j))"

definition seed_of :: "nat \<Rightarrow> edge list \<Rightarrow> fid \<Rightarrow> fid" where
  "seed_of n es j = Min (component n es j)"

definition spec_label :: "nat \<Rightarrow> edge list \<Rightarrow> int \<Rightarrow> fid \<Rightarrow> label" where
  "spec_label n es m j =
     (if large n es m j
      then Labeled (int (card {s. s < seed_of n es j \<and> is_seed n es s \<and> large n es m s}))
      else Labeled (-1))"

text \<open>The seeds of the large components: the features from which the loop issues an
  id.\<close>

definition large_seeds :: "nat \<Rightarrow> edge list \<Rightarrow> int \<Rightarrow> fid set" where
  "large_seeds n es m = {s. is_seed n es s \<and> large n es m s}"

text \<open>After the features below \<open>i\<close> have been taken: a feature is labelled as the
  specification says when its component has a member below \<open>i\<close>, and is still
  \<open>Unvisited\<close> otherwise; the next id counts the large components seeded below \<open>i\<close>.\<close>

definition label_inv :: "nat \<Rightarrow> edge list \<Rightarrow> int \<Rightarrow> nat \<Rightarrow> label list \<times> cid \<Rightarrow> bool" where
  "label_inv n es m i st \<longleftrightarrow>
     length (fst st) = n
     \<and> (\<forall>j < n. fst st ! j =
          (if \<exists>k < i. connected es k j then spec_label n es m j else Unvisited))
     \<and> snd st = int (card {s. s < i \<and> is_seed n es s \<and> large n es m s})"

text \<open>The value the labels give the \<open>cluster_id\<close> column.\<close>

fun label_id :: "label \<Rightarrow> cid" where
  "label_id (Labeled k) = k"
| "label_id _ = -1"

definition spec_cid :: "nat \<Rightarrow> edge list \<Rightarrow> int \<Rightarrow> fid \<Rightarrow> cid" where
  "spec_cid n es m j = label_id (spec_label n es m j)"

section \<open>Components\<close>

lemma connected_trans: "connected es i j \<Longrightarrow> connected es j k \<Longrightarrow> connected es i k"
  by (rule rtranclp_trans)

lemma component_eq:
  "connected es i j \<Longrightarrow> component n es j = component n es i"
  by (auto simp: component_def intro: connected_trans connected_sym)

lemma seed_of_seed:
  assumes "is_seed n es i"
  shows "seed_of n es i = i"
proof -
  from assms have i: "i \<in> component n es i" by (simp add: is_seed_def component_def)
  moreover have "\<forall>k \<in> component n es i. i \<le> k"
  proof
    fix k assume "k \<in> component n es i"
    then have "connected es k i" by (simp add: component_def connected_sym)
    with assms show "i \<le> k" by (meson is_seed_def not_le)
  qed
  ultimately show ?thesis
    unfolding seed_of_def by (intro Min_eqI) auto
qed

text \<open>A feature without neighbours is a component of its own.\<close>

lemma component_isolated:
  assumes "j < n" and "\<forall>k. \<not> linked es j k"
  shows "component n es j = {j}"
proof -
  have "k = j" if "connected es j k" for k
    using that by (rule converse_rtranclpE) (use assms(2) in auto)
  with assms(1) show ?thesis by (auto simp: component_def)
qed

lemma spec_label_Labeled: "\<exists>k. spec_label n es m j = Labeled k"
  by (simp add: spec_label_def)

section \<open>The loop invariant\<close>

lemma label_inv_start: "label_inv n es m 0 (replicate n Unvisited, 0)"
  by (simp add: label_inv_def)

lemma seeds_Suc:
  "{s. s < Suc i \<and> P s} = (if P i then insert i {s. s < i \<and> P s} else {s. s < i \<and> P s})"
  by (auto simp: less_Suc_eq)

lemma label_inv_no_Visited:
  "label_inv n es m i (ls, nxt) \<Longrightarrow> j < n \<Longrightarrow> ls ! j \<noteq> Visited"
  using spec_label_Labeled [of n es m j] by (auto simp: label_inv_def)

text \<open>A feature whose component was discovered earlier is skipped.\<close>

lemma label_inv_skip:
  assumes inv: "label_inv n es m i (ls, nxt)" and i: "i < n"
    and k: "k < i" "connected es k i"
  shows "label_inv n es m (Suc i) (label_step adj m i (ls, nxt))"
proof -
  from inv i k have "ls ! i = spec_label n es m i" by (auto simp: label_inv_def)
  then have "ls ! i \<noteq> Unvisited" using spec_label_Labeled [of n es m i] by auto
  then have step: "label_step adj m i (ls, nxt) = (ls, nxt)" by (simp add: label_step_def)
  have reach: "(\<exists>k' < Suc i. connected es k' j) \<longleftrightarrow> (\<exists>k' < i. connected es k' j)" for j
    using k by (auto simp: less_Suc_eq intro: connected_trans)
  have "\<not> is_seed n es i" using k by (auto simp: is_seed_def)
  with inv have "label_inv n es m (Suc i) (ls, nxt)"
    by (simp add: label_inv_def reach seeds_Suc)
  with step show ?thesis by simp
qed

text \<open>A feature that no earlier feature reaches seeds a new component: the traversal
  collects it and the whole component is labelled as the specification says.\<close>

lemma label_inv_seed:
  assumes valid: "edges_valid n es" and inv: "label_inv n es m i (ls, nxt)" and i: "i < n"
    and new: "\<not> (\<exists>k < i. connected es k i)"
  shows "label_inv n es m (Suc i) (label_step (adjacency n es) m i (ls, nxt))"
proof -
  from inv i new have U: "ls ! i = Unvisited" by (auto simp: label_inv_def)
  from i new have seed: "is_seed n es i" by (simp add: is_seed_def)
  have ctx: "bfs_ctx n es i ls"
  proof -
    have "ls ! j = Unvisited" if "j < n" "connected es i j" for j
    proof -
      have "\<not> (\<exists>k < i. connected es k j)"
        using new that(2) by (blast intro: connected_trans connected_sym)
      with inv that(1) show ?thesis by (auto simp: label_inv_def)
    qed
    moreover have "\<forall>j < n. ls ! j \<noteq> Visited"
      using label_inv_no_Visited [OF inv] by blast
    moreover have "length ls = n" using inv by (simp add: label_inv_def)
    ultimately show ?thesis using valid by (simp add: bfs_ctx_def)
  qed
  obtain ls1 mem where r: "bfs (adjacency n es) [i] (ls[i := Visited]) [] = (ls1, mem)"
    by (cases "bfs (adjacency n es) [i] (ls[i := Visited]) []")
  from bfs_seed [OF ctx i r] have sm: "set mem = component n es i" and dm: "distinct mem"
    and l1: "length ls1 = n"
    and n1: "\<forall>j < n. ls1 ! j = (if j \<in> component n es i then Visited else ls ! j)"
    by auto
  have lm: "length mem = card (component n es i)"
    using sm dm distinct_card by fastforce
  define c where "c = (if large n es m i then nxt else -1)"
  have step: "label_step (adjacency n es) m i (ls, nxt) =
                (assign (Labeled c) mem ls1, if large n es m i then nxt + 1 else nxt)"
    using U r lm by (simp add: label_step_def c_def large_def)
  have ls2: "assign (Labeled c) mem ls1 ! j = (if j \<in> component n es i then Labeled c else ls ! j)"
    if "j < n" for j
    using that l1 n1 sm by (simp add: nth_assign)
  have comp: "spec_label n es m j = Labeled c" if "j \<in> component n es i" for j
  proof -
    from that have ij: "connected es i j" by (simp add: component_def)
    then have "component n es j = component n es i" by (rule component_eq)
    moreover have "seed_of n es i = i" by (rule seed_of_seed [OF seed])
    ultimately show ?thesis
      using inv by (simp add: spec_label_def c_def large_def seed_of_def label_inv_def)
  qed
  have reach: "(\<exists>k < Suc i. connected es k j) \<longleftrightarrow>
                 (j \<in> component n es i \<or> (\<exists>k < i. connected es k j))" if "j < n" for j
    using that by (auto simp: component_def less_Suc_eq)
  have labels: "\<forall>j < n. assign (Labeled c) mem ls1 ! j =
       (if \<exists>k < Suc i. connected es k j then spec_label n es m j else Unvisited)"
    using inv ls2 comp reach by (auto simp: label_inv_def)
  have count: "(if large n es m i then nxt + 1 else nxt)
                 = int (card {s. s < Suc i \<and> is_seed n es s \<and> large n es m s})"
    using inv seed by (simp add: seeds_Suc label_inv_def)
  from l1 labels count show ?thesis
    by (simp add: step label_inv_def)
qed

lemma label_inv_step:
  "edges_valid n es \<Longrightarrow> label_inv n es m i st \<Longrightarrow> i < n \<Longrightarrow>
   label_inv n es m (Suc i) (label_step (adjacency n es) m i st)"
  by (cases st) (metis label_inv_seed label_inv_skip)

lemma label_inv_fold:
  "edges_valid n es \<Longrightarrow> i \<le> n \<Longrightarrow>
   label_inv n es m i (fold (label_step (adjacency n es) m) [0..<i] (replicate n Unvisited, 0))"
proof (induction i)
  case 0
  then show ?case by (simp add: label_inv_start)
next
  case (Suc i)
  then show ?case by (simp add: label_inv_step)
qed

section \<open>Refinement\<close>

text \<open>The labeller computes the specification: on a well-formed relation it returns, for
  every feature, the label \<open>spec_label\<close> gives it; on a relation with an edge to an
  unknown feature it fails with \<open>MalformedRelation\<close>.\<close>

theorem label_clusters_spec:
  "label_clusters n m es =
     (if edges_valid n es then Inr (map (spec_label n es m) [0..<n]) else Inl MalformedRelation)"
proof (cases "edges_valid n es")
  case True
  let ?st = "fold (label_step (adjacency n es) m) [0..<n] (replicate n Unvisited, 0)"
  from label_inv_fold [OF True order_refl] have inv: "label_inv n es m n ?st" .
  have "\<exists>k < n. connected es k j" if "j < n" for j
    using that by blast
  with inv have "\<forall>j < n. fst ?st ! j = spec_label n es m j"
    by (simp add: label_inv_def)
  moreover from inv have "length (fst ?st) = n" by (simp add: label_inv_def)
  ultimately have "fst ?st = map (spec_label n es m) [0..<n]"
    by (simp add: nth_equalityI)
  with True show ?thesis by (simp add: label_clusters_def)
next
  case False
  then show ?thesis by (simp add: label_clusters_def)
qed

section \<open>Consequences of the specification\<close>

lemma label_id_comp_spec: "label_id \<circ> spec_label n es m = spec_cid n es m"
  by (simp add: fun_eq_iff spec_cid_def)

lemma spec_cid_eq:
  "spec_cid n es m j =
     (if large n es m j
      then int (card {s. s < seed_of n es j \<and> is_seed n es s \<and> large n es m s}) else -1)"
  by (simp add: spec_cid_def spec_label_def)

lemma seed_of_in: "j < n \<Longrightarrow> seed_of n es j \<in> component n es j"
  unfolding seed_of_def by (rule Min_in) (auto simp: component_def)

lemma seed_of_is_seed:
  assumes "j < n"
  shows "is_seed n es (seed_of n es j)"
proof -
  let ?s = "seed_of n es j"
  from seed_of_in [OF assms] have s: "?s < n" "connected es j ?s"
    by (auto simp: component_def)
  have "\<not> connected es k ?s" if "k < ?s" for k
  proof
    assume "connected es k ?s"
    with s(2) have "k \<in> component n es j"
      using that s(1) by (auto simp: component_def intro: connected_trans connected_sym)
    then have "?s \<le> k" unfolding seed_of_def by simp
    with that show False by simp
  qed
  with s show ?thesis by (simp add: is_seed_def)
qed

lemma seed_of_connected: "j < n \<Longrightarrow> connected es j (seed_of n es j)"
  using seed_of_in by (simp add: component_def)

lemma large_seed_of: "j < n \<Longrightarrow> large n es m (seed_of n es j) = large n es m j"
  using component_eq [OF seed_of_connected] by (simp add: large_def)

lemma seed_of_eq: "connected es i j \<Longrightarrow> seed_of n es j = seed_of n es i"
  by (simp add: seed_of_def component_eq)

lemma card_seeds_less:
  assumes "a < b" "is_seed n es a" "large n es m a"
  shows "card {s. s < a \<and> is_seed n es s \<and> large n es m s}
           < card {s. s < b \<and> is_seed n es s \<and> large n es m s}"
  using assms by (intro psubset_card_mono) auto

text \<open>Noise is exactly membership of a component smaller than the minimum size; ids of
  clusters are never negative.\<close>

lemma spec_cid_noise: "spec_cid n es m j = -1 \<longleftrightarrow> \<not> large n es m j"
  by (simp add: spec_cid_eq)

text \<open>A feature without a neighbour is noise exactly when the minimum size exceeds 1.\<close>

lemma spec_cid_isolated:
  assumes "j < n" and "\<forall>k. \<not> linked es j k"
  shows "spec_cid n es m j = -1 \<longleftrightarrow> 1 < m"
  using component_isolated [OF assms] by (simp add: spec_cid_noise large_def not_le)

lemma spec_cid_nonneg: "large n es m j \<Longrightarrow> 0 \<le> spec_cid n es m j"
  by (simp add: spec_cid_eq)

text \<open>Two clustered features share an id exactly when they are connected.\<close>

lemma spec_cid_same:
  assumes "j < n" "k < n" "large n es m j" "large n es m k"
  shows "spec_cid n es m j = spec_cid n es m k \<longleftrightarrow> connected es j k"
proof
  assume "connected es j k"
  then have "seed_of n es k = seed_of n es j" by (rule seed_of_eq)
  then show "spec_cid n es m j = spec_cid n es m k"
    using assms(3,4) by (simp add: spec_cid_eq)
next
  assume eq: "spec_cid n es m j = spec_cid n es m k"
  let ?a = "seed_of n es j" and ?b = "seed_of n es k"
  have a: "is_seed n es ?a" "large n es m ?a" and b: "is_seed n es ?b" "large n es m ?b"
    using assms seed_of_is_seed large_seed_of by auto
  have "?a = ?b"
  proof (rule ccontr)
    assume "?a \<noteq> ?b"
    then consider "?a < ?b" | "?b < ?a" by linarith
    then show False
    proof cases
      case 1
      from card_seeds_less [OF 1 a] eq assms(3,4) show False by (simp add: spec_cid_eq)
    next
      case 2
      from card_seeds_less [OF 2 b] eq assms(3,4) show False by (simp add: spec_cid_eq)
    qed
  qed
  then show "connected es j k"
    using seed_of_connected [OF assms(1)] seed_of_connected [OF assms(2)]
    by (metis connected_sym connected_trans)
qed

text \<open>The id of a clustered feature is the rank of its component's seed among the
  seeds of the large components.\<close>

lemma finite_large_seeds: "finite (large_seeds n es m)"
  by (rule finite_subset [of _ "{..<n}"]) (auto simp: large_seeds_def is_seed_def)

lemma spec_cid_rank:
  "large n es m j \<Longrightarrow> spec_cid n es m j = int (rank (large_seeds n es m) (seed_of n es j))"
  by (simp add: spec_cid_eq rank_def large_seeds_def conj_ac)

lemma seed_of_large_seeds:
  "j < n \<Longrightarrow> large n es m j \<Longrightarrow> seed_of n es j \<in> large_seeds n es m"
  by (simp add: large_seeds_def seed_of_is_seed large_seed_of)

lemma seed_of_image: "seed_of n es ` {j. j < n \<and> large n es m j} = large_seeds n es m"
proof
  show "seed_of n es ` {j. j < n \<and> large n es m j} \<subseteq> large_seeds n es m"
    using seed_of_large_seeds by blast
  show "large_seeds n es m \<subseteq> seed_of n es ` {j. j < n \<and> large n es m j}"
  proof
    fix s assume s: "s \<in> large_seeds n es m"
    then have "seed_of n es s = s" "s < n" "large n es m s"
      by (auto simp: large_seeds_def seed_of_seed is_seed_def)
    then show "s \<in> seed_of n es ` {j. j < n \<and> large n es m j}" by (metis (mono_tags) image_eqI mem_Collect_eq)
  qed
qed

text \<open>Ids are dense: the clustered features carry exactly the ids \<open>0\<close> to \<open>K - 1\<close>,
  where \<open>K\<close> is the number of large components.\<close>

lemma spec_cid_dense:
  "spec_cid n es m ` {j. j < n \<and> large n es m j} = int ` {0..<card (large_seeds n es m)}"
proof -
  have "spec_cid n es m ` {j. j < n \<and> large n es m j}
        = (int \<circ> rank (large_seeds n es m)) ` seed_of n es ` {j. j < n \<and> large n es m j}"
    by (auto simp: spec_cid_rank image_comp intro!: image_cong)
  also have "\<dots> = int ` rank (large_seeds n es m) ` large_seeds n es m"
    by (simp add: seed_of_image image_comp)
  also have "\<dots> = int ` {0..<card (large_seeds n es m)}"
    by (simp add: rank_image finite_large_seeds)
  finally show ?thesis .
qed

text \<open>Ids are issued in discovery order: of two clustered features, the one whose
  component is seeded first has the smaller id.\<close>

lemma spec_cid_order:
  assumes "j < n" "k < n" "large n es m j" "large n es m k"
  shows "spec_cid n es m j < spec_cid n es m k \<longleftrightarrow> seed_of n es j < seed_of n es k"
  using assms by (simp add: spec_cid_rank rank_less_iff finite_large_seeds seed_of_large_seeds)

text \<open>Large components are disjoint and each has at least \<open>m\<close> members, so there are at
  most \<open>n / m\<close> of them.\<close>

lemma component_disjoint:
  assumes "s1 \<in> large_seeds n es m" "s2 \<in> large_seeds n es m" "s1 \<noteq> s2"
  shows "component n es s1 \<inter> component n es s2 = {}"
proof (rule ccontr)
  assume "component n es s1 \<inter> component n es s2 \<noteq> {}"
  then obtain k where "connected es s1 k" "connected es s2 k" by (auto simp: component_def)
  then have "connected es s1 s2" by (metis connected_sym connected_trans)
  then have "seed_of n es s2 = seed_of n es s1" by (rule seed_of_eq)
  with assms show False by (simp add: large_seeds_def seed_of_seed)
qed

lemma card_large_seeds_bound:
  assumes "0 \<le> m"
  shows "int (card (large_seeds n es m)) * m \<le> int n"
proof -
  let ?S = "large_seeds n es m" and ?C = "component n es"
  have fin: "finite ?S" by (rule finite_large_seeds)
  have "int (card ?S) * m = (\<Sum>s\<in>?S. m)" by simp
  also have "\<dots> \<le> (\<Sum>s\<in>?S. int (card (?C s)))"
    by (rule sum_mono) (simp add: large_seeds_def large_def)
  also have "\<dots> = int (\<Sum>s\<in>?S. card (?C s))" by simp
  also have "(\<Sum>s\<in>?S. card (?C s)) = card (\<Union>s\<in>?S. ?C s)"
    using fin by (intro card_UN_disjoint [symmetric]) (auto simp: finite_component component_disjoint)
  also have "card (\<Union>s\<in>?S. ?C s) \<le> card {..<n}"
    by (intro card_mono) (auto simp: component_def)
  finally show ?thesis by simp
qed

text \<open>Every id is \<open>-1\<close> or one of the first \<open>n / m\<close> numbers.\<close>

lemma spec_cid_bound:
  assumes "j < n" and "0 \<le> m"
  shows "-1 \<le> spec_cid n es m j \<and> (spec_cid n es m j + 1) * m \<le> int n"
proof (cases "large n es m j")
  case True
  have "seed_of n es j \<in> large_seeds n es m" by (rule seed_of_large_seeds [OF assms(1) True])
  then have "rank (large_seeds n es m) (seed_of n es j) < card (large_seeds n es m)"
    using rank_image [OF finite_large_seeds, of n es m] by (metis atLeastLessThan_iff image_eqI)
  then have "spec_cid n es m j + 1 \<le> int (card (large_seeds n es m))"
    using spec_cid_rank [OF True] by simp
  then have "(spec_cid n es m j + 1) * m \<le> int (card (large_seeds n es m)) * m"
    using assms(2) by (rule mult_right_mono)
  then have "(spec_cid n es m j + 1) * m \<le> int n"
    using card_large_seeds_bound [OF assms(2), of n es] by (rule order_trans)
  moreover have "0 \<le> spec_cid n es m j" by (rule spec_cid_nonneg [OF True])
  ultimately show ?thesis by simp
next
  case False
  then show ?thesis by (simp add: spec_cid_eq)
qed

end
