(* ===== verification/Engine.thy ===== *)
theory Engine
  imports Neighbor_Graph Labeler_Spec
begin

text \<open>
  The clustering engine's entry point, \<open>cluster_polygons\<close>, which \<open>src/app.py\<close>
  imports from \<open>st_polygoncluster.clustering\<close> (not in the repository; modelled from the
  spec, sections 2, 6 and 7). It takes a frame of polygon rows with named attributes, the
  name of the time column (or none), the time threshold in seconds, the minimum cluster
  size and the overlap threshold. Parameter errors are reported before anything else;
  an empty frame, a row without a geometry or with a degenerate one, or a time column the frame does not have
  is an input error. Otherwise the rows become features, the builder computes the
  neighbour edges with intersection over union, the labeller labels them, and the frame
  comes back with one more column, \<open>cluster_id\<close>, in the original row order.

  A row's geometry is optional, as in a GeoDataFrame read from GeoJSON: \<open>None\<close> is a
  row without a geometry (a \<open>null\<close> or empty geometry). A present polygon whose raster
  has no cell encloses no area: a degenerate ring, which is not a valid polygon (its ring
  has collinear points or crosses itself). Section 7(a) makes a feature with invalid or
  empty geometry an input error, and the model rejects both before any overlap is
  computed. The degenerate polygons of section 7(c) are such invalid geometries, so in
  the model no geometry warning arises after validation.

  The spec's engine receives timestamps already parsed (section 6) and lists no error for
  the time column. The app passes a column name instead. The model reads a row's timestamp
  from that column of its attributes. A row without a timestamp value there has no
  timestamp, so the temporal filter is off for it (section 2). A name that is not a
  column of the frame is an input error.
\<close>

record gfeature =
  geometry :: "polygon option"
  props :: "(string \<times> tstamp) list"

record gdf =
  columns :: "column list"
  rows :: "gfeature list"

record crow =
  row :: gfeature
  cluster_id :: cid

record cgdf =
  ccolumns :: "column list"
  crows :: "crow list"

text \<open>The polygon of a row; a row without a geometry never gets past the input check.\<close>

definition row_polygon :: "gfeature \<Rightarrow> polygon" where
  "row_polygon r = (case geometry r of None \<Rightarrow> [] | Some p \<Rightarrow> p)"

definition params_ok :: "seconds \<Rightarrow> int \<Rightarrow> rat \<Rightarrow> bool" where
  "params_ok tt m ov \<longleftrightarrow> 1 \<le> m \<and> 0 \<le> ov \<and> ov \<le> 1 \<and> 0 \<le> tt"

definition input_ok :: "gdf \<Rightarrow> string option \<Rightarrow> bool" where
  "input_ok g tk \<longleftrightarrow>
     rows g \<noteq> [] \<and> list_all (\<lambda>r. geometry r \<noteq> None \<and> geometry r \<noteq> Some []) (rows g)
     \<and> (case tk of None \<Rightarrow> True | Some k \<Rightarrow> k \<in> set (map fst (columns g)))"

definition features_of :: "gdf \<Rightarrow> string option \<Rightarrow> feature list" where
  "features_of g tk =
     map (\<lambda>r. \<lparr>geom = row_polygon r, ftime = (case tk of None \<Rightarrow> None | Some k \<Rightarrow> map_of (props r) k)\<rparr>)
       (rows g)"

definition engine_params :: "seconds \<Rightarrow> int \<Rightarrow> rat \<Rightarrow> params" where
  "engine_params tt m ov =
     \<lparr>time_threshold = tt, min_size = m, overlap_threshold = ov, mode = IoU\<rparr>"

definition engine_edges :: "gdf \<Rightarrow> string option \<Rightarrow> seconds \<Rightarrow> int \<Rightarrow> rat \<Rightarrow> edge list" where
  "engine_edges g tk tt m ov = build_edges (engine_params tt m ov) (features_of g tk)"

definition annotate :: "gdf \<Rightarrow> cid list \<Rightarrow> cgdf" where
  "annotate g ids =
     \<lparr>ccolumns = columns g @ [(''cluster_id'', CHR ''i'')],
      crows = map2 (\<lambda>r k. \<lparr>row = r, cluster_id = k\<rparr>) (rows g) ids\<rparr>"

definition cluster_polygons ::
  "gdf \<Rightarrow> string option \<Rightarrow> seconds \<Rightarrow> int \<Rightarrow> rat \<Rightarrow> error + cgdf" where
  "cluster_polygons g tk tt m ov =
     (if \<not> params_ok tt m ov then Inl ParameterError
      else if \<not> input_ok g tk then Inl InputError
      else case label_clusters (length (rows g)) m (engine_edges g tk tt m ov) of
             Inl e \<Rightarrow> Inl e
           | Inr ls \<Rightarrow> Inr (annotate g (map label_id ls)))"

section \<open>Properties\<close>

declare params_ok_def [eval_simps] cluster_polygons_def [eval_simps]

lemma length_features_of [simp]: "length (features_of g tk) = length (rows g)"
  by (simp add: features_of_def)

lemma engine_edges_valid: "edges_valid (length (rows g)) (engine_edges g tk tt m ov)"
  using build_edges_valid [of "features_of g tk"] by (simp add: engine_edges_def)

text \<open>Refinement of the whole engine: on valid parameters and input it returns the
  input rows, in order, each with the id the labeller's specification gives it over the
  builder's edges; otherwise the parameter error comes first, then the input error.\<close>

theorem cluster_polygons_spec:
  "cluster_polygons g tk tt m ov =
     (if \<not> params_ok tt m ov then Inl ParameterError
      else if \<not> input_ok g tk then Inl InputError
      else Inr (annotate g (map (spec_cid (length (rows g)) (engine_edges g tk tt m ov) m)
                                [0..<length (rows g)])))"
  using engine_edges_valid [of g tk tt m ov]
  by (simp add: cluster_polygons_def label_clusters_spec label_id_comp_spec)

lemma length_annotate [simp]: "length ids = length (rows g) \<Longrightarrow> length (crows (annotate g ids)) = length (rows g)"
  by (simp add: annotate_def)

lemma cluster_ids_annotate:
  "length ids = length (rows g) \<Longrightarrow> map cluster_id (crows (annotate g ids)) = ids"
  by (rule nth_equalityI) (simp_all add: annotate_def)

text \<open>Every id the engine writes is a cluster id or the noise marker.\<close>

lemma cluster_polygons_ids:
  "cluster_polygons g tk tt m ov = Inr c \<Longrightarrow> r \<in> set (crows c) \<Longrightarrow> -1 \<le> cluster_id r"
  by (auto simp: cluster_polygons_spec annotate_def spec_cid_eq set_zip split: if_splits)

text \<open>The engine reads a row's attributes only through the instants of its timestamps.\<close>

lemma engine_edges_cong:
  assumes "map geometry (rows g') = map geometry (rows g)"
    and "map (\<lambda>r. map (\<lambda>(k, t). (k, instant t)) (props r)) (rows g')
         = map (\<lambda>r. map (\<lambda>(k, t). (k, instant t)) (props r)) (rows g)"
  shows "engine_edges g' tk tt m ov = engine_edges g tk tt m ov"
proof -
  have f: "map (\<lambda>f. map_option instant (ftime f)) (features_of h tk)
           = map (\<lambda>ps. case tk of None \<Rightarrow> None | Some k \<Rightarrow> map_of ps k)
               (map (\<lambda>r. map (\<lambda>(k, t). (k, instant t)) (props r)) (rows h))" for h
    by (simp add: features_of_def map_of_map split: option.splits)
  have geo: "map geom (features_of h tk) = map (case_option [] id) (map geometry (rows h))" for h
    by (simp add: features_of_def row_polygon_def comp_def split: option.splits)
  have "map geom (features_of g' tk) = map geom (features_of g tk)"
    by (simp only: geo assms(1))
  moreover have "map (\<lambda>f. map_option instant (ftime f)) (features_of g' tk)
                 = map (\<lambda>f. map_option instant (ftime f)) (features_of g tk)"
    by (simp only: f assms(2))
  ultimately show ?thesis unfolding engine_edges_def by (rule build_edges_cong)
qed

lemma input_ok_cong:
  "columns g' = columns g \<Longrightarrow> map geometry (rows g') = map geometry (rows g) \<Longrightarrow>
   input_ok g' tk = input_ok g tk"
proof -
  assume c: "columns g' = columns g" and m: "map geometry (rows g') = map geometry (rows g)"
  have "list_all (\<lambda>r. geometry r \<noteq> None \<and> geometry r \<noteq> Some []) (rows h)
        = list_all (\<lambda>x. x \<noteq> None \<and> x \<noteq> Some []) (map geometry (rows h))"
    for h :: gdf by (simp add: list_all_iff)
  moreover have "rows g' = [] \<longleftrightarrow> rows g = []" using m by (metis Nil_is_map_conv)
  ultimately show ?thesis unfolding input_ok_def c by (simp only: m)
qed

lemma crows_annotate_nth:
  "j < length (rows g) \<Longrightarrow> length ids = length (rows g) \<Longrightarrow>
   crows (annotate g ids) ! j = \<lparr>row = rows g ! j, cluster_id = ids ! j\<rparr>"
  by (simp add: annotate_def)

end
