(* ===== verification/Colors.thy ===== *)
theory Colors
  imports Prelude
begin

text \<open>
  The colour strings of \<open>src/app.py\<close>, line 17: \<open>"#{:06x}".format(r)\<close> writes a
  random value as \<open>#\<close> and lower-case hexadecimal, zero-padded to six digits. This
  theory models the formatting, reads a colour string back (\<open>parse_hex\<close>), and proves
  that every value \<open>randint(0, 0xFFFFFF)\<close> can return is formatted as a well-formed
  colour that reads back as the value.
\<close>

section \<open>Colours\<close>

definition hex_chars :: string where
  "hex_chars = ''0123456789abcdef''"

fun hex_digits :: "nat \<Rightarrow> string" where
  "hex_digits n = (if n < 16 then [hex_chars ! n] else hex_digits (n div 16) @ [hex_chars ! (n mod 16)])"

declare hex_digits.simps [simp del]

text \<open>\<open>"#{:06x}".format(r)\<close>: lower-case hexadecimal, zero-padded to six digits.\<close>

definition format_color :: "nat \<Rightarrow> string" where
  "format_color r = (let ds = hex_digits r in CHR ''#'' # replicate (6 - length ds) CHR ''0'' @ ds)"

text \<open>Reading a colour back: the value of a lower-case hexadecimal string.\<close>

definition hex_val :: "char \<Rightarrow> nat" where
  "hex_val c = length (takeWhile (\<lambda>x. x \<noteq> c) hex_chars)"

definition parse_hex :: "string \<Rightarrow> nat" where
  "parse_hex cs = foldl (\<lambda>acc c. 16 * acc + hex_val c) 0 cs"

definition valid_color :: "string \<Rightarrow> bool" where
  "valid_color c \<longleftrightarrow> length c = 7 \<and> c ! 0 = CHR ''#'' \<and> list_all (\<lambda>x. x \<in> set hex_chars) (tl c)"

section \<open>Properties of colour strings\<close>

lemma length_hex_chars [simp]: "length hex_chars = 16"
  by (simp add: hex_chars_def)

lemma takeWhile_nth_distinct:
  "distinct xs \<Longrightarrow> d < length xs \<Longrightarrow> length (takeWhile (\<lambda>x. x \<noteq> xs ! d) xs) = d"
proof (induction xs arbitrary: d)
  case Nil
  then show ?case by simp
next
  case (Cons x xs)
  then show ?case by (cases d) (auto simp: nth_mem)
qed

lemma hex_val_nth: "d < 16 \<Longrightarrow> hex_val (hex_chars ! d) = d"
  unfolding hex_val_def
  by (rule takeWhile_nth_distinct) (simp_all add: hex_chars_def)

lemma parse_hex_snoc: "parse_hex (xs @ [c]) = 16 * parse_hex xs + hex_val c"
  by (simp add: parse_hex_def)

lemma parse_hex_digits: "parse_hex (hex_digits n) = n"
proof (induction n rule: hex_digits.induct)
  case (1 n)
  show ?case
  proof (cases "n < 16")
    case True
    then show ?thesis
      by (simp add: hex_digits.simps [of n] parse_hex_def hex_val_nth)
  next
    case False
    with "1.IH" have "parse_hex (hex_digits (n div 16)) = n div 16" by simp
    with False show ?thesis
      by (simp add: hex_digits.simps [of n] parse_hex_snoc hex_val_nth)
  qed
qed

lemma foldl_hex_zeros: "foldl (\<lambda>acc c. 16 * acc + hex_val c) 0 (replicate k CHR ''0'') = 0"
proof -
  have "hex_val CHR ''0'' = 0" by (simp add: hex_val_def hex_chars_def)
  then show ?thesis by (induction k) simp_all
qed

lemma parse_hex_zeros: "parse_hex (replicate k CHR ''0'' @ xs) = parse_hex xs"
  by (simp add: parse_hex_def foldl_hex_zeros)

lemma hex_digits_chars: "set (hex_digits n) \<subseteq> set hex_chars"
proof (induction n rule: hex_digits.induct)
  case (1 n)
  then show ?case
    by (subst hex_digits.simps) (auto simp: nth_mem)
qed

lemma length_hex_digits: "n < 16 ^ Suc k \<Longrightarrow> length (hex_digits n) \<le> Suc k"
proof (induction n arbitrary: k rule: hex_digits.induct)
  case (1 n)
  show ?case
  proof (cases "n < 16")
    case True
    then show ?thesis by (simp add: hex_digits.simps [of n])
  next
    case False
    then obtain k' where k: "k = Suc k'"
      using "1.prems" by (cases k) auto
    from "1.prems" k have "n div 16 < 16 ^ Suc k'" by (simp add: less_mult_imp_div_less)
    with "1.IH" False have "length (hex_digits (n div 16)) \<le> Suc k'" by simp
    with False k show ?thesis by (simp add: hex_digits.simps [of n])
  qed
qed

lemma format_color_valid:
  assumes "r \<le> 0xFFFFFF"
  shows "valid_color (format_color r)"
proof -
  from assms have "r < 16 ^ Suc 5" by simp
  then have l: "length (hex_digits r) \<le> 6" using length_hex_digits by fastforce
  have c: "set (hex_digits r) \<subseteq> set hex_chars" by (rule hex_digits_chars)
  have z: "CHR ''0'' \<in> set hex_chars" by (simp add: hex_chars_def)
  from l c z show ?thesis
    by (auto simp: format_color_def Let_def valid_color_def list_all_iff)
qed

section \<open>The colour format\<close>

text \<open>C12. Round trip of the colour format: every value \<open>randint(0, 0xFFFFFF)\<close> can
  return is written as \<open>#\<close> followed by exactly six lower-case hexadecimal digits,
  which read back as the value.\<close>

theorem format_color_roundtrip:
  "r \<le> 0xFFFFFF \<Longrightarrow> valid_color (format_color r) \<and> parse_hex (tl (format_color r)) = r"
  using format_color_valid
  by (simp add: format_color_def Let_def parse_hex_zeros parse_hex_digits)

theorem format_color_roundtrip_witness:
  "format_color 255 = ''#0000ff'' \<and> valid_color ''#0000ff'' \<and> parse_hex ''0000ff'' = 255"
proof -
  have h: "hex_digits 255 = ''ff''"
    by (simp add: hex_digits.simps [of 255] hex_digits.simps [of 15] hex_chars_def)
  have z: "replicate 4 CHR ''0'' = ''0000''" by (simp add: eval_nat_numeral)
  have f: "format_color 255 = ''#0000ff''" by (simp add: format_color_def h z Let_def)
  from format_color_roundtrip [of 255] f show ?thesis by simp
qed

end
