(* ===== verification/App_Session.thy ===== *)
theory App_Session
  imports App_Params Engine Colors
begin

text \<open>
  The stateful part of \<open>src/app.py\<close>. Streamlit reruns the whole script on every
  interaction; what survives a rerun is \<open>st.session_state\<close>, which this app uses for two
  keys: \<open>"clustered"\<close>, the last clustered frame, and \<open>"colors"\<close>, the dictionary from
  cluster id to the random fill colour of that cluster. The session is a record with one
  optional field per key (absent key = \<open>None\<close>). One rerun is \<open>run_script\<close>: upload,
  form, the Reset and Run handlers, then the results section, which draws every
  non-noise row and asks \<open>get_color\<close> for its colour. The module-level state of
  Python's \<open>random\<close> is the sequence of values \<open>randint(0, 0xFFFFFF)\<close> returns and
  the number of them drawn so far. The page around a rerun's body is in \<open>App_Page\<close>.

  The lemmas come in four groups:
  \<^item> how \<open>get_color\<close>, the styling pass and \<open>render\<close> change the session and the
    random state;
  \<^item> \<open>run_script_invariant\<close>, which turns facts about Reset, Run and the results
    section into facts about a whole rerun;
  \<^item> invariants of the reachable sessions, proved by rule induction;
  \<^item> single reruns and sequences of reruns: persistence, Reset, failures, fixpoints.
\<close>

section \<open>Random colours\<close>

record rng =
  draw :: "nat \<Rightarrow> nat"
  used :: nat

text \<open>\<open>random.randint(0, 0xFFFFFF)\<close>: the next value, and the state after it.\<close>

definition randint :: "rng \<Rightarrow> nat \<times> rng" where
  "randint r = (draw r (used r), r\<lparr>used := Suc (used r)\<rparr>)"

record session =
  clustered :: "cgdf option"
  colors :: "(cid \<rightharpoonup> string) option"

definition empty_session :: session where
  "empty_session = \<lparr>clustered = None, colors = None\<rparr>"

text \<open>\<open>get_color(cid)\<close>, lines 12--18: create the dictionary if the session has none,
  draw and store a colour for an id that has none, return the stored colour.\<close>

definition get_color :: "cid \<Rightarrow> rng \<Rightarrow> session \<Rightarrow> string \<times> rng \<times> session" where
  "get_color k rs s =
     (let cs = (case colors s of None \<Rightarrow> Map.empty | Some m \<Rightarrow> m) in
      case cs k of
        Some c \<Rightarrow> (c, rs, s\<lparr>colors := Some cs\<rparr>)
      | None \<Rightarrow> (case randint rs of
                  (r, rs') \<Rightarrow> (let c = format_color r in (c, rs', s\<lparr>colors := Some (cs(k \<mapsto> c))\<rparr>))))"

section \<open>The Reset and Run handlers\<close>

text \<open>Lines 89--91: \<open>st.session_state.pop("clustered", None)\<close> and the same for
  \<open>"colors"\<close>.\<close>

definition reset_session :: "session \<Rightarrow> session" where
  "reset_session s = s\<lparr>clustered := None, colors := None\<rparr>"

text \<open>Lines 93--100: call the engine with the form's arguments and store its frame. The
  overlap percentage is passed as it is. An exception of the engine ends the rerun.\<close>

definition run_analysis :: "gdf \<Rightarrow> run_args \<Rightarrow> session \<Rightarrow> error + session" where
  "run_analysis g a s =
     (case cluster_polygons g (arg_time_key a) (arg_time_threshold a) (arg_min_cluster_size a)
             (of_int (arg_overlap_threshold a)) of
        Inl e \<Rightarrow> Inl e
      | Inr c \<Rightarrow> Inr (s\<lparr>clustered := Some c\<rparr>))"

section \<open>The results section\<close>

text \<open>Lines 112--115: datetime and timedelta columns are shown as strings.\<close>

definition display_columns :: "column list \<Rightarrow> column list" where
  "display_columns cols =
     map (\<lambda>c. if snd c \<in> {CHR ''M'', CHR ''m''} then (fst c, CHR ''O'') else c) cols"

text \<open>Line 118: \<open>clustered_map[clustered_map["cluster_id"] >= 0]\<close>.\<close>

definition drop_noise :: "crow list \<Rightarrow> crow list" where
  "drop_noise rs = filter (\<lambda>r. 0 \<le> cluster_id r) rs"

text \<open>Lines 121--125: the map centre is the mean of the rows' centroids, latitude (y)
  first. The centroid of a raster is the mean of its cells' centres.\<close>

definition mean :: "rat list \<Rightarrow> rat" where
  "mean xs = sum_list xs / of_nat (length xs)"

definition centroid :: "polygon \<Rightarrow> rat \<times> rat" where
  "centroid p =
     (let cs = remdups p
      in (mean (map (\<lambda>c. of_int (fst c) + 1/2) cs), mean (map (\<lambda>c. of_int (snd c) + 1/2) cs)))"

definition map_center :: "crow list \<Rightarrow> rat \<times> rat" where
  "map_center rs =
     (mean (map (\<lambda>r. snd (centroid (row_polygon (row r)))) rs),
      mean (map (\<lambda>r. fst (centroid (row_polygon (row r)))) rs))"

record style =
  fill_color :: string
  line_color :: string
  line_weight :: nat
  fill_opacity :: rat

text \<open>\<open>style_fn(feature)\<close>, lines 128--135.\<close>

definition style_fn :: "crow \<Rightarrow> rng \<Rightarrow> session \<Rightarrow> style \<times> rng \<times> session" where
  "style_fn r rs s =
     (case get_color (cluster_id r) rs s of
        (c, rs', s') \<Rightarrow>
          (\<lparr>fill_color = c, line_color = ''black'', line_weight = 1, fill_opacity = 7/10\<rparr>, rs', s'))"

text \<open>Folium calls the style function once per feature, in the frame's order
  (lines 141--145).\<close>

fun style_rows :: "crow list \<Rightarrow> rng \<Rightarrow> session \<Rightarrow> style list \<times> rng \<times> session" where
  "style_rows [] rs s = ([], rs, s)"
| "style_rows (r # rest) rs s =
     (case style_fn r rs s of
        (st, rs', s') \<Rightarrow> (case style_rows rest rs' s' of (sts, rs'', s'') \<Rightarrow> (st # sts, rs'', s'')))"

text \<open>Lines 137--139: the tooltip shows the id and, when the selected time column is a
  non-empty name among the frame's columns, the time.\<close>

definition tooltip_fields :: "string option \<Rightarrow> column list \<Rightarrow> string list" where
  "tooltip_fields tk cols =
     ''cluster_id'' # (case tk of None \<Rightarrow> []
                       | Some k \<Rightarrow> if k \<noteq> [] \<and> k \<in> set (map fst cols) then [k] else [])"

text \<open>Lines 141--147: folium turns the drawn rows into GeoJSON features whose properties
  are the frame's columns except the active geometry column, which \<open>gpd.read_file\<close>
  names \<open>geometry\<close>. When \<open>st_folium\<close> renders the map (line 147), folium applies the
  style function to every feature and then renders the \<open>GeoJsonTooltip\<close>, which asserts
  that every tooltip field is a property of the features.\<close>

definition feature_properties :: "column list \<Rightarrow> string list" where
  "feature_properties cols = filter (\<lambda>k. k \<noteq> ''geometry'') (map fst cols)"

definition tooltip_valid :: "string option \<Rightarrow> column list \<Rightarrow> bool" where
  "tooltip_valid tk cols \<longleftrightarrow> list_all (\<lambda>f. f \<in> set (feature_properties cols)) (tooltip_fields tk cols)"

text \<open>What a rerun shows: nothing past the uploader, a crash, the form without results,
  the \<open>st.info\<close> message that there is no cluster, or the map with its centre, the
  drawn rows with their styles, and the tooltip fields.\<close>

datatype view =
    NoUpload
  | Crashed error
  | FormOnly
  | NoClusters
  | MapView "rat \<times> rat" "(crow \<times> style) list" "string list"

text \<open>Lines 103--149. A failed tooltip check raises after the styling pass has stored the
  colours in the session, which keeps them.\<close>

definition render :: "string option \<Rightarrow> session \<Rightarrow> rng \<Rightarrow> view \<times> rng \<times> session" where
  "render tk s rs =
     (case clustered s of
        None \<Rightarrow> (FormOnly, rs, s)
      | Some c \<Rightarrow>
          (let cols = display_columns (ccolumns c); cm = drop_noise (crows c) in
           if cm = [] then (NoClusters, rs, s)
           else case style_rows cm rs s of
                  (sts, rs', s') \<Rightarrow>
                    if tooltip_valid tk cols
                    then (MapView (map_center cm) (zip cm sts) (tooltip_fields tk cols), rs', s')
                    else (Crashed AssertionError, rs', s')))"

section \<open>One rerun of the script\<close>

record app_input =
  upload :: "gdf option"
  form :: form
  run_clicked :: bool
  reset_clicked :: bool

text \<open>Lines 36--149, in order: without a file nothing else runs; the form is read (the
  period may raise); Reset clears the session; Run replaces the frame; the results
  section renders whatever the session holds.\<close>

definition run_script :: "app_input \<Rightarrow> rng \<Rightarrow> session \<Rightarrow> view \<times> rng \<times> session" where
  "run_script inp rs s =
     (case upload inp of
        None \<Rightarrow> (NoUpload, rs, s)
      | Some g \<Rightarrow>
          (case form_args (columns g) (form inp) of
             Inl e \<Rightarrow> (Crashed e, rs, s)
           | Inr a \<Rightarrow>
               (let tk = select_time_key (datetime_cols (columns g)) (time_pick (form inp));
                    s1 = (if reset_clicked inp then reset_session s else s)
                in if run_clicked inp then
                     (case run_analysis g a s1 of
                        Inl e \<Rightarrow> (Crashed e, rs, s1)
                      | Inr s2 \<Rightarrow> render tk s2 rs)
                   else render tk s1 rs)))"

section \<open>Session colours and reachable sessions\<close>

definition session_colors :: "session \<Rightarrow> cid \<rightharpoonup> string" where
  "session_colors s = (case colors s of None \<Rightarrow> Map.empty | Some m \<Rightarrow> m)"

text \<open>The contract of \<open>randint(0, 0xFFFFFF)\<close>.\<close>

definition rng_ok :: "rng \<Rightarrow> bool" where
  "rng_ok r \<longleftrightarrow> (\<forall>i. draw r i \<le> 0xFFFFFF)"

definition stored_ok :: "session \<Rightarrow> bool" where
  "stored_ok s \<longleftrightarrow>
     (case clustered s of None \<Rightarrow> True
      | Some c \<Rightarrow> \<exists>g tk tt m ov. cluster_polygons g tk tt m ov = Inr c)"

definition colors_ok :: "session \<Rightarrow> bool" where
  "colors_ok s \<longleftrightarrow> (\<forall>c \<in> ran (session_colors s). valid_color c)"

text \<open>The outcome of a rerun with a file and a well-formed form, by the buttons pressed:
  the session after the handlers, before the results section renders it.\<close>

definition handled :: "app_input \<Rightarrow> gdf \<Rightarrow> run_args \<Rightarrow> session \<Rightarrow> error + session" where
  "handled inp g a s =
     (let s1 = (if reset_clicked inp then reset_session s else s)
      in if run_clicked inp then run_analysis g a s1 else Inr s1)"

text \<open>The sessions a browser tab can reach: the empty session, then any sequence of
  reruns, each with some user input and with \<open>randint\<close> keeping its contract.\<close>

inductive reachable :: "session \<Rightarrow> bool" where
  init: "reachable empty_session"
| rerun: "reachable s \<Longrightarrow> rng_ok rs \<Longrightarrow> run_script inp rs s = (v, rs', s') \<Longrightarrow> reachable s'"

text \<open>Example inputs for the witness theorems: a frame of two touching rasters with a
  datetime column, the form's defaults with a period of two hours, a random source that
  always draws 255, and a session that already holds a colour for cluster 0.\<close>

definition example_frame :: gdf where
  "example_frame =
     \<lparr>columns = [(''t'', CHR ''M''), (''geometry'', CHR ''O'')],
      rows = [\<lparr>geometry = Some [(0, 0)], props = [(''t'', utc_seconds 0)]\<rparr>,
              \<lparr>geometry = Some [(1, 0)], props = [(''t'', utc_seconds 60)]\<rparr>]\<rparr>"

definition example_form :: form where
  "example_form =
     \<lparr>time_pick = None, cluster_value = 2, cluster_unit = ''hours'', min_cluster_size = 2,
      overlap_pct = 0\<rparr>"

definition example_rng :: rng where
  "example_rng = \<lparr>draw = \<lambda>i. 255, used = 0\<rparr>"

definition example_session :: session where
  "example_session = \<lparr>clustered = None, colors = Some [0 \<mapsto> ''#000000'']\<rparr>"

text \<open>A stored frame with two clusters and a noise row, for the witnesses of the
  rendering theorems.\<close>

definition example_clustered :: cgdf where
  "example_clustered =
     \<lparr>ccolumns = [(''cluster_id'', CHR ''i'')],
      crows = [\<lparr>row = \<lparr>geometry = Some [(0, 0)], props = []\<rparr>, cluster_id = 0\<rparr>,
               \<lparr>row = \<lparr>geometry = Some [(4, 0)], props = []\<rparr>, cluster_id = 1\<rparr>,
               \<lparr>row = \<lparr>geometry = Some [(1, 0)], props = []\<rparr>, cluster_id = 0\<rparr>,
               \<lparr>row = \<lparr>geometry = Some [(9, 9)], props = []\<rparr>, cluster_id = -1\<rparr>]\<rparr>"

section \<open>Colours in the session\<close>

lemma get_color_cases:
  assumes "get_color k rs s = (c, rs', s')"
  shows "clustered s' = clustered s \<and> colors s' = Some ((session_colors s)(k \<mapsto> c))
         \<and> (case session_colors s k of
              Some c0 \<Rightarrow> c = c0 \<and> rs' = rs
            | None \<Rightarrow> c = format_color (draw rs (used rs)) \<and> rs' = snd (randint rs))"
  using assms
  by (auto simp: get_color_def session_colors_def randint_def Let_def map_upd_triv
           split: option.splits prod.splits)

lemma get_color_extends:
  "get_color k rs s = (c, rs', s') \<Longrightarrow> session_colors s \<subseteq>\<^sub>m session_colors s'"
  using get_color_cases [of k rs s c rs' s']
  by (auto simp: session_colors_def map_le_def split: option.splits)

lemma get_color_stored:
  "get_color k rs s = (c, rs', s') \<Longrightarrow> session_colors s' k = Some c"
  using get_color_cases [of k rs s c rs' s'] by (simp add: session_colors_def)

lemma get_color_colors_ok:
  assumes "get_color k rs s = (c, rs', s')" and "rng_ok rs" and "colors_ok s"
  shows "colors_ok s'"
proof -
  from get_color_cases [OF assms(1)] have s': "session_colors s' = (session_colors s)(k \<mapsto> c)"
    and c: "session_colors s k = None \<Longrightarrow> c = format_color (draw rs (used rs))"
    and c0: "\<And>c0. session_colors s k = Some c0 \<Longrightarrow> c = c0"
    by (auto simp: session_colors_def split: option.splits)
  have "valid_color c"
  proof (cases "session_colors s k")
    case None
    with c assms(2) show ?thesis
      using format_color_valid by (simp add: rng_ok_def)
  next
    case (Some c0)
    with c0 assms(3) show ?thesis by (auto simp: colors_ok_def ran_def)
  qed
  with assms(3) s' show ?thesis
    by (auto simp: colors_ok_def ran_def)
qed

lemma get_color_rng:
  "get_color k rs s = (c, rs', s') \<Longrightarrow> draw rs' = draw rs"
  using get_color_cases [of k rs s c rs' s']
  by (auto simp: randint_def split: option.splits)

lemma get_color_used:
  "get_color k rs s = (c, rs', s') \<Longrightarrow>
   used rs' = (if k \<in> dom (session_colors s) then 0 else 1) + used rs
   \<and> dom (session_colors s') = insert k (dom (session_colors s))"
  using get_color_cases [of k rs s c rs' s']
  by (auto simp: randint_def session_colors_def split: option.splits)

text \<open>An id that has a colour gets it back, with no draw and no change to the session.\<close>

lemma get_color_hit:
  "session_colors s k = Some c \<Longrightarrow> get_color k rs s = (c, rs, s)"
  by (cases "colors s") (auto simp: get_color_def session_colors_def)

lemma rng_ok_draw: "draw rs' = draw rs \<Longrightarrow> rng_ok rs' = rng_ok rs"
  by (simp add: rng_ok_def)

section \<open>Rendering\<close>

lemma style_fn_cases:
  assumes "style_fn r rs s = (st, rs', s')"
  shows "get_color (cluster_id r) rs s = (fill_color st, rs', s')"
  using assms by (auto simp: style_fn_def split: prod.splits)

text \<open>Styling the drawn rows: one style per row, the session's colours only grow, and
  after the pass each row's fill colour is the one the session stores for its id.\<close>

lemma style_rows_facts:
  "style_rows rws rs s = (sts, rs', s') \<Longrightarrow>
   length sts = length rws \<and> clustered s' = clustered s \<and> draw rs' = draw rs
   \<and> session_colors s \<subseteq>\<^sub>m session_colors s'
   \<and> (\<forall>i < length rws. session_colors s' (cluster_id (rws ! i)) = Some (fill_color (sts ! i)))"
proof (induction rws arbitrary: rs s sts rs' s')
  case Nil
  then show ?case by auto
next
  case (Cons r rest)
  obtain st rs1 s1 where f: "style_fn r rs s = (st, rs1, s1)"
    by (cases "style_fn r rs s") auto
  obtain sts2 rs2 s2 where t: "style_rows rest rs1 s1 = (sts2, rs2, s2)"
    by (cases "style_rows rest rs1 s1") auto
  from Cons.prems f t have eq: "sts = st # sts2" "rs' = rs2" "s' = s2" by auto
  have g: "get_color (cluster_id r) rs s = (fill_color st, rs1, s1)"
    by (rule style_fn_cases [OF f])
  from Cons.IH [OF t] have ih: "length sts2 = length rest" "clustered s2 = clustered s1"
    "draw rs2 = draw rs1" "session_colors s1 \<subseteq>\<^sub>m session_colors s2"
    "\<forall>i < length rest. session_colors s2 (cluster_id (rest ! i)) = Some (fill_color (sts2 ! i))"
    by auto
  have hd: "session_colors s2 (cluster_id r) = Some (fill_color st)"
    using get_color_stored [OF g] ih(4) by (auto simp: map_le_def dom_def)
  have "\<forall>i < length (r # rest). session_colors s2 (cluster_id ((r # rest) ! i))
          = Some (fill_color ((st # sts2) ! i))"
    using hd ih(5) by (simp add: nth_Cons split: nat.splits)
  moreover have "session_colors s \<subseteq>\<^sub>m session_colors s2"
    using get_color_extends [OF g] ih(4) by (rule map_le_trans)
  moreover have "clustered s2 = clustered s"
    using get_color_cases [OF g] ih(2) by simp
  moreover have "draw rs2 = draw rs"
    using get_color_rng [OF g] ih(3) by simp
  ultimately show ?case using eq ih(1) by simp
qed

text \<open>The styling pass draws one random number for each cluster id of the rows that the
  session holds no colour for, and none for the others; afterwards the session holds a
  colour for every id of the rows.\<close>

lemma style_rows_used:
  "style_rows rws rs s = (sts, rs', s') \<Longrightarrow>
   used rs' = used rs + card (cluster_id ` set rws - dom (session_colors s))
   \<and> dom (session_colors s') = dom (session_colors s) \<union> cluster_id ` set rws"
proof (induction rws arbitrary: rs s sts rs' s')
  case Nil
  then show ?case by auto
next
  case (Cons r rest)
  obtain st rs1 s1 where f: "style_fn r rs s = (st, rs1, s1)"
    by (cases "style_fn r rs s") auto
  obtain sts2 rs2 s2 where t: "style_rows rest rs1 s1 = (sts2, rs2, s2)"
    by (cases "style_rows rest rs1 s1") auto
  from Cons.prems f t have eq: "rs' = rs2" "s' = s2" by auto
  from get_color_used [OF style_fn_cases [OF f]]
  have u1: "used rs1 = (if cluster_id r \<in> dom (session_colors s) then 0 else 1) + used rs"
    and d1: "dom (session_colors s1) = insert (cluster_id r) (dom (session_colors s))" by auto
  from Cons.IH [OF t] d1
  have "used rs2 = used rs1 + card (cluster_id ` set rest - insert (cluster_id r) (dom (session_colors s)))"
    and "dom (session_colors s2) = insert (cluster_id r) (dom (session_colors s)) \<union> cluster_id ` set rest"
    by auto
  with u1 eq show ?case by (simp add: card_insert_diff)
qed

text \<open>A second styling pass over the same rows, from the state the first left, finds every
  colour stored and changes nothing.\<close>

lemma style_rows_idem:
  "style_rows rws rs s = (sts, rs', s') \<Longrightarrow> style_rows rws rs' s' = (sts, rs', s')"
proof (induction rws arbitrary: rs s sts rs' s')
  case Nil
  then show ?case by simp
next
  case (Cons r rest)
  obtain st rs1 s1 where f: "style_fn r rs s = (st, rs1, s1)"
    by (cases "style_fn r rs s") auto
  obtain sts2 rs2 s2 where t: "style_rows rest rs1 s1 = (sts2, rs2, s2)"
    by (cases "style_rows rest rs1 s1") auto
  from Cons.prems f t have eq: "sts = st # sts2" "rs' = rs2" "s' = s2" by auto
  have g: "get_color (cluster_id r) rs s = (fill_color st, rs1, s1)"
    by (rule style_fn_cases [OF f])
  from style_rows_facts [OF t] have "session_colors s1 \<subseteq>\<^sub>m session_colors s2" by simp
  with get_color_stored [OF g] have "session_colors s2 (cluster_id r) = Some (fill_color st)"
    by (auto simp: map_le_def dom_def)
  then have "get_color (cluster_id r) rs2 s2 = (fill_color st, rs2, s2)" by (rule get_color_hit)
  then have "style_fn r rs2 s2 = (st, rs2, s2)"
    using f by (auto simp: style_fn_def split: prod.splits)
  with Cons.IH [OF t] eq show ?case by simp
qed

lemma style_rows_colors_ok:
  "style_rows rws rs s = (sts, rs', s') \<Longrightarrow> rng_ok rs \<Longrightarrow> colors_ok s \<Longrightarrow> colors_ok s'"
proof (induction rws arbitrary: rs s sts rs' s')
  case Nil
  then show ?case by auto
next
  case (Cons r rest)
  obtain st rs1 s1 where f: "style_fn r rs s = (st, rs1, s1)"
    by (cases "style_fn r rs s") auto
  obtain sts2 rs2 s2 where t: "style_rows rest rs1 s1 = (sts2, rs2, s2)"
    by (cases "style_rows rest rs1 s1") auto
  have g: "get_color (cluster_id r) rs s = (fill_color st, rs1, s1)"
    by (rule style_fn_cases [OF f])
  have "colors_ok s1" by (rule get_color_colors_ok [OF g Cons.prems(2,3)])
  moreover have "rng_ok rs1" using rng_ok_draw [OF get_color_rng [OF g]] Cons.prems(2) by simp
  ultimately have "colors_ok s2" using Cons.IH [OF t] by blast
  with Cons.prems(1) f t show ?case by simp
qed

text \<open>The mean of a non-empty list lies between its least and its greatest element.\<close>

lemma mean_bounds:
  assumes "xs \<noteq> []"
  shows "Min (set xs) \<le> mean xs \<and> mean xs \<le> Max (set xs)"
proof -
  have n: "(0::rat) < of_nat (length xs)" using assms by simp
  have "sum_list (map (\<lambda>_. Min (set xs)) xs) \<le> sum_list (map (\<lambda>x. x) xs)"
    by (rule sum_list_mono) (simp add: assms)
  then have lo: "of_nat (length xs) * Min (set xs) \<le> sum_list xs"
    by (simp add: sum_list_triv)
  have "sum_list (map (\<lambda>x. x) xs) \<le> sum_list (map (\<lambda>_. Max (set xs)) xs)"
    by (rule sum_list_mono) (simp add: assms)
  then have hi: "sum_list xs \<le> of_nat (length xs) * Max (set xs)"
    by (simp add: sum_list_triv)
  from lo hi n show ?thesis
    by (simp add: mean_def pos_le_divide_eq pos_divide_le_eq mult.commute)
qed

text \<open>The results section either leaves the session and the random state as they are and
  draws no map, or styles the non-noise rows of the stored frame and then draws them or,
  when folium rejects a tooltip field, raises.\<close>

lemma render_cases:
  assumes "render tk s rs = (v, rs', s')"
  shows "(rs' = rs \<and> s' = s \<and> (\<forall>ctr drawn tips. v \<noteq> MapView ctr drawn tips))
         \<or> (\<exists>c sts. clustered s = Some c \<and> drop_noise (crows c) \<noteq> []
              \<and> style_rows (drop_noise (crows c)) rs s = (sts, rs', s')
              \<and> v = (if tooltip_valid tk (display_columns (ccolumns c))
                       then MapView (map_center (drop_noise (crows c))) (zip (drop_noise (crows c)) sts)
                              (tooltip_fields tk (display_columns (ccolumns c)))
                       else Crashed AssertionError))"
proof (cases "clustered s")
  case None
  with assms show ?thesis by (auto simp: render_def)
next
  case (Some c)
  show ?thesis
  proof (cases "drop_noise (crows c) = []")
    case True
    with assms Some show ?thesis by (auto simp: render_def Let_def)
  next
    case False
    obtain sts rs1 s1 where t: "style_rows (drop_noise (crows c)) rs s = (sts, rs1, s1)"
      by (cases "style_rows (drop_noise (crows c)) rs s") auto
    with assms Some False show ?thesis by (auto simp: render_def Let_def)
  qed
qed

text \<open>Rendering assigns colours only to ids of drawn rows, which are never noise.\<close>

lemma render_dom_colors:
  assumes "render tk s rs = (v, rs', s')"
  shows "dom (session_colors s') \<subseteq> dom (session_colors s) \<union> {k. 0 \<le> k}"
  using render_cases [OF assms]
proof (elim disjE exE conjE)
  fix c sts assume "style_rows (drop_noise (crows c)) rs s = (sts, rs', s')"
  from style_rows_used [OF this] show ?thesis by (auto simp: drop_noise_def)
qed simp

lemma render_facts:
  assumes "render tk s rs = (v, rs', s')"
  shows "clustered s' = clustered s \<and> draw rs' = draw rs
         \<and> session_colors s \<subseteq>\<^sub>m session_colors s'
         \<and> (rng_ok rs \<longrightarrow> colors_ok s \<longrightarrow> colors_ok s')"
  using render_cases [OF assms]
proof (elim disjE exE conjE)
  fix c sts assume t: "style_rows (drop_noise (crows c)) rs s = (sts, rs', s')"
  from style_rows_facts [OF t] style_rows_colors_ok [OF t] show ?thesis by simp
qed simp

text \<open>On a frame the engine returned, whose columns are the input's and \<open>cluster_id\<close>,
  folium's tooltip check fails exactly when the selected time column is the geometry
  column.\<close>

lemma map_fst_display_columns [simp]: "map fst (display_columns cols) = map fst cols"
  by (simp add: display_columns_def comp_def)

lemma tooltip_valid_annotated:
  assumes "tk = None \<or> (\<exists>k. tk = Some k \<and> k \<in> fst ` set cols)"
  shows "tooltip_valid tk (display_columns (cols @ [(''cluster_id'', CHR ''i'')]))
         \<longleftrightarrow> tk \<noteq> Some ''geometry''"
proof -
  have names: "set (map fst (display_columns (cols @ [(''cluster_id'', CHR ''i'')])))
               = insert ''cluster_id'' (fst ` set cols)"
    by (simp only: map_fst_display_columns) auto
  show ?thesis
    using assms names
    by (auto simp: tooltip_valid_def tooltip_fields_def feature_properties_def
             simp del: map_fst_display_columns split: option.splits)
qed

text \<open>What the map draws: the non-noise rows of the stored frame, in order, each with the
  fill colour the session stores for its cluster id.\<close>

lemma render_MapView_style:
  assumes "render tk s rs = (MapView ctr drawn tips, rs', s')"
  shows "\<exists>c sts. clustered s = Some c \<and> drop_noise (crows c) \<noteq> []
           \<and> style_rows (drop_noise (crows c)) rs s = (sts, rs', s')
           \<and> length sts = length (drop_noise (crows c))
           \<and> drawn = zip (drop_noise (crows c)) sts \<and> ctr = map_center (drop_noise (crows c))
           \<and> tooltip_valid tk (display_columns (ccolumns c))"
  using render_cases [OF assms]
proof (elim disjE exE conjE)
  fix c sts assume c: "clustered s = Some c" and ne: "drop_noise (crows c) \<noteq> []"
    and t: "style_rows (drop_noise (crows c)) rs s = (sts, rs', s')"
    and v: "MapView ctr drawn tips = (if tooltip_valid tk (display_columns (ccolumns c))
              then MapView (map_center (drop_noise (crows c))) (zip (drop_noise (crows c)) sts)
                     (tooltip_fields tk (display_columns (ccolumns c)))
              else Crashed AssertionError)"
  then have ok: "tooltip_valid tk (display_columns (ccolumns c))" by (auto split: if_splits)
  with v have "drawn = zip (drop_noise (crows c)) sts" "ctr = map_center (drop_noise (crows c))"
    by simp_all
  with c ne t ok style_rows_facts [OF t] show ?thesis by blast
qed simp

lemma render_MapView:
  assumes "render tk s rs = (MapView ctr drawn tips, rs', s')"
  shows "\<exists>c. clustered s = Some c \<and> map fst drawn = drop_noise (crows c) \<and> drawn \<noteq> []
             \<and> ctr = map_center (drop_noise (crows c))
             \<and> (\<forall>d \<in> set drawn. session_colors s' (cluster_id (fst d)) = Some (fill_color (snd d)))"
proof -
  from render_MapView_style [OF assms] obtain c sts where c: "clustered s = Some c"
    and ne: "drop_noise (crows c) \<noteq> []"
    and t: "style_rows (drop_noise (crows c)) rs s = (sts, rs', s')"
    and l: "length sts = length (drop_noise (crows c))"
    and d: "drawn = zip (drop_noise (crows c)) sts" and ctr: "ctr = map_center (drop_noise (crows c))"
    by blast
  from style_rows_facts [OF t] have col: "\<forall>i < length (drop_noise (crows c)).
      session_colors s' (cluster_id (drop_noise (crows c) ! i)) = Some (fill_color (sts ! i))"
    by simp
  have "\<forall>d \<in> set drawn. session_colors s' (cluster_id (fst d)) = Some (fill_color (snd d))"
    using col l by (auto simp: d set_zip)
  moreover have "drawn \<noteq> []" using d l ne by (cases sts) auto
  ultimately show ?thesis using c d l ctr by simp
qed

section \<open>Reruns\<close>

lemma run_analysis_Inr:
  "run_analysis g a s = Inr s' \<Longrightarrow>
   colors s' = colors s \<and>
   (\<exists>c. clustered s' = Some c \<and>
        cluster_polygons g (arg_time_key a) (arg_time_threshold a) (arg_min_cluster_size a)
          (of_int (arg_overlap_threshold a)) = Inr c)"
  by (auto simp: run_analysis_def split: sum.splits)

lemma colors_ok_reset: "colors_ok (reset_session s)"
  by (simp add: colors_ok_def reset_session_def session_colors_def)

lemma colors_ok_colors: "colors s' = colors s \<Longrightarrow> colors_ok s' = colors_ok s"
  by (simp add: colors_ok_def session_colors_def)

lemma run_script_handled:
  assumes "upload inp = Some g" and "form_args (columns g) (form inp) = Inr a"
  shows "run_script inp rs s =
           (case handled inp g a s of
              Inl e \<Rightarrow> (Crashed e, rs, if reset_clicked inp then reset_session s else s)
            | Inr s2 \<Rightarrow> render (select_time_key (datetime_cols (columns g)) (time_pick (form inp))) s2 rs)"
  using assms by (simp add: run_script_def handled_def Let_def split: sum.splits)

lemma handled_cases:
  "handled inp g a s = Inr s2 \<Longrightarrow>
   s2 = s \<or> s2 = reset_session s
   \<or> (\<exists>s1. run_analysis g a s1 = Inr s2 \<and> (s1 = s \<or> s1 = reset_session s))"
  by (auto simp: handled_def Let_def split: if_splits)

text \<open>A rerun leaves the session as it was, as Reset left it, or as the results section
  left the session the handlers produced.\<close>

lemma run_script_cases:
  assumes "run_script inp rs s = (v, rs', s')"
  shows "s' = s \<or> s' = reset_session s
         \<or> (\<exists>g a s2 tk. handled inp g a s = Inr s2 \<and> render tk s2 rs = (v, rs', s'))"
proof (cases "upload inp")
  case None
  with assms show ?thesis by (simp add: run_script_def)
next
  case (Some g)
  show ?thesis
  proof (cases "form_args (columns g) (form inp)")
    case (Inl e)
    with assms Some show ?thesis by (simp add: run_script_def)
  next
    case (Inr a)
    from assms run_script_handled [OF Some Inr] show ?thesis
      by (auto split: sum.splits if_splits)
  qed
qed

text \<open>A property of sessions that Reset, a successful run and the results section keep is
  kept by a whole rerun.\<close>

lemma run_script_invariant:
  assumes "run_script inp rs s = (v, rs', s')" and "P s"
    and reset: "\<And>s. P s \<Longrightarrow> P (reset_session s)"
    and run: "\<And>g a s s2. P s \<Longrightarrow> run_analysis g a s = Inr s2 \<Longrightarrow> P s2"
    and show_: "\<And>tk s2 v rs' s'. P s2 \<Longrightarrow> render tk s2 rs = (v, rs', s') \<Longrightarrow> P s'"
  shows "P s'"
proof -
  have h: "P s2" if "handled inp g a s = Inr s2" for g a s2
    using handled_cases [OF that] assms(2) reset run by blast
  from run_script_cases [OF assms(1)] show ?thesis
  proof (elim disjE exE conjE)
    fix g a s2 tk assume "handled inp g a s = Inr s2" and "render tk s2 rs = (v, rs', s')"
    from show_ [OF h [OF this(1)] this(2)] show ?thesis .
  qed (use assms(2) reset in simp_all)
qed

lemma run_script_colors_ok:
  assumes "run_script inp rs s = (v, rs', s')" and "rng_ok rs" and "colors_ok s"
  shows "colors_ok s'"
  using assms(1,3)
proof (rule run_script_invariant)
  show "colors_ok s2" if "colors_ok s1" and "run_analysis g a s1 = Inr s2" for g a s1 s2
    using that run_analysis_Inr [OF that(2)] colors_ok_colors [of s2 s1] by simp
  show "colors_ok s'" if "colors_ok s2" and "render tk s2 rs = (v, rs', s')" for tk s2 v rs' s'
    using render_facts [OF that(2)] that(1) assms(2) by simp
qed (rule colors_ok_reset)

lemma run_script_stored_ok:
  assumes "run_script inp rs s = (v, rs', s')" and "stored_ok s"
  shows "stored_ok s'"
  using assms
proof (rule run_script_invariant)
  show "stored_ok (reset_session s1)" for s1 by (simp add: stored_ok_def reset_session_def)
  show "stored_ok s2" if "run_analysis g a s1 = Inr s2" for g a s1 s2
    using run_analysis_Inr [OF that] by (auto simp: stored_ok_def; blast)
  show "stored_ok s'" if "stored_ok s2" and "render tk s2 rs = (v, rs', s')" for tk s2 v rs' s'
    using render_facts [OF that(2)] that(1) by (simp add: stored_ok_def)
qed

lemma render_idem:
  assumes "render tk s rs = (v, rs', s')"
  shows "render tk s' rs' = (v, rs', s')"
  using render_cases [OF assms]
proof (elim disjE exE conjE)
  fix c sts assume c: "clustered s = Some c" and ne: "drop_noise (crows c) \<noteq> []"
    and t: "style_rows (drop_noise (crows c)) rs s = (sts, rs', s')"
    and v: "v = (if tooltip_valid tk (display_columns (ccolumns c))
                 then MapView (map_center (drop_noise (crows c))) (zip (drop_noise (crows c)) sts)
                        (tooltip_fields tk (display_columns (ccolumns c)))
                 else Crashed AssertionError)"
  from style_rows_facts [OF t] c have "clustered s' = Some c" by simp
  with style_rows_idem [OF t] ne v show ?thesis by (simp add: render_def Let_def)
qed (use assms in simp)

lemma render_extends:
  assumes "render tk s rs = (v, rs', s')"
  shows "session_colors s \<subseteq>\<^sub>m session_colors s'"
  using render_facts [OF assms] by blast

text \<open>Reading back an evaluated rerun or rendering that drew the map: the witnesses
  evaluate a \<open>case\<close> on the result by \<open>code_simp\<close> (the random state holds a function
  and has no executable equality) and name its parts with this lemma.\<close>

lemma MapView_obtain:
  assumes "case t of (MapView ctr drawn tips, rs', s') \<Rightarrow> P rs' | _ \<Rightarrow> False"
  obtains ctr drawn tips rs' s' where "t = (MapView ctr drawn tips, rs', s')" and "P rs'"
  using assms by (cases t rule: prod_cases3) (auto split: view.splits)

section \<open>Properties of the app\<close>

text \<open>C8. When the results section draws the map, it draws exactly the rows of the
  stored frame whose \<open>cluster_id\<close> is not negative, in the frame's order, at least one,
  and rows with the same cluster id get the same fill colour.\<close>

theorem render_draws_clusters:
  assumes "render tk s rs = (MapView ctr drawn tips, rs', s')"
  shows "\<exists>c. clustered s = Some c \<and> map fst drawn = filter (\<lambda>r. 0 \<le> cluster_id r) (crows c)
             \<and> drawn \<noteq> []
             \<and> (\<forall>d \<in> set drawn. \<forall>d' \<in> set drawn.
                  cluster_id (fst d) = cluster_id (fst d') \<longrightarrow> fill_color (snd d) = fill_color (snd d'))"
proof -
  from render_MapView [OF assms] obtain c where c: "clustered s = Some c"
    and d: "map fst drawn = drop_noise (crows c)" and ne: "drawn \<noteq> []"
    and col: "\<forall>d \<in> set drawn. session_colors s' (cluster_id (fst d)) = Some (fill_color (snd d))"
    by blast
  have "\<forall>d \<in> set drawn. \<forall>d' \<in> set drawn.
          cluster_id (fst d) = cluster_id (fst d') \<longrightarrow> fill_color (snd d) = fill_color (snd d')"
  proof (intro ballI impI)
    fix d d' assume "d \<in> set drawn" "d' \<in> set drawn" "cluster_id (fst d) = cluster_id (fst d')"
    from col \<open>d \<in> set drawn\<close> have "session_colors s' (cluster_id (fst d)) = Some (fill_color (snd d))"
      by blast
    moreover from col \<open>d' \<in> set drawn\<close>
    have "session_colors s' (cluster_id (fst d')) = Some (fill_color (snd d'))"
      by blast
    ultimately show "fill_color (snd d) = fill_color (snd d')"
      using \<open>cluster_id (fst d) = cluster_id (fst d')\<close> by simp
  qed
  moreover from d have "map fst drawn = filter (\<lambda>r. 0 \<le> cluster_id r) (crows c)"
    by (simp add: drop_noise_def)
  ultimately show ?thesis using c ne by blast
qed

theorem render_draws_clusters_witness:
  "render None
     \<lparr>clustered = Some \<lparr>ccolumns = [(''cluster_id'', CHR ''i'')],
        crows = [\<lparr>row = \<lparr>geometry = Some [(0, 0)], props = []\<rparr>, cluster_id = 0\<rparr>,
                 \<lparr>row = \<lparr>geometry = Some [(5, 5)], props = []\<rparr>, cluster_id = -1\<rparr>]\<rparr>,
      colors = Some [0 \<mapsto> ''#000000'']\<rparr>
     \<lparr>draw = \<lambda>i. 255, used = 0\<rparr>
   = (MapView (1/2, 1/2)
        [(\<lparr>row = \<lparr>geometry = Some [(0, 0)], props = []\<rparr>, cluster_id = 0\<rparr>,
          \<lparr>fill_color = ''#000000'', line_color = ''black'', line_weight = 1, fill_opacity = 7/10\<rparr>)]
        [''cluster_id''],
      \<lparr>draw = \<lambda>i. 255, used = 0\<rparr>,
      \<lparr>clustered = Some \<lparr>ccolumns = [(''cluster_id'', CHR ''i'')],
        crows = [\<lparr>row = \<lparr>geometry = Some [(0, 0)], props = []\<rparr>, cluster_id = 0\<rparr>,
                 \<lparr>row = \<lparr>geometry = Some [(5, 5)], props = []\<rparr>, cluster_id = -1\<rparr>]\<rparr>,
      colors = Some [0 \<mapsto> ''#000000'']\<rparr>)
   \<and> map fst [(\<lparr>row = \<lparr>geometry = Some [(0, 0)], props = []\<rparr>, cluster_id = 0\<rparr>,
          \<lparr>fill_color = ''#000000'', line_color = ''black'', line_weight = 1, fill_opacity = 7/10\<rparr>)]
     = filter (\<lambda>r. 0 \<le> cluster_id r)
         [\<lparr>row = \<lparr>geometry = Some [(0, 0)], props = []\<rparr>, cluster_id = (0::int)\<rparr>,
          \<lparr>row = \<lparr>geometry = Some [(5, 5)], props = []\<rparr>, cluster_id = -1\<rparr>]"
proof -
  have r: "render None
     \<lparr>clustered = Some \<lparr>ccolumns = [(''cluster_id'', CHR ''i'')],
        crows = [\<lparr>row = \<lparr>geometry = Some [(0, 0)], props = []\<rparr>, cluster_id = 0\<rparr>,
                 \<lparr>row = \<lparr>geometry = Some [(5, 5)], props = []\<rparr>, cluster_id = -1\<rparr>]\<rparr>,
      colors = Some [0 \<mapsto> ''#000000'']\<rparr>
     \<lparr>draw = \<lambda>i. 255, used = 0\<rparr>
   = (MapView (1/2, 1/2)
        [(\<lparr>row = \<lparr>geometry = Some [(0, 0)], props = []\<rparr>, cluster_id = 0\<rparr>,
          \<lparr>fill_color = ''#000000'', line_color = ''black'', line_weight = 1, fill_opacity = 7/10\<rparr>)]
        [''cluster_id''],
      \<lparr>draw = \<lambda>i. 255, used = 0\<rparr>,
      \<lparr>clustered = Some \<lparr>ccolumns = [(''cluster_id'', CHR ''i'')],
        crows = [\<lparr>row = \<lparr>geometry = Some [(0, 0)], props = []\<rparr>, cluster_id = 0\<rparr>,
                 \<lparr>row = \<lparr>geometry = Some [(5, 5)], props = []\<rparr>, cluster_id = -1\<rparr>]\<rparr>,
      colors = Some [0 \<mapsto> ''#000000'']\<rparr>)"
    by (simp add: render_def drop_noise_def display_columns_def style_fn_def get_color_def
                  map_center_def centroid_def mean_def tooltip_fields_def row_polygon_def
                  tooltip_valid_def feature_properties_def)
  from render_draws_clusters [OF r] obtain c where
    "clustered \<lparr>clustered = Some \<lparr>ccolumns = [(''cluster_id'', CHR ''i'')],
        crows = [\<lparr>row = \<lparr>geometry = Some [(0, 0)], props = []\<rparr>, cluster_id = 0\<rparr>,
                 \<lparr>row = \<lparr>geometry = Some [(5, 5)], props = []\<rparr>, cluster_id = -1\<rparr>]\<rparr>,
      colors = Some [0 \<mapsto> ''#000000'']\<rparr> = Some c"
    and "map fst [(\<lparr>row = \<lparr>geometry = Some [(0, 0)], props = []\<rparr>, cluster_id = 0\<rparr>,
          \<lparr>fill_color = ''#000000'', line_color = ''black'', line_weight = 1, fill_opacity = 7/10\<rparr>)]
       = filter (\<lambda>r. 0 \<le> cluster_id r) (crows c)"
    by blast
  then have "map fst [(\<lparr>row = \<lparr>geometry = Some [(0, 0)], props = []\<rparr>, cluster_id = 0\<rparr>,
          \<lparr>fill_color = ''#000000'', line_color = ''black'', line_weight = 1, fill_opacity = 7/10\<rparr>)]
     = filter (\<lambda>r. 0 \<le> cluster_id r)
         [\<lparr>row = \<lparr>geometry = Some [(0, 0)], props = []\<rparr>, cluster_id = (0::int)\<rparr>,
          \<lparr>row = \<lparr>geometry = Some [(5, 5)], props = []\<rparr>, cluster_id = -1\<rparr>]"
    by simp
  with r show ?thesis by blast
qed

text \<open>C9. In every session a tab can reach, every stored colour is a well-formed colour
  string: \<open>#\<close> and six lower-case hexadecimal digits.\<close>

theorem reachable_colors_ok: "reachable s \<Longrightarrow> colors_ok s"
proof (induction rule: reachable.induct)
  case init
  then show ?case by (simp add: colors_ok_def empty_session_def session_colors_def)
next
  case (rerun s rs inp v rs' s')
  then show ?case by (blast intro: run_script_colors_ok)
qed

theorem reachable_colors_ok_witness:
  "\<exists>v rs' s'. run_script \<lparr>upload = Some example_frame, form = example_form, run_clicked = True,
                 reset_clicked = False\<rparr> example_rng empty_session = (v, rs', s') \<and> colors_ok s'"
proof -
  obtain v rs' s' where r: "run_script \<lparr>upload = Some example_frame, form = example_form,
      run_clicked = True, reset_clicked = False\<rparr> example_rng empty_session = (v, rs', s')"
    by (rule prod_cases3)
  have "rng_ok example_rng" by (simp add: rng_ok_def example_rng_def)
  then have "reachable s'" by (rule reachable.rerun [OF reachable.init _ r])
  then have "colors_ok s'" by (rule reachable_colors_ok)
  with r show ?thesis by blast
qed

text \<open>C11. \<open>get_color\<close> is persistent: once it has returned a colour for an id, it
  returns the same colour for that id again, draws nothing and leaves the session as it
  is.\<close>

theorem get_color_persistent:
  "get_color k rs s = (c, rs', s') \<Longrightarrow> get_color k rs2 s' = (c, rs2, s')"
proof -
  assume g: "get_color k rs s = (c, rs', s')"
  from get_color_cases [OF g] have s': "colors s' = Some ((session_colors s)(k \<mapsto> c))"
    by simp
  then have "s'\<lparr>colors := Some ((session_colors s)(k \<mapsto> c))\<rparr> = s'" by simp
  with s' show ?thesis by (simp add: get_color_def)
qed

theorem get_color_persistent_witness:
  "get_color 0 example_rng empty_session
     = (''#0000ff'', example_rng\<lparr>used := 1\<rparr>, empty_session\<lparr>colors := Some [0 \<mapsto> ''#0000ff'']\<rparr>)
   \<and> get_color 0 example_rng (empty_session\<lparr>colors := Some [0 \<mapsto> ''#0000ff'']\<rparr>)
     = (''#0000ff'', example_rng, empty_session\<lparr>colors := Some [0 \<mapsto> ''#0000ff'']\<rparr>)"
proof -
  have h: "hex_digits 255 = ''ff''"
    by (simp add: hex_digits.simps [of 255] hex_digits.simps [of 15] hex_chars_def)
  have g: "get_color 0 example_rng empty_session
     = (''#0000ff'', example_rng\<lparr>used := 1\<rparr>, empty_session\<lparr>colors := Some [0 \<mapsto> ''#0000ff'']\<rparr>)"
  proof -
    have z: "replicate 4 CHR ''0'' = ''0000''" by (simp add: eval_nat_numeral)
    show ?thesis
      by (simp add: get_color_def randint_def example_rng_def empty_session_def format_color_def h
                    z Let_def)
  qed
  from g get_color_persistent [OF g] show ?thesis by simp
qed

text \<open>C13. A rerun without Reset never loses a colour: the colour the session holds for a
  cluster id is still there afterwards, also when Run stored a new frame whose clusters
  carry the same ids.\<close>

theorem run_keeps_colors:
  assumes "upload inp = Some g" and "\<not> reset_clicked inp"
    and "run_script inp rs s = (v, rs', s')"
  shows "session_colors s \<subseteq>\<^sub>m session_colors s'"
proof (cases "form_args (columns g) (form inp)")
  case (Inl e)
  with assms show ?thesis by (simp add: run_script_def)
next
  case (Inr a)
  note rs = run_script_handled [OF assms(1) Inr, of rs s]
  show ?thesis
  proof (cases "handled inp g a s")
    case (Inl e)
    with assms(2,3) rs show ?thesis by simp
  next
    case (Inr s2)
    have c: "colors s2 = colors s"
    proof (cases "run_clicked inp")
      case True
      with Inr assms(2) have "run_analysis g a s = Inr s2" by (simp add: handled_def)
      then show ?thesis by (simp add: run_analysis_Inr)
    next
      case False
      with Inr assms(2) show ?thesis by (simp add: handled_def)
    qed
    from Inr assms(3) rs
    have "render (select_time_key (datetime_cols (columns g)) (time_pick (form inp))) s2 rs
            = (v, rs', s')" by simp
    from render_extends [OF this] c show ?thesis by (simp add: session_colors_def)
  qed
qed

theorem run_keeps_colors_witness:
  "\<exists>v rs' s'. run_script \<lparr>upload = Some example_frame, form = example_form, run_clicked = True,
                 reset_clicked = False\<rparr> example_rng example_session = (v, rs', s')
             \<and> [0 \<mapsto> ''#000000''] \<subseteq>\<^sub>m session_colors s'"
proof -
  obtain v rs' s' where r: "run_script \<lparr>upload = Some example_frame, form = example_form,
      run_clicked = True, reset_clicked = False\<rparr> example_rng example_session = (v, rs', s')"
    by (rule prod_cases3)
  have "session_colors example_session \<subseteq>\<^sub>m session_colors s'"
    by (rule run_keeps_colors [OF _ _ r]) simp_all
  with r show ?thesis by (auto simp: example_session_def session_colors_def)
qed

text \<open>C17. Reset without Run empties the session: the rerun shows the form without
  results and the session holds neither a frame nor colours.\<close>

theorem reset_clears_session:
  assumes "upload inp = Some g" and "reset_clicked inp" and "\<not> run_clicked inp"
    and "form_args (columns g) (form inp) = Inr a"
  shows "run_script inp rs s = (FormOnly, rs, s\<lparr>clustered := None, colors := None\<rparr>)"
  using assms
  by (simp add: run_script_def handled_def render_def reset_session_def)

theorem reset_clears_session_witness:
  "run_script \<lparr>upload = Some example_frame, form = example_form, run_clicked = False,
                 reset_clicked = True\<rparr> example_rng example_session
   = (FormOnly, example_rng, example_session\<lparr>clustered := None, colors := None\<rparr>)"
proof -
  have f: "form_args (columns example_frame) (form \<lparr>upload = Some example_frame,
      form = example_form, run_clicked = False, reset_clicked = True\<rparr>) =
     Inr \<lparr>arg_time_key = Some ''t'', arg_time_threshold = 7200, arg_min_cluster_size = 2,
          arg_overlap_threshold = 0\<rparr>"
    by (simp add: example_frame_def example_form_def form_args_def datetime_cols_def
                  select_time_key_def engine_time_key_def cluster_period_def unit_multipliers_def)
  show ?thesis
    by (rule reset_clears_session [where inp = "\<lparr>upload = Some example_frame, form = example_form,
          run_clicked = False, reset_clicked = True\<rparr>" and g = example_frame, OF _ _ _ f])
       simp_all
qed

text \<open>C14. A failed run changes nothing: when the engine raises, the rerun ends with the
  error and the session keeps the frame and the colours it held before, so the next
  rerun without a button shows the previous run's result again.\<close>

theorem run_failure_keeps_previous:
  assumes "upload inp = Some g" and "form_args (columns g) (form inp) = Inr a"
    and "run_clicked inp" and "\<not> reset_clicked inp" and "run_analysis g a s = Inl e"
  shows "run_script inp rs s = (Crashed e, rs, s)
         \<and> run_script (inp\<lparr>run_clicked := False\<rparr>) rs s
             = render (select_time_key (datetime_cols (columns g)) (time_pick (form inp))) s rs"
  using assms by (simp add: run_script_def Let_def)

theorem run_failure_keeps_previous_witness:
  "run_script \<lparr>upload = Some example_frame, form = example_form\<lparr>overlap_pct := 5\<rparr>,
               run_clicked = True, reset_clicked = False\<rparr> example_rng example_session
     = (Crashed ParameterError, example_rng, example_session)"
proof -
  have f: "form_args (columns example_frame) (example_form\<lparr>overlap_pct := 5\<rparr>)
             = Inr \<lparr>arg_time_key = Some ''t'', arg_time_threshold = 7200, arg_min_cluster_size = 2,
                    arg_overlap_threshold = 5\<rparr>"
    by code_simp
  have r: "run_analysis example_frame \<lparr>arg_time_key = Some ''t'', arg_time_threshold = 7200,
             arg_min_cluster_size = 2, arg_overlap_threshold = 5\<rparr> example_session = Inl ParameterError"
    by (simp add: run_analysis_def eval_simps)
  show ?thesis
    using run_failure_keeps_previous [where inp = "\<lparr>upload = Some example_frame,
      form = example_form\<lparr>overlap_pct := 5\<rparr>, run_clicked = True, reset_clicked = False\<rparr>"
      and g = example_frame and s = example_session and rs = example_rng and e = ParameterError
      and a = "\<lparr>arg_time_key = Some ''t'', arg_time_threshold = 7200, arg_min_cluster_size = 2,
               arg_overlap_threshold = 5\<rparr>"] f r
    by simp
qed

text \<open>C18. Drawing the map draws one random number for each drawn cluster id that has no
  colour yet, and no other; afterwards every drawn id has a colour.\<close>

theorem render_draws_per_new_cluster:
  assumes "render tk s rs = (MapView ctr drawn tips, rs', s')"
  shows "used rs' = used rs + card ((\<lambda>d. cluster_id (fst d)) ` set drawn - dom (session_colors s))
         \<and> dom (session_colors s') = dom (session_colors s) \<union> (\<lambda>d. cluster_id (fst d)) ` set drawn"
proof -
  from render_MapView_style [OF assms] obtain c sts where "clustered s = Some c"
    and "drop_noise (crows c) \<noteq> []"
    and t: "style_rows (drop_noise (crows c)) rs s = (sts, rs', s')"
    and l: "length sts = length (drop_noise (crows c))"
    and d: "drawn = zip (drop_noise (crows c)) sts" and "ctr = map_center (drop_noise (crows c))"
    by blast
  from l have "fst ` set drawn = set (drop_noise (crows c))" by (metis d map_fst_zip set_map)
  then have "(\<lambda>d. cluster_id (fst d)) ` set drawn = cluster_id ` set (drop_noise (crows c))"
    by (metis image_image)
  with style_rows_used [OF t] show ?thesis by simp
qed

lemma example_render:
  "case render None \<lparr>clustered = Some example_clustered, colors = None\<rparr> example_rng of
     (MapView ctr drawn tips, rs', s') \<Rightarrow> used rs' = 2
   | _ \<Rightarrow> False"
  by code_simp

theorem render_draws_per_new_cluster_witness:
  "\<exists>ctr drawn tips rs' s'.
     render None \<lparr>clustered = Some example_clustered, colors = None\<rparr> example_rng
       = (MapView ctr drawn tips, rs', s')
     \<and> used rs' = 2 \<and> card ((\<lambda>d. cluster_id (fst d)) ` set drawn) = 2"
proof -
  obtain ctr drawn tips rs' s' where r: "render None \<lparr>clustered = Some example_clustered, colors = None\<rparr>
      example_rng = (MapView ctr drawn tips, rs', s')" and u: "used rs' = 2"
    using example_render by (rule MapView_obtain)
  from render_draws_per_new_cluster [OF r] u
  have "card ((\<lambda>d. cluster_id (fst d)) ` set drawn) = 2"
    by (simp add: example_rng_def session_colors_def)
  with r u show ?thesis by blast
qed

text \<open>C10. In every session a tab can reach, the stored frame is one the engine returned,
  so every \<open>cluster_id\<close> in it is a cluster id or \<open>-1\<close>: the filter of line 118
  removes exactly the noise rows.\<close>

theorem reachable_clustered_output:
  assumes "reachable s" and "clustered s = Some c"
  shows "(\<exists>g tk tt m ov. cluster_polygons g tk tt m ov = Inr c)
         \<and> (\<forall>r \<in> set (crows c). -1 \<le> cluster_id r)"
proof -
  from assms(1) have "stored_ok s"
  proof (induction rule: reachable.induct)
    case init
    then show ?case by (simp add: stored_ok_def empty_session_def)
  next
    case (rerun s rs inp v rs' s')
    then show ?case by (blast intro: run_script_stored_ok)
  qed
  with assms(2) obtain g tk tt m ov where "cluster_polygons g tk tt m ov = Inr c"
    by (auto simp: stored_ok_def)
  then show ?thesis using cluster_polygons_ids by blast
qed

lemma example_rerun:
  "case run_script \<lparr>upload = Some example_frame, form = example_form, run_clicked = True,
                    reset_clicked = False\<rparr> example_rng empty_session of
     (v, rs', s') \<Rightarrow> (case clustered s' of None \<Rightarrow> False | Some c \<Rightarrow> True)"
  by code_simp

theorem reachable_clustered_output_witness:
  "\<exists>v rs' s' c. run_script \<lparr>upload = Some example_frame, form = example_form, run_clicked = True,
                 reset_clicked = False\<rparr> example_rng empty_session = (v, rs', s')
     \<and> clustered s' = Some c \<and> (\<forall>r \<in> set (crows c). -1 \<le> cluster_id r)"
proof -
  obtain v rs' s' where r: "run_script \<lparr>upload = Some example_frame, form = example_form,
      run_clicked = True, reset_clicked = False\<rparr> example_rng empty_session = (v, rs', s')"
    by (rule prod_cases3)
  with example_rerun obtain c where c: "clustered s' = Some c"
    by (auto split: option.splits)
  have "rng_ok example_rng" by (simp add: rng_ok_def example_rng_def)
  then have "reachable s'" by (rule reachable.rerun [OF reachable.init _ r])
  from reachable_clustered_output [OF this c] r c show ?thesis by blast
qed

text \<open>C19. The map is centred among the drawn rows (lines 121--126): the centre's first
  coordinate, the latitude, lies between the least and the greatest \<open>y\<close> of the drawn
  rows' centroids, and its second, the longitude, between the least and greatest \<open>x\<close>.\<close>

theorem render_center_bounds:
  assumes "render tk s rs = (MapView ctr drawn tips, rs', s')"
  shows "Min ((\<lambda>d. snd (centroid (row_polygon (row (fst d))))) ` set drawn) \<le> fst ctr
         \<and> fst ctr \<le> Max ((\<lambda>d. snd (centroid (row_polygon (row (fst d))))) ` set drawn)
         \<and> Min ((\<lambda>d. fst (centroid (row_polygon (row (fst d))))) ` set drawn) \<le> snd ctr
         \<and> snd ctr \<le> Max ((\<lambda>d. fst (centroid (row_polygon (row (fst d))))) ` set drawn)"
proof -
  have ctr: "ctr = map_center (map fst drawn)" and ne: "drawn \<noteq> []"
    using render_MapView [OF assms] by auto
  have m: "set (map f (map fst drawn)) = (\<lambda>d. f (fst d)) ` set drawn" for f :: "crow \<Rightarrow> rat"
    by (simp add: image_image)
  from ne have ne': "map f (map fst drawn) \<noteq> []" for f :: "crow \<Rightarrow> rat" by simp
  show ?thesis
    using mean_bounds [OF ne' [of "\<lambda>r. snd (centroid (row_polygon (row r)))"]]
          mean_bounds [OF ne' [of "\<lambda>r. fst (centroid (row_polygon (row r)))"]]
    unfolding m by (simp add: ctr map_center_def)
qed

theorem render_center_bounds_witness:
  "\<exists>ctr drawn tips rs' s'.
     render None \<lparr>clustered = Some example_clustered, colors = None\<rparr> example_rng
       = (MapView ctr drawn tips, rs', s')
     \<and> Min ((\<lambda>d. snd (centroid (row_polygon (row (fst d))))) ` set drawn) \<le> fst ctr
     \<and> snd ctr \<le> Max ((\<lambda>d. fst (centroid (row_polygon (row (fst d))))) ` set drawn)"
proof -
  obtain ctr drawn tips rs' s' where r: "render None \<lparr>clustered = Some example_clustered, colors = None\<rparr>
      example_rng = (MapView ctr drawn tips, rs', s')"
    using example_render by (rule MapView_obtain)
  from render_center_bounds [OF r] r show ?thesis by blast
qed

text \<open>C23. No colour is ever stored for noise: in every session a tab can reach, every key of
  \<open>session_state["colors"]\<close> is a non-negative cluster id, since \<open>style_fn\<close> is only
  applied to the rows the filter of line 118 keeps.\<close>

theorem reachable_colors_nonneg:
  assumes "reachable s"
  shows "\<forall>k \<in> dom (session_colors s). 0 \<le> k"
proof -
  from assms have "dom (session_colors s) \<subseteq> {k. 0 \<le> k}"
  proof (induction rule: reachable.induct)
    case init
    then show ?case by (simp add: empty_session_def session_colors_def)
  next
    case (rerun s rs inp v rs' s')
    from rerun.hyps(3) rerun.IH show ?case
    proof (rule run_script_invariant)
      show "dom (session_colors (reset_session s1)) \<subseteq> {k. 0 \<le> k}" for s1
        by (simp add: reset_session_def session_colors_def)
      show "dom (session_colors s2) \<subseteq> {k. 0 \<le> k}"
        if "dom (session_colors s1) \<subseteq> {k. 0 \<le> k}" and "run_analysis g a s1 = Inr s2" for g a s1 s2
        using that run_analysis_Inr [OF that(2)] by (simp add: session_colors_def)
      show "dom (session_colors s2') \<subseteq> {k. 0 \<le> k}"
        if "dom (session_colors s2) \<subseteq> {k. 0 \<le> k}" and "render tk s2 rs = (v2, rs2, s2')"
        for tk s2 v2 rs2 s2'
        using that render_dom_colors [OF that(2)] by blast
    qed
  qed
  then show ?thesis by blast
qed

theorem reachable_colors_nonneg_witness:
  "\<exists>v rs' s'. run_script \<lparr>upload = Some example_frame, form = example_form, run_clicked = True,
                 reset_clicked = False\<rparr> example_rng empty_session = (v, rs', s')
     \<and> (\<forall>k \<in> dom (session_colors s'). 0 \<le> k)"
proof -
  obtain v rs' s' where r: "run_script \<lparr>upload = Some example_frame, form = example_form,
      run_clicked = True, reset_clicked = False\<rparr> example_rng empty_session = (v, rs', s')"
    by (rule prod_cases3)
  have "rng_ok example_rng" by (simp add: rng_ok_def example_rng_def)
  then have "reachable s'" by (rule reachable.rerun [OF reachable.init _ r])
  from reachable_colors_nonneg [OF this] r show ?thesis by blast
qed

text \<open>C24. Reset and Run in the same rerun start a fresh palette: when the map is drawn, the
  session holds colours for exactly the drawn cluster ids, and one random number was drawn
  for each of them.\<close>

theorem reset_run_fresh_colors:
  assumes "upload inp = Some g" and "form_args (columns g) (form inp) = Inr a"
    and "run_clicked inp" and "reset_clicked inp"
    and "run_script inp rs s = (MapView ctr drawn tips, rs', s')"
  shows "dom (session_colors s') = (\<lambda>d. cluster_id (fst d)) ` set drawn
         \<and> used rs' = used rs + card ((\<lambda>d. cluster_id (fst d)) ` set drawn)"
proof -
  from assms(5) assms(1-4) obtain s2 where h: "run_analysis g a (reset_session s) = Inr s2"
    and r: "render (select_time_key (datetime_cols (columns g)) (time_pick (form inp))) s2 rs
            = (MapView ctr drawn tips, rs', s')"
    by (auto simp: run_script_def Let_def split: sum.splits)
  from run_analysis_Inr [OF h] have e: "session_colors s2 = Map.empty"
    by (simp add: session_colors_def reset_session_def)
  from render_MapView_style [OF r] obtain c sts where "clustered s2 = Some c"
    and "drop_noise (crows c) \<noteq> []"
    and t: "style_rows (drop_noise (crows c)) rs s2 = (sts, rs', s')"
    and l: "length sts = length (drop_noise (crows c))"
    and d: "drawn = zip (drop_noise (crows c)) sts" and "ctr = map_center (drop_noise (crows c))"
    by blast
  from l have "fst ` set drawn = set (drop_noise (crows c))" by (metis d map_fst_zip set_map)
  then have "(\<lambda>d. cluster_id (fst d)) ` set drawn = cluster_id ` set (drop_noise (crows c))"
    by (metis image_image)
  with style_rows_used [OF t] e show ?thesis by simp
qed

lemma example_reset_run:
  "case run_script \<lparr>upload = Some example_frame, form = example_form, run_clicked = True,
                    reset_clicked = True\<rparr> example_rng example_session of
     (MapView ctr drawn tips, rs', s') \<Rightarrow> True
   | _ \<Rightarrow> False"
  by code_simp

theorem reset_run_fresh_colors_witness:
  "\<exists>ctr drawn tips rs' s'. run_script \<lparr>upload = Some example_frame, form = example_form,
       run_clicked = True, reset_clicked = True\<rparr> example_rng example_session
       = (MapView ctr drawn tips, rs', s')
     \<and> dom (session_colors s') = (\<lambda>d. cluster_id (fst d)) ` set drawn"
proof -
  let ?inp = "\<lparr>upload = Some example_frame, form = example_form, run_clicked = True,
               reset_clicked = True\<rparr>"
  obtain ctr drawn tips rs' s' where r: "run_script ?inp example_rng example_session
      = (MapView ctr drawn tips, rs', s')"
    using example_reset_run by (rule MapView_obtain)
  have f: "form_args (columns example_frame) example_form
             = Inr \<lparr>arg_time_key = Some ''t'', arg_time_threshold = 7200, arg_min_cluster_size = 2,
                    arg_overlap_threshold = 0\<rparr>" by code_simp
  from reset_run_fresh_colors [of ?inp example_frame, OF _ _ _ _ r] f r
  show ?thesis by auto
qed

text \<open>C26. The rerun loop reaches a fixpoint after one step. Streamlit reruns the script
  with the same widget state, for instance on every interaction with the map. Any rerun
  without Reset, run again from the state it left, returns the same view and changes
  neither the session nor the random state. Pressing Run again recomputes the same frame.\<close>

theorem rerun_fixpoint:
  assumes "\<not> reset_clicked inp" and "run_script inp rs s = (v, rs', s')"
  shows "run_script inp rs' s' = (v, rs', s')"
proof (cases "upload inp")
  case None
  with assms(2) show ?thesis by (simp add: run_script_def)
next
  case (Some g)
  show ?thesis
  proof (cases "form_args (columns g) (form inp)")
    case (Inl e)
    with assms(2) Some show ?thesis by (simp add: run_script_def)
  next
    case (Inr a)
    let ?tk = "select_time_key (datetime_cols (columns g)) (time_pick (form inp))"
    show ?thesis
    proof (cases "run_clicked inp")
      case False
      with assms Some Inr have "render ?tk s rs = (v, rs', s')" by (simp add: run_script_def Let_def)
      with render_idem [OF this] assms(1) False Some Inr show ?thesis
        by (simp add: run_script_def Let_def)
    next
      case True
      show ?thesis
      proof (cases "run_analysis g a s")
        case (Inl e)
        with assms Some Inr True show ?thesis by (simp add: run_script_def Let_def)
      next
        case (Inr s2)
        from run_analysis_Inr [OF Inr] obtain c where c: "clustered s2 = Some c"
          and cp: "cluster_polygons g (arg_time_key a) (arg_time_threshold a) (arg_min_cluster_size a)
                     (of_int (arg_overlap_threshold a)) = Inr c" by blast
        from Inr have s2: "s2 = s\<lparr>clustered := Some c\<rparr>"
          using cp by (simp add: run_analysis_def)
        from assms Some \<open>form_args (columns g) (form inp) = Inr a\<close> True Inr
        have r: "render ?tk s2 rs = (v, rs', s')" by (simp add: run_script_def Let_def)
        from render_facts [OF r] c have "clustered s' = Some c" by simp
        then have "run_analysis g a s' = Inr s'" using cp by (simp add: run_analysis_def)
        moreover from render_idem [OF r] s2 have "render ?tk s' rs' = (v, rs', s')" by simp
        ultimately show ?thesis
          using assms(1) Some \<open>form_args (columns g) (form inp) = Inr a\<close> True
          by (simp add: run_script_def Let_def)
      qed
    qed
  qed
qed

theorem rerun_fixpoint_witness:
  "\<exists>v rs' s'. run_script \<lparr>upload = Some example_frame, form = example_form, run_clicked = True,
                 reset_clicked = False\<rparr> example_rng empty_session = (v, rs', s')
     \<and> run_script \<lparr>upload = Some example_frame, form = example_form, run_clicked = True,
                 reset_clicked = False\<rparr> rs' s' = (v, rs', s')"
proof -
  obtain v rs' s' where r: "run_script \<lparr>upload = Some example_frame, form = example_form,
      run_clicked = True, reset_clicked = False\<rparr> example_rng empty_session = (v, rs', s')"
    by (rule prod_cases3)
  have "\<not> reset_clicked \<lparr>upload = Some example_frame, form = example_form, run_clicked = True,
      reset_clicked = False\<rparr>" by simp
  from rerun_fixpoint [OF this r] r show ?thesis by blast
qed

end
