(* ===== verification/App_Page.thy ===== *)
theory App_Page
  imports App_Session
begin

text \<open>
  The page a rerun of \<open>src/app.py\<close> writes, top to bottom, as a list of blocks: the page
  title (lines 8--9) and the welcome text (lines 20--33); once a file is uploaded, the
  preview of its first five rows and the label of the period widgets (lines 41--53);
  when the results section runs, the first ten rows of the stored frame and the map's
  subheader (lines 103--110); then the body \<open>run_script\<close> produces (the form without
  results, the \<open>st.info\<close> message or the map, or the exception that stopped the
  rerun); and the footer (lines 151--159). The widgets themselves are the input of the
  rerun (\<open>app_input\<close>), and \<open>gpd.read_file\<close> (line 39) is the file parser the app
  calls: the uploaded frame is the input, not a block.

  The lemmas say when the results section runs: exactly on a rerun that got past the
  form and the handlers with a frame in the session.
\<close>

datatype block =
    PageTitle
  | Intro
  | Heading string
  | Markdown string
  | Preview "column list" "gfeature list"
  | Table "column list" "crow list"
  | Body view
  | Footer

text \<open>Lines 38--53: written as soon as a file is uploaded, before the period is computed,
  so also on a rerun that then crashes. \<open>gdf.head(5)\<close> is the first five rows.\<close>

definition upload_blocks :: "gdf option \<Rightarrow> block list" where
  "upload_blocks u =
     (case u of
        None \<Rightarrow> []
      | Some g \<Rightarrow> [Heading ''Preview of uploaded data'', Preview (columns g) (take 5 (rows g)),
                   Markdown ''**Cluster period length**''])"

text \<open>Lines 103--110: when the session holds a frame, its first ten rows as the engine
  returned them (noise rows and datetime columns included: the conversion of lines
  112--115 and the filter of line 118 apply to the copy the map draws), and the map's
  subheader. The results section has run exactly when the body is the \<open>st.info\<close>
  message, the map, or folium's \<open>AssertionError\<close>, which only the map's rendering raises
  and which comes after the table.\<close>

definition results_shown :: "view \<Rightarrow> bool" where
  "results_shown v =
     (case v of NoClusters \<Rightarrow> True | MapView ctr drawn tips \<Rightarrow> True
      | Crashed AssertionError \<Rightarrow> True | _ \<Rightarrow> False)"

definition results_blocks :: "cgdf \<Rightarrow> block list" where
  "results_blocks c =
     [Heading ''Clustered result (first 10 rows)'', Table (ccolumns c) (take 10 (crows c)),
      Heading ''Clustered Polygons Map'']"

text \<open>Lines 8--159. An exception stops the script before the footer.\<close>

definition page :: "app_input \<Rightarrow> rng \<Rightarrow> session \<Rightarrow> block list \<times> rng \<times> session" where
  "page inp rs s =
     (case run_script inp rs s of
        (v, rs', s') \<Rightarrow>
          ([PageTitle, Intro] @ upload_blocks (upload inp)
           @ (case clustered s' of
                None \<Rightarrow> []
              | Some c \<Rightarrow> if results_shown v then results_blocks c else [])
           @ [Body v] @ (case v of Crashed e \<Rightarrow> [] | _ \<Rightarrow> [Footer]), rs', s'))"

section \<open>When the results section runs\<close>

lemma render_results_shown:
  assumes "render tk s rs = (v, rs', s')"
  shows "results_shown v \<longleftrightarrow> clustered s \<noteq> None"
  using assms by (auto simp: render_def results_shown_def Let_def split: option.splits if_splits prod.splits)

text \<open>The engine raises \<open>ParameterError\<close> or \<open>InputError\<close>, never folium's assertion.\<close>

lemma handled_not_AssertionError:
  "handled inp g a s = Inl e \<Longrightarrow> e \<noteq> AssertionError"
  by (auto simp: handled_def run_analysis_def cluster_polygons_spec Let_def split: if_splits sum.splits)

text \<open>The body shows results only on a rerun that got past the form and the handlers and
  rendered a session holding a frame; rendering keeps that frame.\<close>

lemma run_script_results:
  assumes "run_script inp rs s = (v, rs', s')" and "results_shown v"
  shows "\<exists>g a s2 tk c. upload inp = Some g \<and> form_args (columns g) (form inp) = Inr a
           \<and> handled inp g a s = Inr s2 \<and> render tk s2 rs = (v, rs', s')
           \<and> clustered s2 = Some c \<and> clustered s' = Some c"
proof (cases "upload inp")
  case None
  with assms show ?thesis by (simp add: run_script_def results_shown_def)
next
  case (Some g)
  show ?thesis
  proof (cases "form_args (columns g) (form inp)")
    case (Inl e)
    then have "e = KeyError"
      by (auto simp: form_args_def cluster_period_def Let_def split: option.splits sum.splits)
    with Inl assms Some show ?thesis by (auto simp: run_script_def results_shown_def)
  next
    case (Inr a)
    show ?thesis
    proof (cases "handled inp g a s")
      case (Inl e)
      with assms run_script_handled [OF Some Inr] handled_not_AssertionError [OF Inl]
      show ?thesis by (cases e) (auto simp: results_shown_def)
    next
      case (Inr s2)
      let ?tk = "select_time_key (datetime_cols (columns g)) (time_pick (form inp))"
      from assms(1) run_script_handled [OF Some \<open>form_args _ _ = Inr a\<close>] Inr
      have r: "render ?tk s2 rs = (v, rs', s')" by simp
      from render_results_shown [OF r] assms(2) obtain c where c: "clustered s2 = Some c" by blast
      with render_facts [OF r] have "clustered s' = Some c" by simp
      with Some \<open>form_args _ _ = Inr a\<close> Inr r c show ?thesis by blast
    qed
  qed
qed

end
