(* ===== verification/Labeler_Concurrent.thy ===== *)
theory Labeler_Concurrent
  imports Labeler_Spec
begin

text \<open>
  The concurrent labelling that the spec's section 5 permits: independent components
  discovered from disjoint seed features may be processed concurrently if the id order is
  reconciled afterwards by seed index. Every feature is handed to a worker, in any order.
  A worker traverses the neighbour graph from its feature with labels of its own, so
  workers share no state, and it reports the component only when its feature is the
  least member, the component's seed; each component is thus reported once. The
  reconciliation numbers the large components by the index of their seed: a component's
  id is the number of reported large components with a smaller seed. Every feature takes
  the id of the reported component that contains it, or \<open>-1\<close>.

  The theorem \<open>label_concurrent_spec\<close>: for every order of the workers, this gives the
  ids of the specification, and so of the sequential loop (\<open>label_clusters_spec\<close>).
\<close>

definition comp_from :: "nat \<Rightarrow> edge list \<Rightarrow> fid \<Rightarrow> fid list" where
  "comp_from n es s = snd (bfs (adjacency n es) [s] ((replicate n Unvisited)[s := Visited]) [])"

definition worker :: "nat \<Rightarrow> edge list \<Rightarrow> fid \<Rightarrow> (fid \<times> fid list) option" where
  "worker n es s =
     (let mem = comp_from n es s in if list_all (\<lambda>j. s \<le> j) mem then Some (s, mem) else None)"

definition reconcile :: "nat \<Rightarrow> int \<Rightarrow> (fid \<times> fid list) list \<Rightarrow> cid list" where
  "reconcile n m rs =
     (let big = map fst (filter (\<lambda>r. m \<le> int (length (snd r))) rs)
      in map (\<lambda>j. case find (\<lambda>r. j \<in> set (snd r)) rs of
                    None \<Rightarrow> -1
                  | Some r \<Rightarrow>
                      if m \<le> int (length (snd r)) then int (length (filter (\<lambda>s. s < fst r) big))
                      else -1)
             [0..<n])"

definition label_concurrent :: "nat \<Rightarrow> int \<Rightarrow> edge list \<Rightarrow> fid list \<Rightarrow> error + cid list" where
  "label_concurrent n m es order =
     (if \<not> edges_valid n es then Inl MalformedRelation
      else Inr (reconcile n m (List.map_filter (worker n es) order)))"

section \<open>A worker\<close>

lemma comp_from_component:
  assumes "edges_valid n es" and "s < n"
  shows "set (comp_from n es s) = component n es s \<and> distinct (comp_from n es s)"
proof -
  have ctx: "bfs_ctx n es s (replicate n Unvisited)"
    using assms(1) by (simp add: bfs_ctx_def)
  obtain ls1 mem where r: "bfs (adjacency n es) [s] ((replicate n Unvisited)[s := Visited]) [] = (ls1, mem)"
    by (cases "bfs (adjacency n es) [s] ((replicate n Unvisited)[s := Visited]) []")
  from bfs_seed [OF ctx assms(2) r] r show ?thesis by (simp add: comp_from_def)
qed

text \<open>A feature is a seed exactly when no member of its component is smaller.\<close>

lemma is_seed_iff_least:
  assumes "s < n"
  shows "is_seed n es s \<longleftrightarrow> (\<forall>j \<in> component n es s. s \<le> j)"
proof
  assume "is_seed n es s"
  then have "seed_of n es s = s" by (rule seed_of_seed)
  then show "\<forall>j \<in> component n es s. s \<le> j"
    by (metis Min_le finite_component seed_of_def)
next
  assume least: "\<forall>j \<in> component n es s. s \<le> j"
  have "\<not> connected es k s" if "k < s" for k
  proof
    assume "connected es k s"
    then have "k \<in> component n es s"
      using that assms by (auto simp: component_def intro: connected_sym)
    with least that show False by fastforce
  qed
  with assms show "is_seed n es s" by (simp add: is_seed_def)
qed

lemma worker_eq:
  assumes "edges_valid n es" and "s < n"
  shows "worker n es s = (if is_seed n es s then Some (s, comp_from n es s) else None)"
  using comp_from_component [OF assms] is_seed_iff_least [OF assms(2)]
  by (simp add: worker_def list_all_iff)

text \<open>The workers' reports: one per seed, in the order the workers were started.\<close>

lemma map_filter_worker:
  assumes "edges_valid n es" and "\<forall>s \<in> set order. s < n"
  shows "List.map_filter (worker n es) order
           = map (\<lambda>s. (s, comp_from n es s)) (filter (is_seed n es) order)"
  using assms(2) by (induction order) (simp_all add: worker_eq [OF assms(1)])

section \<open>Reconciliation\<close>

lemma length_comp_from:
  "edges_valid n es \<Longrightarrow> s < n \<Longrightarrow> length (comp_from n es s) = card (component n es s)"
  using comp_from_component by (metis distinct_card)

text \<open>The reported component that contains a feature is the one of its seed.\<close>

lemma find_report:
  assumes "edges_valid n es" and "set order = {0..<n}" and "j < n"
  shows "find (\<lambda>r. j \<in> set (snd r)) (map (\<lambda>s. (s, comp_from n es s)) (filter (is_seed n es) order))
           = Some (seed_of n es j, comp_from n es (seed_of n es j))"
proof -
  let ?rs = "map (\<lambda>s. (s, comp_from n es s)) (filter (is_seed n es) order)"
  let ?s = "seed_of n es j"
  have sn: "?s < n" using seed_of_in [OF assms(3)] by (simp add: component_def)
  have member: "j \<in> set (comp_from n es s) \<longleftrightarrow> s = ?s" if "is_seed n es s" for s
  proof -
    from that have s: "s < n" by (simp add: is_seed_def)
    have "j \<in> component n es s \<longleftrightarrow> s = ?s"
    proof
      assume "j \<in> component n es s"
      then have "connected es s j" by (simp add: component_def)
      then have "?s = seed_of n es s" by (rule seed_of_eq)
      with seed_of_seed [OF that] show "s = ?s" by simp
    next
      assume "s = ?s"
      with seed_of_connected [OF assms(3)] assms(3) show "j \<in> component n es s"
        by (auto simp: component_def intro: connected_sym)
    qed
    with comp_from_component [OF assms(1) s] show ?thesis by simp
  qed
  have "(?s, comp_from n es ?s) \<in> set ?rs"
    using seed_of_is_seed [OF assms(3)] sn assms(2) by auto
  then have "find (\<lambda>r. j \<in> set (snd r)) ?rs \<noteq> None"
    using member [OF seed_of_is_seed [OF assms(3)]] by (auto simp: find_None_iff)
  then obtain r where f: "find (\<lambda>r. j \<in> set (snd r)) ?rs = Some r" by blast
  then have "r \<in> set ?rs" and "j \<in> set (snd r)"
    by (metis (no_types, lifting) find_Some_iff nth_mem)+
  then show ?thesis using f member by auto
qed

text \<open>The id of a reported large component: the number of large seeds before it.\<close>

lemma count_large_seeds:
  assumes "edges_valid n es" and "set order = {0..<n}" and "distinct order"
  shows "length (filter (\<lambda>s. s < x)
            (map fst (filter (\<lambda>r. m \<le> int (length (snd r)))
               (map (\<lambda>s. (s, comp_from n es s)) (filter (is_seed n es) order)))))
         = rank (large_seeds n es m) x"
proof -
  let ?big = "filter (\<lambda>s. s < x) (filter (large n es m) (filter (is_seed n es) order))"
  have l: "m \<le> int (length (comp_from n es s)) \<longleftrightarrow> large n es m s" if "s \<in> set order" for s
    using that assms(2) length_comp_from [OF assms(1)] by (simp add: large_def)
  have "map fst (filter (\<lambda>r. m \<le> int (length (snd r)))
          (map (\<lambda>s. (s, comp_from n es s)) (filter (is_seed n es) order)))
        = filter (large n es m) (filter (is_seed n es) order)"
    using l by (induction order) auto
  moreover have "length ?big = card (set ?big)"
    by (rule distinct_card [symmetric]) (simp add: assms(3))
  moreover have "set ?big = {y \<in> large_seeds n es m. y < x}"
    using assms(2) by (auto simp: large_seeds_def is_seed_def)
  ultimately show ?thesis by (simp add: rank_def)
qed

section \<open>Refinement\<close>

theorem label_concurrent_spec:
  assumes "set order = {0..<n}" and "distinct order"
  shows "label_concurrent n m es order =
           (if edges_valid n es then Inr (map (spec_cid n es m) [0..<n]) else Inl MalformedRelation)"
proof (cases "edges_valid n es")
  case True
  have b: "\<forall>s \<in> set order. s < n" using assms(1) by simp
  have "reconcile n m (map (\<lambda>s. (s, comp_from n es s)) (filter (is_seed n es) order))
        = map (spec_cid n es m) [0..<n]"
  proof (rule nth_equalityI)
    fix j assume "j < length (reconcile n m (map (\<lambda>s. (s, comp_from n es s)) (filter (is_seed n es) order)))"
    then have j: "j < n" by (simp add: reconcile_def Let_def)
    let ?s = "seed_of n es j"
    have sn: "?s < n" using seed_of_in [OF j] by (simp add: component_def)
    have len: "m \<le> int (length (comp_from n es ?s)) \<longleftrightarrow> large n es m j"
      using length_comp_from [OF True sn] large_seed_of [OF j] by (simp add: large_def)
    show "reconcile n m (map (\<lambda>s. (s, comp_from n es s)) (filter (is_seed n es) order)) ! j
          = map (spec_cid n es m) [0..<n] ! j"
      using j find_report [OF True assms(1) j] len count_large_seeds [OF True assms]
      by (simp add: reconcile_def Let_def spec_cid_rank spec_cid_noise [symmetric] del: spec_cid_noise)
  qed (simp add: reconcile_def Let_def)
  with True show ?thesis by (simp add: label_concurrent_def map_filter_worker [OF True b])
qed (simp add: label_concurrent_def)

end
