(* ===== verification/Spec2Isabelle.thy ===== *)
theory Spec2Isabelle
  imports App_Page Labeler_Concurrent
begin

text \<open>
  \<^bold>\<open>A verification development of the ST-PolygonCluster demo app.\<close>

  \<^emph>\<open>The program.\<close> \<open>src/app.py\<close> is a Streamlit script. Streamlit reruns it from the
  top on every interaction, and \<open>st.session_state\<close> carries state from one rerun to the
  next. A rerun does the following:
  \<^item> it reads an uploaded GeoJSON file into a frame (lines 36--43);
  \<^item> it offers the object and datetime columns as the time column (lines 45--51);
  \<^item> it reads a period value and unit (lines 53--61), a minimum cluster size (lines
    63--71) and an overlap percentage (lines 72--80);
  \<^item> on Reset it drops the session keys \<open>"clustered"\<close> and \<open>"colors"\<close> (lines 89--91);
  \<^item> on Run analysis it calls the engine \<open>cluster_polygons\<close> and stores the result
    (lines 93--100);
  \<^item> it draws the stored frame's non-noise rows on a folium map (lines 102--149). The map
    colours each row through \<open>style_fn\<close>, which asks \<open>get_color\<close> (lines 12--18) for
    the cluster's persistent random colour.

  The engine, \<open>st_polygoncluster\<close>, is not part of the repository. It is modelled from
  its specification (\<open>spec.md\<close>): a geometry overlap evaluator, a temporal proximity
  evaluator, a spatial index, a neighbour graph builder and a cluster labeller.

  \<^emph>\<open>Theories and what they model.\<close>
  \<^item> \<open>Prelude\<close>: the model's type names (feature ids, cluster ids, seconds, columns as a
    name and a dtype kind, edges), the error type (\<open>KeyError\<close>, folium's
    \<open>AssertionError\<close>, \<open>ParameterError\<close>, \<open>InputError\<close>, \<open>MalformedRelation\<close>)
    and shared list lemmas.
  \<^item> \<open>App_Params\<close> (\<open>src/app.py\<close> lines 45--80, 94--100): \<open>datetime_cols\<close>,
    \<open>select_time_key\<close> (the selectbox with index 0), \<open>engine_time_key\<close> (line 96),
    \<open>unit_multipliers\<close> and \<open>cluster_period\<close> (an unknown unit is \<open>Inl KeyError\<close>), and
    the widget ranges \<open>form_ok\<close>. The function \<open>form_args\<close> computes the engine call's
    arguments from a \<open>form\<close>, the record of the widget values.
  \<^item> \<open>Geometry\<close>, \<open>Temporal\<close>, \<open>Spatial_Index\<close>, \<open>Neighbor_Graph\<close>, \<open>Labeler\<close>,
    \<open>Labeler_Spec\<close>, \<open>Labeler_Concurrent\<close> and \<open>Engine\<close> model the engine from
    its spec.
    \<^item> A polygon is a finite set of unit raster cells, so areas and the IoU and
      intersection-over-minimum scores are exact rationals.
    \<^item> A timestamp is a tick count with its resolution and the UTC offset of its zone.
      \<open>instant\<close> normalises it to seconds since the UTC epoch, and the evaluator compares
      instants.
    \<^item> The index sorts bounding boxes by their left edge and sweeps them.
    \<^item> The builder emits the pairs \<open>i < j\<close> that the index returns and that pass both the
      overlap test and the time test.
    \<^item> The labeller is the spec's UNVISITED/VISITED/LABELED traversal. It is a breadth-first
      search, \<open>bfs\<close>, written as a \<open>function\<close> whose termination measure is twice the
      number of unvisited features plus the length of the queue. Ids are issued in seed
      order, with \<open>-1\<close> for a component smaller than the minimum size.
    \<^item> \<open>Labeler_Concurrent\<close> is the concurrent labelling the spec's section 5 permits:
      a worker per feature, in any order, each traversing with labels of its own and
      reporting the component it seeds; \<open>reconcile\<close> numbers the large components by
      seed index.
    \<^item> \<open>cluster_polygons\<close> checks the parameters first, then the input, and then
      returns the frame with a \<open>cluster_id\<close> column. A row without a geometry, or whose
      polygon has no cell (a zero-area polygon), has an invalid geometry: an input error
      under the spec's section 7(a), so no geometry warning of 7(c) arises.
  \<^item> \<open>Colors\<close> (\<open>src/app.py\<close> line 17) holds the colour strings:
    \<^item> \<open>hex_digits\<close> and \<open>format_color\<close>, which write \<open>'#{:06x}'\<close> as Python does;
    \<^item> \<open>parse_hex\<close> and \<open>valid_color\<close>, which read a colour back.
  \<^item> \<open>App_Session\<close> (\<open>src/app.py\<close> lines 12--18, 36--149) models the rest of the app.
    \<^item> The session is a record with an optional field per key.
    \<^item> Python's \<open>random\<close> is the record \<open>rng\<close>: a draw sequence and a counter.
      \<open>randint\<close> reads the next draw.
    \<^item> The colour code is \<open>get_color\<close>, which formats its random value with
      \<open>format_color\<close> from \<open>Colors\<close>.
    \<^item> The Reset handler is \<open>reset_session\<close> and the Run handler is \<open>run_analysis\<close>. An
      engine exception is an \<open>Inl\<close>, which ends the rerun.
    \<^item> The results section is \<open>render\<close>, built from \<open>display_columns\<close>, \<open>drop_noise\<close>,
      \<open>map_center\<close>, \<open>style_fn\<close>, \<open>style_rows\<close> and \<open>tooltip_fields\<close>. \<open>style_rows\<close>
      applies \<open>style_fn\<close> to the rows in frame order, as folium does. Folium's
      \<open>GeoJsonTooltip\<close> asserts that every tooltip field is a property of the GeoJSON
      features (\<open>feature_properties\<close>: the columns but \<open>geometry\<close>); when it is not
      (\<open>tooltip_valid\<close>), rendering raises \<open>AssertionError\<close>.
    \<^item> One whole rerun is \<open>run_script\<close>. The inductive predicate \<open>reachable\<close> holds
      of every session that a sequence of reruns can produce from the empty session.
  \<^item> \<open>App_Page\<close> (\<open>src/app.py\<close> lines 8--159) models the page a rerun writes as a list
    of blocks (\<open>page\<close>): title, welcome text, the preview of the first five uploaded rows
    (\<open>upload_blocks\<close>), the first ten stored rows when the results section runs
    (\<open>results_blocks\<close>), the body \<open>run_script\<close> produces, and the footer, which an
    exception prevents.
  \<^item> This theory states the properties that join the app to the engine.

  \<^emph>\<open>What is proved.\<close>
  \<^item> The engine refines its spec.
    \<^item> The index query returns exactly the boxes that meet the query box
      (\<open>query_build_index\<close>).
    \<^item> The builder's edges are the neighbour relation restricted to pairs whose bounding
      boxes meet (\<open>set_build_edges\<close>), which is the whole relation for a positive
      threshold.
    \<^item> The labelling loop computes the specification \<open>spec_label\<close> (\<open>label_clusters_spec\<close>).
      The proof carries an invariant through the traversal \<open>bfs_inv\<close> and through the
      outer loop \<open>label_inv\<close>.
    \<^item> Two rows of large components get the same id exactly when they are connected, and
      a row is noise exactly when its component is small.
    \<^item> The ids of clusters are dense from 0 and issued in the order of the components'
      seeds (\<open>spec_cid_dense\<close>, \<open>spec_cid_order\<close>), and there are at most \<open>n / m\<close>
      of them (\<open>card_large_seeds_bound\<close>).
    \<^item> The concurrent labeller of section 5 gives the sequential results
      (\<open>label_concurrent_spec\<close>).
    \<^item> Each undirected pair is an edge at most once, so there are at most
      \<open>n (n - 1) / 2\<close> edges (\<open>build_edges_bound\<close>).
  \<^item> For the app, the properties are:
    \<^item> C1--C7, a run of the engine from the app:
      \<^item> C1, the refinement of Run analysis;
      \<^item> C2, noise exactly for small components;
      \<^item> C3, shared ids exactly for connected rows;
      \<^item> C4, dense ids;
      \<^item> C5, ids in discovery order;
      \<^item> C6, every non-zero slider value rejected;
      \<^item> C7, the edges at 0\<percent> overlap;
    \<^item> C8, what the map draws;
    \<^item> C9 and C10, invariants of every reachable session:
      \<^item> every stored colour is well formed;
      \<^item> the stored frame is an engine output;
    \<^item> C11--C14, colours and errors:
      \<^item> C11, persistence of \<open>get_color\<close>;
      \<^item> C12, the colour-format round trip;
      \<^item> C13, colours kept across runs;
      \<^item> C14, a failed run keeping the previous result;
    \<^item> C15 and C16, the form:
      \<^item> C15, totality of the form;
      \<^item> C16, the kinds of the time column;
    \<^item> C17, the Reset handler;
    \<^item> C18 and C19, bounds of the results section:
      \<^item> C18, one random draw per new cluster;
      \<^item> C19, the map centre among the drawn centroids;
    \<^item> C20, isolated rows;
    \<^item> C21, the outcome of Run analysis on a valid frame at 0\<percent> overlap: the
      no-cluster message when no component is large; otherwise the map, unless the time
      column selected is the frame's \<open>geometry\<close> column, when folium's tooltip
      assertion fails;
    \<^item> C22, invariance of a run under rewriting timestamps in another zone or precision;
    \<^item> C23, a third invariant of reachable sessions: no colour is stored for noise;
    \<^item> C24, Reset with Run in one rerun starts a fresh palette;
    \<^item> C25, bounds of the stored ids: at most \<open>n / m\<close> clusters;
    \<^item> C26, the rerun loop reaches a fixpoint after one rerun without Reset;
    \<^item> C27, the concurrent labeller of section 5 refines the sequential one: any worker
      order gives the ids the app stores (\<open>label_concurrent_spec\<close>);
    \<^item> C28, each undirected pair is an edge at most once, so a run has at most
      \<open>n (n - 1) / 2\<close> edges (\<open>build_edges_bound\<close>).

  \<^emph>\<open>Choices and bounds.\<close>
  \<^item> No fuel is used: every loop of the model is total. \<open>bfs\<close> terminates by its measure,
    the labelling loop is a fold over the feature ids, and \<open>style_rows\<close> recurses on the
    rows.
  \<^item> \<open>randint\<close> is an arbitrary sequence. \<open>rng_ok\<close> states its contract (every draw is
    at most \<open>0xFFFFFF\<close>), and only the colour invariant assumes it.
  \<^item> Attribute values are association lists from column names to timestamps.
  \<^item> The time column is the one picked in the form. A row without a value in that column
    has no timestamp, as the spec treats absent timestamps (section 2).
  \<^item> The concurrent labeller runs one worker per feature, in any order (a permutation
    of the features).
  \<^item> The frame's geometry column is named \<open>geometry\<close>, as \<open>gpd.read_file\<close> names it.
    Its dtype kind is \<open>O\<close>, so line 46 offers it as a time column.

  \<^emph>\<open>Not modelled.\<close>
  \<^item> The wording of the title, welcome text and footer, which \<open>page\<close> keeps only as block
    names, and the file reader \<open>gpd.read_file\<close>: the parsed frame is an input of
    \<open>run_script\<close>.
  \<^item> The pixels folium and \<open>st_folium\<close> draw. The effects they have on the app are
    the \<open>style_fn\<close> calls and the tooltip assertion, which are modelled.
  \<^item> Vector polygon clipping and self-intersecting rings, which the raster model cannot
    express. A polygon of zero area is a raster with no cell, and the engine rejects it
    as invalid geometry, so the map never draws one.
\<close>

text \<open>The edges the engine computes for a run started from the app: the arguments of the
  call at lines 94--100 of \<open>src/app.py\<close>, with the overlap percentage passed as it is.\<close>

abbreviation run_edges :: "gdf \<Rightarrow> run_args \<Rightarrow> edge list" where
  "run_edges g a \<equiv> engine_edges g (arg_time_key a) (arg_time_threshold a) (arg_min_cluster_size a)
                     (of_int (arg_overlap_threshold a))"

text \<open>The arguments the form of \<open>example_form\<close> yields for \<open>example_frame\<close>, a
  frame of two overlapping rasters ten hours apart, and a frame of two touching pairs of
  rasters far from each other.\<close>

definition example_args :: run_args where
  "example_args =
     \<lparr>arg_time_key = Some ''t'', arg_time_threshold = 7200, arg_min_cluster_size = 2,
      arg_overlap_threshold = 0\<rparr>"

definition apart_frame :: gdf where
  "apart_frame =
     \<lparr>columns = [(''t'', CHR ''M'')],
      rows = [\<lparr>geometry = Some [(0, 0), (1, 0)], props = [(''t'', utc_seconds 0)]\<rparr>,
              \<lparr>geometry = Some [(1, 0), (2, 0)], props = [(''t'', utc_seconds 36000)]\<rparr>]\<rparr>"

definition pairs_frame :: gdf where
  "pairs_frame =
     \<lparr>columns = [(''t'', CHR ''M'')],
      rows = [\<lparr>geometry = Some [(0, 0)], props = [(''t'', utc_seconds 0)]\<rparr>,
              \<lparr>geometry = Some [(1, 0)], props = [(''t'', utc_seconds 60)]\<rparr>,
              \<lparr>geometry = Some [(10, 10)], props = [(''t'', utc_seconds 0)]\<rparr>,
              \<lparr>geometry = Some [(11, 10)], props = [(''t'', utc_seconds 0)]\<rparr>]\<rparr>"

text \<open>The frame of \<open>example_frame\<close> with its first timestamp written at millisecond
  precision in the zone UTC+1: the same instant.\<close>

definition zoned_frame :: gdf where
  "zoned_frame =
     \<lparr>columns = [(''t'', CHR ''M''), (''geometry'', CHR ''O'')],
      rows = [\<lparr>geometry = Some [(0, 0)],
               props = [(''t'', \<lparr>ticks = 3600000, per_second = 1000, utc_offset = 3600\<rparr>)]\<rparr>,
              \<lparr>geometry = Some [(1, 0)], props = [(''t'', utc_seconds 60)]\<rparr>]\<rparr>"

section \<open>Shared facts about a run\<close>

lemma run_analysis_row:
  assumes "run_analysis g a s = Inr s'" and "clustered s' = Some c" and "j < length (crows c)"
  shows "length (crows c) = length (rows g) \<and> row (crows c ! j) = rows g ! j
         \<and> cluster_id (crows c ! j) =
             spec_cid (length (rows g)) (run_edges g a) (arg_min_cluster_size a) j"
proof -
  from assms(1) obtain c' where
    cp: "cluster_polygons g (arg_time_key a) (arg_time_threshold a) (arg_min_cluster_size a)
           (of_int (arg_overlap_threshold a)) = Inr c'" and "clustered s' = Some c'"
    using run_analysis_Inr by blast
  with assms(2) have cc: "c = c'" by simp
  let ?ids = "map (spec_cid (length (rows g)) (run_edges g a) (arg_min_cluster_size a))
                [0..<length (rows g)]"
  from cp have "c' = annotate g ?ids"
    by (simp add: cluster_polygons_spec split: if_splits)
  with cc assms(3) show ?thesis
    by (simp add: annotate_def)
qed

lemma features_of_nth:
  "i < length (rows g) \<Longrightarrow> geom (features_of g tk ! i) = row_polygon (rows g ! i)"
  by (simp add: features_of_def)

text \<open>A slider position other than 0 is a ratio above 1 for the engine.\<close>

lemma form_pct_ratio:
  assumes "form_ok f" and "0 < overlap_pct f" and "form_args cols f = Inr a"
  shows "1 < (of_int (arg_overlap_threshold a) :: rat)"
proof -
  from assms(1,2) have "5 \<le> overlap_pct f"
    by (auto simp: form_ok_def overlap_slider_ok_def)
  with form_args_Inr [OF assms(3)] show ?thesis by simp
qed

lemma run_analysis_ids:
  assumes "run_analysis g a s = Inr s'" and "clustered s' = Some c"
  shows "map cluster_id (crows c) =
           map (spec_cid (length (rows g)) (run_edges g a) (arg_min_cluster_size a))
               [0..<length (rows g)]"
proof -
  from assms(1) obtain c' where
    cp: "cluster_polygons g (arg_time_key a) (arg_time_threshold a) (arg_min_cluster_size a)
           (of_int (arg_overlap_threshold a)) = Inr c'" and "clustered s' = Some c'"
    using run_analysis_Inr by blast
  with assms(2) cp show ?thesis
    by (auto simp: cluster_polygons_spec cluster_ids_annotate split: if_splits)
qed

text \<open>C4. Ids are dense (spec, section 2): after a successful run the non-negative ids
  stored in the frame are exactly \<open>0\<close> to \<open>K - 1\<close>, where \<open>K\<close> is the number of
  connected components with at least the minimum number of rows (each counted once, by
  its seed, its lowest-indexed row).\<close>

theorem run_ids_dense:
  assumes "run_analysis g a s = Inr s'" and "clustered s' = Some c"
  shows "{k \<in> cluster_id ` set (crows c). 0 \<le> k} =
           int ` {0..<card (large_seeds (length (rows g)) (run_edges g a) (arg_min_cluster_size a))}"
proof -
  let ?n = "length (rows g)" and ?es = "run_edges g a" and ?m = "arg_min_cluster_size a"
  have "cluster_id ` set (crows c) = spec_cid ?n ?es ?m ` {0..<?n}"
    using arg_cong [OF run_analysis_ids [OF assms], of set] by simp
  moreover have "{k \<in> spec_cid ?n ?es ?m ` {0..<?n}. 0 \<le> k} = spec_cid ?n ?es ?m ` {j. j < ?n \<and> large ?n ?es ?m j}"
    using spec_cid_noise [of ?n ?es ?m] spec_cid_nonneg [of ?n ?es ?m] by force
  ultimately show ?thesis by (simp add: spec_cid_dense)
qed

text \<open>C5. Ids are issued in discovery order (spec, section 4.5): of two clustered rows,
  the one whose component's lowest-indexed row comes first has the smaller id.\<close>

theorem run_ids_discovery_order:
  assumes "run_analysis g a s = Inr s'" and "clustered s' = Some c"
    and "j < length (crows c)" and "k < length (crows c)"
    and "0 \<le> cluster_id (crows c ! j)" and "0 \<le> cluster_id (crows c ! k)"
  shows "cluster_id (crows c ! j) < cluster_id (crows c ! k) \<longleftrightarrow>
           seed_of (length (rows g)) (run_edges g a) j < seed_of (length (rows g)) (run_edges g a) k"
proof -
  let ?n = "length (rows g)" and ?es = "run_edges g a" and ?m = "arg_min_cluster_size a"
  from run_analysis_row [OF assms(1,2,3)] assms(3) have j: "j < ?n"
    and cj: "cluster_id (crows c ! j) = spec_cid ?n ?es ?m j" by auto
  from run_analysis_row [OF assms(1,2,4)] assms(4) have k: "k < ?n"
    and ck: "cluster_id (crows c ! k) = spec_cid ?n ?es ?m k" by auto
  from assms(5) cj have "large ?n ?es ?m j" using spec_cid_noise [of ?n ?es ?m j] by fastforce
  moreover from assms(6) ck have "large ?n ?es ?m k" using spec_cid_noise [of ?n ?es ?m k] by fastforce
  ultimately show ?thesis using spec_cid_order [OF j k] cj ck by simp
qed

text \<open>A run from a form the widgets can produce, at 0\<percent> overlap, on a frame with rows and
  a valid geometry in every row stores the frame labelled by the specification.\<close>

lemma run_analysis_valid:
  assumes "form_ok f" and "form_args (columns g) f = Inr a" and "overlap_pct f = 0"
    and "rows g \<noteq> []" and "list_all (\<lambda>r. geometry r \<noteq> None \<and> geometry r \<noteq> Some []) (rows g)"
  shows "run_analysis g a s =
           Inr (s\<lparr>clustered := Some (annotate g
             (map (spec_cid (length (rows g)) (run_edges g a) (arg_min_cluster_size a))
                  [0..<length (rows g)]))\<rparr>)"
proof -
  from form_args_params [OF assms(1,2)] assms(3)
  have p: "params_ok (arg_time_threshold a) (arg_min_cluster_size a) (of_int (arg_overlap_threshold a))"
    by (simp add: params_ok_def)
  from form_args_Inr [OF assms(2)] have "arg_time_key a = engine_time_key
      (select_time_key (datetime_cols (columns g)) (time_pick f))" by simp
  then have "input_ok g (arg_time_key a)"
    using assms(4,5) time_key_in_columns by (auto simp: input_ok_def split: option.splits)
  with p show ?thesis by (simp add: run_analysis_def cluster_polygons_spec)
qed

text \<open>The map of a labelled frame has no row exactly when no component is large.\<close>

lemma drop_noise_spec_empty:
  "drop_noise (crows (annotate g (map (spec_cid (length (rows g)) es m) [0..<length (rows g)]))) = []
   \<longleftrightarrow> \<not> (\<exists>j < length (rows g). large (length (rows g)) es m j)"
proof -
  let ?ids = "map (spec_cid (length (rows g)) es m) [0..<length (rows g)]"
  have len: "length (crows (annotate g ?ids)) = length (rows g)" by simp
  have "drop_noise (crows (annotate g ?ids)) = []
        \<longleftrightarrow> (\<forall>j < length (rows g). cluster_id (crows (annotate g ?ids) ! j) < 0)"
    unfolding drop_noise_def filter_empty_conv all_set_conv_all_nth len by (simp add: not_le)
  also have "\<dots> \<longleftrightarrow> (\<forall>j < length (rows g). \<not> large (length (rows g)) es m j)"
    by (auto simp: crows_annotate_nth spec_cid_eq)
  finally show ?thesis by blast
qed

section \<open>Properties of a clustering run\<close>

text \<open>C1. Refinement of Run analysis (lines 93--100 with the engine): the run fails with
  \<open>ParameterError\<close> when the call's parameters are out of range, else with
  \<open>InputError\<close> when the frame is unusable, and otherwise stores in the session the
  input frame, every row once and in order, with the \<open>cluster_id\<close> the labelling
  specification gives that row over the neighbour edges of the run.\<close>

theorem run_analysis_spec:
  "run_analysis g a s =
     (if \<not> params_ok (arg_time_threshold a) (arg_min_cluster_size a) (of_int (arg_overlap_threshold a))
      then Inl ParameterError
      else if \<not> input_ok g (arg_time_key a) then Inl InputError
      else Inr (s\<lparr>clustered := Some (annotate g
             (map (spec_cid (length (rows g)) (run_edges g a) (arg_min_cluster_size a))
                  [0..<length (rows g)]))\<rparr>))"
  by (simp add: run_analysis_def cluster_polygons_spec)

text \<open>C2. Noise threshold and minimum inclusion: after a successful run, a row is noise
  (\<open>-1\<close>) exactly when its connected component has fewer members than the minimum
  cluster size; a component of exactly that size is a cluster, with an id that is not
  negative.\<close>

theorem run_noise_iff_small:
  assumes "run_analysis g a s = Inr s'" and "clustered s' = Some c" and "j < length (crows c)"
  shows "(cluster_id (crows c ! j) = -1 \<longleftrightarrow>
            int (card (component (length (rows g)) (run_edges g a) j)) < arg_min_cluster_size a)
         \<and> (arg_min_cluster_size a \<le> int (card (component (length (rows g)) (run_edges g a) j))
            \<longrightarrow> 0 \<le> cluster_id (crows c ! j))"
  using run_analysis_row [OF assms] spec_cid_noise spec_cid_nonneg
  by (auto simp: large_def not_le)

text \<open>C3. Two clustered rows carry the same id exactly when they are connected through
  neighbour edges: the clusters are the large connected components.\<close>

theorem run_same_cluster_iff_connected:
  assumes "run_analysis g a s = Inr s'" and "clustered s' = Some c"
    and "j < length (crows c)" and "k < length (crows c)"
    and "0 \<le> cluster_id (crows c ! j)" and "0 \<le> cluster_id (crows c ! k)"
  shows "cluster_id (crows c ! j) = cluster_id (crows c ! k) \<longleftrightarrow> connected (run_edges g a) j k"
proof -
  let ?n = "length (rows g)" and ?es = "run_edges g a" and ?m = "arg_min_cluster_size a"
  from run_analysis_row [OF assms(1,2,3)] assms(3) have j: "j < ?n"
    and cj: "cluster_id (crows c ! j) = spec_cid ?n ?es ?m j" by auto
  from run_analysis_row [OF assms(1,2,4)] assms(4) have k: "k < ?n"
    and ck: "cluster_id (crows c ! k) = spec_cid ?n ?es ?m k" by auto
  from assms(5) cj have "large ?n ?es ?m j" using spec_cid_noise [of ?n ?es ?m j] by fastforce
  moreover from assms(6) ck have "large ?n ?es ?m k" using spec_cid_noise [of ?n ?es ?m k] by fastforce
  ultimately show ?thesis using spec_cid_same [OF j k] cj ck by simp
qed

text \<open>C7. With the app's default overlap of 0\<percent>, two rows are neighbours exactly when
  their bounding boxes meet and their times are close: the overlap test never rejects a
  pair, and the spatial index decides (spec, section 8, scenario 4).\<close>

theorem app_zero_overlap_edges:
  assumes "form_args cols f = Inr a" and "overlap_pct f = 0"
  shows "set (run_edges g a) =
           {(i, j). i < j \<and> j < length (rows g)
              \<and> bbox_intersects (row_polygon (rows g ! i)) (row_polygon (rows g ! j))
              \<and> temporal_ok (ftime (features_of g (arg_time_key a) ! i))
                            (ftime (features_of g (arg_time_key a) ! j)) (arg_time_threshold a)}"
proof -
  from form_args_Inr [OF assms(1)] assms(2) have z: "arg_overlap_threshold a = 0" by simp
  have ov: "0 \<le> overlap m p q" for m p q using overlap_range by blast
  show ?thesis
    using z ov
    by (auto simp: engine_edges_def set_build_edges neighbor_def engine_params_def
                   features_of_nth)
qed

text \<open>C6. The app passes the overlap slider's percentage where the engine expects a ratio
  in \<open>[0, 1]\<close> (spec, sections 3 and 6): every slider position other than 0 makes
  Run analysis fail with \<open>ParameterError\<close>.\<close>

theorem app_overlap_pct_rejected:
  assumes "form_ok f" and "0 < overlap_pct f" and "form_args (columns g) f = Inr a"
  shows "run_analysis g a s = Inl ParameterError"
  using form_pct_ratio [OF assms] by (simp add: run_analysis_def eval_simps)

text \<open>C20. A row with no neighbour is noise unless the minimum cluster size is 1
  (spec, section 2).\<close>

theorem run_isolated_noise:
  assumes "run_analysis g a s = Inr s'" and "clustered s' = Some c" and "j < length (crows c)"
    and "\<forall>k. \<not> linked (run_edges g a) j k"
  shows "cluster_id (crows c ! j) = -1 \<longleftrightarrow> 1 < arg_min_cluster_size a"
proof -
  let ?n = "length (rows g)" and ?es = "run_edges g a" and ?m = "arg_min_cluster_size a"
  from run_analysis_row [OF assms(1,2,3)] assms(3) have j: "j < ?n"
    and cj: "cluster_id (crows c ! j) = spec_cid ?n ?es ?m j" by auto
  with spec_cid_isolated [OF j assms(4)] show ?thesis by simp
qed

text \<open>C27. The labeller may process components concurrently, reconciling the ids by seed
  index afterwards (spec, section 5): whatever the order in which the workers run, the
  concurrent labelling of the run's edges gives every row the id the app stores.\<close>

theorem run_concurrent_labeller:
  assumes "run_analysis g a s = Inr s'" and "clustered s' = Some c"
    and "set workers = {0..<length (rows g)}" and "distinct workers"
  shows "label_concurrent (length (rows g)) (arg_min_cluster_size a) (run_edges g a) workers
           = Inr (map cluster_id (crows c))"
  using label_concurrent_spec [OF assms(3,4)] engine_edges_valid run_analysis_ids [OF assms(1,2)]
  by simp

text \<open>C28. The neighbour graph of a run with the app's arguments records each undirected
  pair once (spec, section 4.4), so it has at most \<open>n (n - 1) / 2\<close> edges for \<open>n\<close> rows
  (section 5).\<close>

theorem run_edges_bound:
  "distinct (run_edges g a)
   \<and> length (run_edges g a) \<le> length (rows g) * (length (rows g) - 1) div 2"
  using build_edges_bound [of _ "features_of g (arg_time_key a)"] by (simp add: engine_edges_def)

text \<open>C21. Outcome of Run analysis: pressed on a form the widgets can produce, at the
  default overlap of 0\<percent>, on a frame with rows and a valid geometry in every row, the
  engine never fails. The rerun shows that there is no cluster when no connected component
  has the minimum number of rows. Otherwise it draws the map, unless the selected time
  column is the frame's \<open>geometry\<close> column, which line 46 offers (its kind is \<open>O\<close>):
  line 138 then puts it among the tooltip fields, it is not a property of the GeoJSON
  features, and folium raises \<open>AssertionError\<close> when the map is rendered (line 147).\<close>

theorem run_shows_map:
  assumes "upload inp = Some g" and "form_ok (form inp)" and "overlap_pct (form inp) = 0"
    and "run_clicked inp" and "form_args (columns g) (form inp) = Inr a"
    and "rows g \<noteq> []" and "list_all (\<lambda>r. geometry r \<noteq> None \<and> geometry r \<noteq> Some []) (rows g)"
  shows "if \<exists>j < length (rows g). large (length (rows g)) (run_edges g a) (arg_min_cluster_size a) j
         then (if select_time_key (datetime_cols (columns g)) (time_pick (form inp)) = Some ''geometry''
               then fst (run_script inp rs s) = Crashed AssertionError
               else \<exists>ctr drawn tips. fst (run_script inp rs s) = MapView ctr drawn tips)
         else fst (run_script inp rs s) = NoClusters"
proof -
  let ?s1 = "if reset_clicked inp then reset_session s else s"
  let ?c = "annotate g (map (spec_cid (length (rows g)) (run_edges g a) (arg_min_cluster_size a))
              [0..<length (rows g)])"
  let ?tk = "select_time_key (datetime_cols (columns g)) (time_pick (form inp))"
  from run_analysis_valid [OF assms(2,5,3,6,7)]
  have "run_analysis g a ?s1 = Inr (?s1\<lparr>clustered := Some ?c\<rparr>)" .
  with assms(1,4,5) have r: "run_script inp rs s = render ?tk (?s1\<lparr>clustered := Some ?c\<rparr>) rs"
    by (simp add: run_script_def Let_def)
  have "?tk = None \<or> (\<exists>k. ?tk = Some k \<and> k \<in> fst ` set (columns g))"
    by (cases ?tk) (auto simp: datetime_cols_def dest!: select_time_key_in)
  from tooltip_valid_annotated [OF this]
  have tv: "tooltip_valid ?tk (display_columns (ccolumns ?c)) \<longleftrightarrow> ?tk \<noteq> Some ''geometry''"
    by (simp add: annotate_def)
  show ?thesis
  proof (cases "drop_noise (crows ?c) = []")
    case True
    with drop_noise_spec_empty [of g] r show ?thesis by (simp add: render_def Let_def)
  next
    case False
    with drop_noise_spec_empty [of g] r tv show ?thesis
      by (auto simp: render_def Let_def split: prod.splits)
  qed
qed

text \<open>C22. Timestamps are compared as instants (spec, section 4.2): writing a row's
  timestamps in another time zone or at another precision, without changing the instants
  they denote, changes nothing in a run: it fails with the same error, or stores the same
  cluster ids.\<close>

theorem run_zone_invariant:
  assumes "columns g' = columns g" and "map geometry (rows g') = map geometry (rows g)"
    and "map (\<lambda>r. map (\<lambda>(k, t). (k, instant t)) (props r)) (rows g')
         = map (\<lambda>r. map (\<lambda>(k, t). (k, instant t)) (props r)) (rows g)"
  shows "map_sum id (\<lambda>s1. map_option (\<lambda>c. map cluster_id (crows c)) (clustered s1)) (run_analysis g' a s)
         = map_sum id (\<lambda>s1. map_option (\<lambda>c. map cluster_id (crows c)) (clustered s1)) (run_analysis g a s)"
proof -
  from assms(2) have n: "length (rows g') = length (rows g)" by (metis length_map)
  have e: "run_edges g' a = run_edges g a" using assms(2,3) by (rule engine_edges_cong)
  have i: "input_ok g' (arg_time_key a) = input_ok g (arg_time_key a)"
    using assms(1,2) by (rule input_ok_cong)
  show ?thesis
    by (simp add: run_analysis_def cluster_polygons_spec e i n cluster_ids_annotate)
qed

text \<open>C25. Bounds of the stored ids: every \<open>cluster_id\<close> a successful run stores is at
  least \<open>-1\<close>, and an id \<open>k\<close> implies at least \<open>k + 1\<close> clusters of at least
  \<open>min_cluster_size\<close> rows each among the frame's rows: \<open>(k + 1) * min_cluster_size\<close>
  does not exceed the number of rows.\<close>

theorem run_ids_bound:
  assumes "run_analysis g a s = Inr s'" and "clustered s' = Some c" and "r \<in> set (crows c)"
  shows "-1 \<le> cluster_id r
         \<and> (cluster_id r + 1) * arg_min_cluster_size a \<le> int (length (rows g))"
proof -
  from assms(1) have m: "0 \<le> arg_min_cluster_size a"
    by (auto simp: run_analysis_def cluster_polygons_spec params_ok_def split: if_splits)
  from assms(3) obtain j where j: "j < length (crows c)" and r: "r = crows c ! j"
    by (auto simp: in_set_conv_nth)
  from run_analysis_row [OF assms(1,2) j] j have "j < length (rows g)"
    and "cluster_id r = spec_cid (length (rows g)) (run_edges g a) (arg_min_cluster_size a) j"
    by (auto simp: r)
  with spec_cid_bound [OF _ m] show ?thesis by simp
qed

section \<open>Witnesses\<close>

lemma example_run:
  "case run_analysis example_frame example_args empty_session of
     Inl _ \<Rightarrow> False
   | Inr s' \<Rightarrow> (case clustered s' of None \<Rightarrow> False | Some c \<Rightarrow> map cluster_id (crows c) = [0, 0])"
  by code_simp

lemma example_run_obtain:
  obtains s' c where "run_analysis example_frame example_args empty_session = Inr s'"
    and "clustered s' = Some c" and "map cluster_id (crows c) = [0, 0]"
  using example_run by (auto split: sum.splits option.splits)

lemma pairs_run:
  "case run_analysis pairs_frame example_args empty_session of
     Inl _ \<Rightarrow> False
   | Inr s' \<Rightarrow> (case clustered s' of None \<Rightarrow> False | Some c \<Rightarrow> map cluster_id (crows c) = [0, 0, 1, 1])"
  by code_simp

lemma pairs_run_obtain:
  obtains s' c where "run_analysis pairs_frame example_args empty_session = Inr s'"
    and "clustered s' = Some c" and "map cluster_id (crows c) = [0, 0, 1, 1]"
  using pairs_run by (auto split: sum.splits option.splits)

lemma apart_run:
  "case run_analysis apart_frame example_args empty_session of
     Inl _ \<Rightarrow> False
   | Inr s' \<Rightarrow> (case clustered s' of None \<Rightarrow> False | Some c \<Rightarrow> map cluster_id (crows c) = [-1, -1])"
  by code_simp

theorem run_noise_iff_small_witness:
  "\<exists>s' c. run_analysis example_frame example_args empty_session = Inr s' \<and> clustered s' = Some c
     \<and> 0 < length (crows c)
     \<and> (cluster_id (crows c ! 0) = -1 \<longleftrightarrow>
          int (card (component (length (rows example_frame)) (run_edges example_frame example_args) 0))
            < arg_min_cluster_size example_args)"
proof -
  obtain s' c where r: "run_analysis example_frame example_args empty_session = Inr s'"
    and cl: "clustered s' = Some c" and ids: "map cluster_id (crows c) = [0, 0]"
    by (rule example_run_obtain)
  from ids have l: "0 < length (crows c)" by (cases "crows c") auto
  from run_noise_iff_small [OF r cl l] r cl l show ?thesis by blast
qed

theorem run_same_cluster_iff_connected_witness:
  "\<exists>s' c. run_analysis example_frame example_args empty_session = Inr s' \<and> clustered s' = Some c
     \<and> 1 < length (crows c) \<and> 0 \<le> cluster_id (crows c ! 0) \<and> 0 \<le> cluster_id (crows c ! 1)
     \<and> connected (run_edges example_frame example_args) 0 1"
proof -
  obtain s' c where r: "run_analysis example_frame example_args empty_session = Inr s'"
    and cl: "clustered s' = Some c" and ids: "map cluster_id (crows c) = [0, 0]"
    by (rule example_run_obtain)
  from ids have l: "1 < length (crows c)" "0 < length (crows c)"
    and c0: "cluster_id (crows c ! 0) = 0" and c1: "cluster_id (crows c ! 1) = 0"
    by (auto simp: map_eq_Cons_conv length_Suc_conv)
  from run_same_cluster_iff_connected [OF r cl l(2) l(1)] c0 c1
  have "connected (run_edges example_frame example_args) 0 1" by simp
  with r cl l c0 c1 show ?thesis by simp
qed

theorem app_zero_overlap_edges_witness:
  "form_args (columns example_frame) example_form = Inr example_args \<and> overlap_pct example_form = 0
   \<and> set (run_edges example_frame example_args) =
       {(i, j). i < j \<and> j < length (rows example_frame)
          \<and> bbox_intersects (row_polygon (rows example_frame ! i)) (row_polygon (rows example_frame ! j))
          \<and> temporal_ok (ftime (features_of example_frame (arg_time_key example_args) ! i))
                        (ftime (features_of example_frame (arg_time_key example_args) ! j))
                        (arg_time_threshold example_args)}"
proof -
  have f: "form_args (columns example_frame) example_form = Inr example_args" by code_simp
  have z: "overlap_pct example_form = 0" by (simp add: example_form_def)
  from app_zero_overlap_edges [OF f z, of example_frame] f z show ?thesis by blast
qed

theorem app_overlap_pct_rejected_witness:
  "form_ok (example_form\<lparr>overlap_pct := 5\<rparr>)
   \<and> form_args (columns example_frame) (example_form\<lparr>overlap_pct := 5\<rparr>)
       = Inr (example_args\<lparr>arg_overlap_threshold := 5\<rparr>)
   \<and> run_analysis example_frame (example_args\<lparr>arg_overlap_threshold := 5\<rparr>) empty_session
       = Inl ParameterError"
proof -
  have ok: "form_ok (example_form\<lparr>overlap_pct := 5\<rparr>)"
    by (simp add: example_form_def eval_simps)
  have p: "0 < overlap_pct (example_form\<lparr>overlap_pct := 5\<rparr>)" by simp
  have f: "form_args (columns example_frame) (example_form\<lparr>overlap_pct := 5\<rparr>)
             = Inr (example_args\<lparr>arg_overlap_threshold := 5\<rparr>)" by code_simp
  from app_overlap_pct_rejected [OF ok p f] ok f show ?thesis by blast
qed

theorem run_ids_dense_witness:
  "\<exists>s' c. run_analysis pairs_frame example_args empty_session = Inr s' \<and> clustered s' = Some c
     \<and> {k \<in> cluster_id ` set (crows c). 0 \<le> k} = {0, 1}
     \<and> {0, 1} = int ` {0..<card (large_seeds (length (rows pairs_frame))
                                   (run_edges pairs_frame example_args) (arg_min_cluster_size example_args))}"
proof -
  obtain s' c where r: "run_analysis pairs_frame example_args empty_session = Inr s'"
    and cl: "clustered s' = Some c" and ids: "map cluster_id (crows c) = [0, 0, 1, 1]"
    by (rule pairs_run_obtain)
  from arg_cong [OF ids, of set] have "{k \<in> cluster_id ` set (crows c). 0 \<le> k} = {0, 1}" by auto
  with run_ids_dense [OF r cl] r cl show ?thesis by auto
qed

theorem run_ids_discovery_order_witness:
  "\<exists>s' c. run_analysis pairs_frame example_args empty_session = Inr s' \<and> clustered s' = Some c
     \<and> 2 < length (crows c) \<and> cluster_id (crows c ! 0) = 0 \<and> cluster_id (crows c ! 2) = 1
     \<and> seed_of 4 (run_edges pairs_frame example_args) 0 < seed_of 4 (run_edges pairs_frame example_args) 2"
proof -
  obtain s' c where r: "run_analysis pairs_frame example_args empty_session = Inr s'"
    and cl: "clustered s' = Some c" and ids: "map cluster_id (crows c) = [0, 0, 1, 1]"
    by (rule pairs_run_obtain)
  from ids have l: "2 < length (crows c)" "0 < length (crows c)"
    and c0: "cluster_id (crows c ! 0) = 0" and c2: "cluster_id (crows c ! 2) = 1"
    by (auto simp: map_eq_Cons_conv length_Suc_conv)
  have n: "length (rows pairs_frame) = 4" by (simp add: pairs_frame_def)
  from run_ids_discovery_order [OF r cl l(2) l(1)] c0 c2 n
  have "seed_of 4 (run_edges pairs_frame example_args) 0 < seed_of 4 (run_edges pairs_frame example_args) 2"
    by simp
  with r cl l c0 c2 show ?thesis by simp
qed

theorem run_isolated_noise_witness:
  "\<exists>s' c. run_analysis apart_frame example_args empty_session = Inr s' \<and> clustered s' = Some c
     \<and> 0 < length (crows c) \<and> (\<forall>k. \<not> linked (run_edges apart_frame example_args) 0 k)
     \<and> cluster_id (crows c ! 0) = -1 \<and> 1 < arg_min_cluster_size example_args"
proof -
  obtain s' c where r: "run_analysis apart_frame example_args empty_session = Inr s'"
    and cl: "clustered s' = Some c" and ids: "map cluster_id (crows c) = [-1, -1]"
    using apart_run by (auto split: sum.splits option.splits)
  from ids have l: "0 < length (crows c)" by (cases "crows c") auto
  have "run_edges apart_frame example_args = []" by code_simp
  then have iso: "\<forall>k. \<not> linked (run_edges apart_frame example_args) 0 k" by (simp add: linked_def)
  from run_isolated_noise [OF r cl l iso] ids l
  have "cluster_id (crows c ! 0) = -1 \<and> 1 < arg_min_cluster_size example_args"
    by (auto simp: map_eq_Cons_conv example_args_def)
  with r cl l iso show ?thesis by blast
qed

theorem run_shows_map_witness:
  "\<exists>ctr drawn tips. fst (run_script \<lparr>upload = Some example_frame, form = example_form,
       run_clicked = True, reset_clicked = False\<rparr> example_rng empty_session) = MapView ctr drawn tips"
proof -
  let ?inp = "\<lparr>upload = Some example_frame, form = example_form, run_clicked = True,
               reset_clicked = False\<rparr>"
  have f: "form_args (columns example_frame) example_form = Inr example_args" by code_simp
  have ok: "form_ok example_form" by (simp add: example_form_def eval_simps)
  have z: "overlap_pct example_form = 0" by (simp add: example_form_def)
  have rows: "rows example_frame \<noteq> []" "list_all (\<lambda>r. geometry r \<noteq> None \<and> geometry r \<noteq> Some []) (rows example_frame)"
    by (simp_all add: example_frame_def)
  obtain s' c where "run_analysis example_frame example_args empty_session = Inr s'"
    and "clustered s' = Some c" and ids: "map cluster_id (crows c) = [0, 0]"
    by (rule example_run_obtain)
  have l: "length (rows example_frame) = 2" by (simp add: example_frame_def)
  have "large 2 (run_edges example_frame example_args) (arg_min_cluster_size example_args) 0"
  proof -
    have "run_edges example_frame example_args = [(0, 1)]" by code_simp
    then have "component 2 (run_edges example_frame example_args) 0 = {0, 1}"
      by (auto simp: component_def linked_def intro: r_into_rtranclp)
    then show ?thesis by (simp add: large_def example_args_def)
  qed
  then have "\<exists>j < length (rows example_frame).
      large (length (rows example_frame)) (run_edges example_frame example_args)
        (arg_min_cluster_size example_args) j" using l by (intro exI [of _ 0]) simp
  moreover have "select_time_key (datetime_cols (columns example_frame)) (time_pick example_form)
      \<noteq> Some ''geometry''" by code_simp
  ultimately show ?thesis
    using run_shows_map [of ?inp example_frame example_args example_rng empty_session] f ok z rows
    by simp
qed

theorem run_zone_invariant_witness:
  "map_sum id (\<lambda>s1. map_option (\<lambda>c. map cluster_id (crows c)) (clustered s1))
     (run_analysis zoned_frame example_args empty_session)
   = map_sum id (\<lambda>s1. map_option (\<lambda>c. map cluster_id (crows c)) (clustered s1))
     (run_analysis example_frame example_args empty_session)"
proof -
  have c: "columns zoned_frame = columns example_frame"
    by (simp add: zoned_frame_def example_frame_def)
  have g: "map geometry (rows zoned_frame) = map geometry (rows example_frame)"
    by (simp add: zoned_frame_def example_frame_def)
  have t: "map (\<lambda>r. map (\<lambda>(k, t). (k, instant t)) (props r)) (rows zoned_frame)
         = map (\<lambda>r. map (\<lambda>(k, t). (k, instant t)) (props r)) (rows example_frame)"
    by (simp add: zoned_frame_def example_frame_def instant_def utc_seconds_def)
  from run_zone_invariant [OF c g t] show ?thesis .
qed

theorem run_ids_bound_witness:
  "\<exists>s' c. run_analysis pairs_frame example_args empty_session = Inr s' \<and> clustered s' = Some c
     \<and> 2 < length (crows c) \<and> cluster_id (crows c ! 2) = 1
     \<and> (cluster_id (crows c ! 2) + 1) * arg_min_cluster_size example_args \<le> int (length (rows pairs_frame))"
proof -
  obtain s' c where r: "run_analysis pairs_frame example_args empty_session = Inr s'"
    and cl: "clustered s' = Some c" and ids: "map cluster_id (crows c) = [0, 0, 1, 1]"
    by (rule pairs_run_obtain)
  from ids have l: "2 < length (crows c)" and c2: "cluster_id (crows c ! 2) = 1"
    by (auto simp: map_eq_Cons_conv length_Suc_conv)
  from l have "crows c ! 2 \<in> set (crows c)" by simp
  from run_ids_bound [OF r cl this] r cl l c2 show ?thesis by simp
qed


theorem run_concurrent_labeller_witness:
  "\<exists>s' c. run_analysis example_frame example_args empty_session = Inr s' \<and> clustered s' = Some c
     \<and> label_concurrent (length (rows example_frame)) (arg_min_cluster_size example_args)
         (run_edges example_frame example_args) [1, 0] = Inr (map cluster_id (crows c))
     \<and> map cluster_id (crows c) = [0, 0]"
proof -
  obtain s' c where r: "run_analysis example_frame example_args empty_session = Inr s'"
    and cl: "clustered s' = Some c" and ids: "map cluster_id (crows c) = [0, 0]"
    by (rule example_run_obtain)
  have o: "set [1, 0] = {0..<length (rows example_frame)}" by (auto simp: example_frame_def)
  have d: "distinct [1 :: nat, 0]" by simp
  note l = run_concurrent_labeller [OF r cl o d]
  show ?thesis by (rule exI [of _ s'], rule exI [of _ c]) (intro conjI r cl l ids)
qed


end
